(* ===== verification/Prelude.thy ===== *)
theory Prelude
  imports Main "HOL-Library.Word"
begin

text \<open>
  Shared vocabulary of the development: the machine integers of the Rust source as
  words, bytes and byte strings, the \<open>?\<close> operator of fallible functions, big- and
  little-endian conversions, and the fact collections the component theories use.

  Conventions.  A Rust \<open>u8/u16/u32/u64\<close> is a word of that width; the signed
  \<open>i8/i16\<close> are the same words read with \<open>sint\<close>.  \<open>usize\<close> is \<open>nat\<close>: lengths of
  in-memory buffers never approach $2^{64}$.  A \<open>Vec<u8>\<close> or \<open>&[u8]\<close> is a list of
  bytes.  A Rust \<open>String\<close> is the list of the bytes of its UTF-8 encoding, written as
  an Isabelle \<open>string\<close> (one \<open>char\<close> per byte), so literals stay readable.
  A \<open>Result\<close> is a sum, the error on the left.
\<close>

unbundle bit_operations_syntax

type_synonym u8 = "8 word"
type_synonym u16 = "16 word"
type_synonym u32 = "32 word"
type_synonym u64 = "64 word"
type_synonym bytes = "u8 list"

named_theorems appends "writers append to their buffer"
named_theorems read_simps "what a reader does on a given buffer"
named_theorems step_simps "unfolding of the operations of a state machine"

section \<open>Results\<close>

definition and_then :: "'e + 'a \<Rightarrow> ('a \<Rightarrow> 'e + 'b) \<Rightarrow> 'e + 'b" where
  "and_then r f = (case r of Inl e \<Rightarrow> Inl e | Inr a \<Rightarrow> f a)"

definition map_ok :: "('a \<Rightarrow> 'b) \<Rightarrow> 'e + 'a \<Rightarrow> 'e + 'b" where
  "map_ok f r = (case r of Inl e \<Rightarrow> Inl e | Inr a \<Rightarrow> Inr (f a))"

definition ok_or :: "'e \<Rightarrow> 'a option \<Rightarrow> 'e + 'a" where
  "ok_or e x = (case x of None \<Rightarrow> Inl e | Some a \<Rightarrow> Inr a)"

definition unwrap_or :: "'a \<Rightarrow> 'a option \<Rightarrow> 'a" where
  "unwrap_or d x = (case x of None \<Rightarrow> d | Some a \<Rightarrow> a)"

definition or_opt :: "'a option \<Rightarrow> 'a option \<Rightarrow> 'a option" where
  "or_opt x y = (case x of None \<Rightarrow> y | Some a \<Rightarrow> Some a)"

lemma and_then_simps [simp]:
  "and_then (Inl e) f = Inl e"
  "and_then (Inr a) f = f a"
  by (simp_all add: and_then_def)

lemma map_ok_simps [simp]:
  "map_ok g (Inl e) = Inl e"
  "map_ok g (Inr a) = Inr (g a)"
  by (simp_all add: map_ok_def)

lemma ok_or_simps [simp]:
  "ok_or e None = Inl e"
  "ok_or e (Some a) = Inr a"
  by (simp_all add: ok_or_def)

lemma unwrap_or_simps [simp]:
  "unwrap_or d None = d"
  "unwrap_or d (Some a) = a"
  by (simp_all add: unwrap_or_def)

lemma or_opt_simps [simp]:
  "or_opt None y = y"
  "or_opt (Some a) y = Some a"
  by (simp_all add: or_opt_def)

lemma and_then_Inr_conv: "and_then r f = Inr b \<longleftrightarrow> (\<exists>a. r = Inr a \<and> f a = Inr b)"
  by (cases r) auto

lemma and_then_Inl_conv:
  "and_then r f = Inl e \<longleftrightarrow> r = Inl e \<or> (\<exists>a. r = Inr a \<and> f a = Inl e)"
  by (cases r) auto

lemma map_ok_Inr_conv: "map_ok g r = Inr b \<longleftrightarrow> (\<exists>a. r = Inr a \<and> b = g a)"
  by (cases r) auto

text \<open>
  \<^verbatim>\<open>slice.get(i)\<close>: the element at an index, \<open>None\<close> out of range.
\<close>

definition get_at :: "'a list \<Rightarrow> nat \<Rightarrow> 'a option" where
  "get_at xs i = (if i < length xs then Some (xs ! i) else None)"

lemma get_at_append: "i < length xs \<Longrightarrow> get_at (xs @ ys) i = Some (xs ! i)"
  by (simp add: get_at_def nth_append)

text \<open>\<^verbatim>\<open>slice.iter().position(p)\<close>: the index of the first element with the property.\<close>

fun position :: "('a \<Rightarrow> bool) \<Rightarrow> 'a list \<Rightarrow> nat option" where
  "position p [] = None"
| "position p (x # xs) = (if p x then Some 0 else map_option Suc (position p xs))"

lemma position_Some:
  "position p xs = Some i \<longleftrightarrow> i < length xs \<and> p (xs ! i) \<and> (\<forall>j<i. \<not> p (xs ! j))"
proof (induction xs arbitrary: i)
  case Nil
  then show ?case by simp
next
  case (Cons x xs)
  show ?case
    by (cases i) (auto simp: Cons.IH less_Suc_eq_0_disj)
qed

lemma position_None: "position p xs = None \<longleftrightarrow> (\<forall>x \<in> set xs. \<not> p x)"
  by (induction xs) auto

section \<open>Bytes\<close>

text \<open>\<^verbatim>\<open>u16::to_be_bytes\<close> and its relatives; the inverses rebuild the value digit by digit.\<close>

definition be16 :: "u16 \<Rightarrow> bytes" where
  "be16 v = [ucast (drop_bit 8 v), ucast v]"

definition be32 :: "u32 \<Rightarrow> bytes" where
  "be32 v = [ucast (drop_bit 24 v), ucast (drop_bit 16 v), ucast (drop_bit 8 v), ucast v]"

definition be64 :: "u64 \<Rightarrow> bytes" where
  "be64 v = [ucast (drop_bit 56 v), ucast (drop_bit 48 v), ucast (drop_bit 40 v),
     ucast (drop_bit 32 v), ucast (drop_bit 24 v), ucast (drop_bit 16 v),
     ucast (drop_bit 8 v), ucast v]"

definition le16 :: "u16 \<Rightarrow> bytes" where
  "le16 v = rev (be16 v)"

definition le32 :: "u32 \<Rightarrow> bytes" where
  "le32 v = rev (be32 v)"

definition nat_of_be :: "bytes \<Rightarrow> nat" where
  "nat_of_be bs = foldl (\<lambda>acc b. acc * 256 + unat b) 0 bs"

definition from_be :: "bytes \<Rightarrow> 'a::len word" where
  "from_be bs = word_of_nat (nat_of_be bs)"

definition from_le :: "bytes \<Rightarrow> 'a::len word" where
  "from_le bs = from_be (rev bs)"

lemma length_be [simp]:
  "length (be16 v) = 2" "length (be32 w) = 4" "length (be64 x) = 8"
  "length (le16 v) = 2" "length (le32 w) = 4"
  by (simp_all add: be16_def be32_def be64_def le16_def le32_def)

lemma unat_bound: "unat (w :: 'a::len word) < 2 ^ LENGTH('a)"
  by (rule unsigned_less)

lemma unat_u8_bound: "unat (b :: u8) < 256"
  using unat_bound [of b] by simp

lemma unat_ucast_u8: "unat (ucast (w :: 'a::len word) :: u8) = unat w mod 256"
  by (simp add: unsigned_ucast_eq take_bit_eq_mod)

lemma unat_drop_bit: "unat (drop_bit n (w :: 'a::len word)) = unat w div 2 ^ n"
proof -
  have "take_bit LENGTH('a) (unat w) = unat w"
    using unat_bound [of w] by (rule take_bit_nat_eq_self)
  then have "unat (drop_bit n w) = drop_bit n (unat w)"
    by (simp only: unsigned_drop_bit_eq)
  then show ?thesis
    by (simp only: drop_bit_eq_div)
qed

lemma digit_step:
  fixes x :: nat
  shows "x div 2 ^ (k + 8) * 256 + x div 2 ^ k mod 256 = x div 2 ^ k"
proof -
  have "x div 2 ^ (k + 8) = x div 2 ^ k div 256"
    by (simp add: power_add div_mult2_eq)
  then show ?thesis by simp
qed

lemma top_digit: "x < 2 ^ (k + 8) \<Longrightarrow> (x::nat) div 2 ^ k mod 256 = x div 2 ^ k"
  by (simp add: power_add less_mult_imp_div_less mult.commute)

lemma nat_of_be_digits:
  "nat_of_be (map (\<lambda>k. ucast (drop_bit k v)) ks)
     = foldl (\<lambda>acc k. acc * 256 + unat (v :: 'a::len word) div 2 ^ k mod 256) 0 ks"
  by (simp only: nat_of_be_def foldl_map unat_ucast_u8 unat_drop_bit)

lemma be_digits:
  "be16 a = map (\<lambda>k. ucast (drop_bit k a)) [8, 0]"
  "be32 b = map (\<lambda>k. ucast (drop_bit k b)) [24, 16, 8, 0]"
  "be64 c = map (\<lambda>k. ucast (drop_bit k c)) [56, 48, 40, 32, 24, 16, 8, 0]"
  by (simp_all add: be16_def be32_def be64_def)

lemma nat_of_be16: "nat_of_be (be16 v) = unat v"
proof -
  have "unat v div 2 ^ 8 mod 256 = unat v div 2 ^ 8"
    using unat_bound [of v] by (intro top_digit) simp
  with digit_step [of "unat v" 0] show ?thesis
    unfolding be_digits nat_of_be_digits by simp
qed

lemma nat_of_be32: "nat_of_be (be32 v) = unat v"
proof -
  have "unat v div 2 ^ 24 mod 256 = unat v div 2 ^ 24"
    using unat_bound [of v] by (intro top_digit) simp
  with digit_step [of "unat v" 16] digit_step [of "unat v" 8] digit_step [of "unat v" 0]
  show ?thesis
    unfolding be_digits nat_of_be_digits by simp
qed

lemma nat_of_be64: "nat_of_be (be64 v) = unat v"
proof -
  have "unat v div 2 ^ 56 mod 256 = unat v div 2 ^ 56"
    using unat_bound [of v] by (intro top_digit) simp
  with digit_step [of "unat v" 48] digit_step [of "unat v" 40] digit_step [of "unat v" 32]
    digit_step [of "unat v" 24] digit_step [of "unat v" 16] digit_step [of "unat v" 8]
    digit_step [of "unat v" 0]
  show ?thesis
    unfolding be_digits nat_of_be_digits by simp
qed

lemma from_be_to_be [simp]:
  "from_be (be16 v) = v" "from_be (be32 w) = w" "from_be (be64 x) = x"
  by (simp_all add: from_be_def nat_of_be16 nat_of_be32 nat_of_be64)

lemma be16_from_be: "be16 (from_be [a, b]) = [a, b]"
proof -
  define v :: u16 where "v = push_bit 8 (ucast a) OR ucast b"
  have "ucast (drop_bit 8 v) = a" "ucast v = b"
    unfolding v_def by (rule bit_word_eqI, auto simp: bit_simps dest: bit_imp_le_length)+
  then have v: "be16 v = [a, b]" by (simp add: be16_def)
  have "from_be (be16 v) = v" by simp
  with v show ?thesis by simp
qed

lemma from_le_to_le [simp]:
  "from_le (le16 v) = v" "from_le (le32 w) = w"
  by (simp_all add: from_le_def le16_def le32_def)

text \<open>A value that fits the shorter width survives the detour through it.\<close>

lemma from_be_short:
  "unat w < 2 ^ 16 \<Longrightarrow> from_be (be16 (ucast w)) = (w :: 'a::len word)"
  "unat w < 2 ^ 32 \<Longrightarrow> from_be (be32 (ucast w)) = w"
  by (simp_all add: from_be_def nat_of_be16 nat_of_be32 unsigned_ucast_eq take_bit_eq_mod)

lemma ucast_short8: "unat (w :: 'a::len word) < 256 \<Longrightarrow> ucast (ucast w :: u8) = w"
proof -
  assume "unat w < 256"
  then have "unat (ucast w :: u8) = unat w" by (simp add: unat_ucast_u8)
  then have "unat (ucast (ucast w :: u8) :: 'a word) = unat w"
    by (metis take_bit_nat_eq_self take_bit_nat_eq_self_iff unat_bound unsigned_ucast_eq)
  then show ?thesis by (rule unsigned_word_eqI)
qed

lemma nat_of_be_bound: "nat_of_be bs < 256 ^ length bs"
proof (induction bs rule: rev_induct)
  case Nil
  then show ?case by (simp add: nat_of_be_def)
next
  case (snoc b bs)
  have "unat b < 256" by (rule unat_u8_bound)
  with snoc show ?case by (simp add: nat_of_be_def)
qed

lemma high_bit_u8: "(w :: u8) AND 0x80 = 0 \<longleftrightarrow> unat w < 128"
proof -
  have "w AND 2 ^ 7 = 0 \<longleftrightarrow> \<not> bit w 7" by (rule and_exp_eq_0_iff_not_bit)
  also have "bit w 7 \<longleftrightarrow> bit (unat w) 7"
    by (simp add: bit_unsigned_iff)
  also have "\<dots> \<longleftrightarrow> odd (unat w div 128)"
    by (simp add: bit_iff_odd)
  finally have *: "w AND 0x80 = 0 \<longleftrightarrow> even (unat w div 128)" by simp
  have "unat w div 128 < 2" using unat_u8_bound [of w] by (simp add: less_mult_imp_div_less)
  then have "unat w div 128 = 0 \<or> unat w div 128 = 1" by auto
  then show ?thesis unfolding * by (auto simp: div_eq_0_iff)
qed
lemma unat_not_u8: "unat (NOT (w :: u8)) = 255 - unat w"
proof -
  have "NOT w = - 1 - w" by (rule not_eq_complement [THEN trans]) simp
  also have "\<dots> = 255 - w" by simp
  finally show ?thesis using unat_u8_bound [of w] by (simp add: unat_sub word_le_nat_alt)
qed

lemma unat_word_of_nat_u8: "n < 256 \<Longrightarrow> unat (word_of_nat n :: u8) = n"
  by (simp add: unat_of_nat take_bit_nat_eq_self)

end
