(* ===== verification/Rust_Std.thy ===== *)
theory Rust_Std
  imports Prelude
begin

text \<open>
  The parts of the Rust standard library the source calls on text: ASCII
  classification, case mapping, trimming and splitting at white space, substring
  search, UTF-8 validation and lossy decoding, and decimal formatting.  A string is
  the list of its UTF-8 bytes; white space is Unicode's \<open>White_Space\<close> property, as in
  \<^verbatim>\<open>char::is_whitespace\<close>, given by its encodings.
\<close>

section \<open>Characters\<close>

definition code :: "char \<Rightarrow> nat" where
  "code c = of_char c"

definition byte_of :: "char \<Rightarrow> u8" where
  "byte_of c = of_char c"

definition char_at :: "u8 \<Rightarrow> char" where
  "char_at b = char_of (unat b)"

definition str_bytes :: "string \<Rightarrow> bytes" where
  "str_bytes s = map byte_of s"

definition bytes_str :: "bytes \<Rightarrow> string" where
  "bytes_str bs = map char_at bs"

lemma code_bound: "code c < 256"
  by (simp add: code_def)

lemma byte_of_code: "byte_of c = word_of_nat (code c)"
  by (cases c) (simp add: byte_of_def code_def)

lemma unat_byte_of: "unat (byte_of c) = code c"
  using code_bound [of c] by (simp add: byte_of_code unat_of_nat take_bit_nat_eq_self)

lemma char_at_byte_of [simp]: "char_at (byte_of c) = c"
  by (simp add: char_at_def unat_byte_of) (simp add: code_def)

lemma byte_of_char_at [simp]: "byte_of (char_at b) = b"
  using unat_u8_bound [of b]
  by (simp add: byte_of_code char_at_def code_def)

lemma bytes_str_str_bytes [simp]: "bytes_str (str_bytes s) = s"
  by (induction s) (simp_all add: bytes_str_def str_bytes_def)

lemma str_bytes_bytes_str [simp]: "str_bytes (bytes_str bs) = bs"
  by (induction bs) (simp_all add: bytes_str_def str_bytes_def)

lemma str_bytes_append [simp]: "str_bytes (s @ t) = str_bytes s @ str_bytes t"
  by (simp add: str_bytes_def)

lemma length_str_bytes [simp]: "length (str_bytes s) = length s"
  by (simp add: str_bytes_def)

lemma length_bytes_str [simp]: "length (bytes_str s) = length s"
  by (simp add: bytes_str_def)

lemma str_bytes_Nil_iff [simp]: "str_bytes s = [] \<longleftrightarrow> s = []"
  by (simp add: str_bytes_def)

definition is_ascii_digit :: "char \<Rightarrow> bool" where
  "is_ascii_digit c \<longleftrightarrow> 48 \<le> code c \<and> code c \<le> 57"

definition is_ascii_uppercase :: "char \<Rightarrow> bool" where
  "is_ascii_uppercase c \<longleftrightarrow> 65 \<le> code c \<and> code c \<le> 90"

definition is_ascii_lowercase :: "char \<Rightarrow> bool" where
  "is_ascii_lowercase c \<longleftrightarrow> 97 \<le> code c \<and> code c \<le> 122"

definition is_ascii_alphabetic :: "char \<Rightarrow> bool" where
  "is_ascii_alphabetic c \<longleftrightarrow> is_ascii_uppercase c \<or> is_ascii_lowercase c"

definition is_ascii_alphanumeric :: "char \<Rightarrow> bool" where
  "is_ascii_alphanumeric c \<longleftrightarrow> is_ascii_alphabetic c \<or> is_ascii_digit c"

definition is_ascii_graphic :: "char \<Rightarrow> bool" where
  "is_ascii_graphic c \<longleftrightarrow> 33 \<le> code c \<and> code c \<le> 126"

text \<open>Space, tab, line feed, form feed, carriage return (not vertical tab).\<close>

definition is_ascii_whitespace :: "char \<Rightarrow> bool" where
  "is_ascii_whitespace c \<longleftrightarrow> code c \<in> {32, 9, 10, 12, 13}"

definition to_ascii_upper :: "char \<Rightarrow> char" where
  "to_ascii_upper c = (if is_ascii_lowercase c then char_of (code c - 32) else c)"

definition to_ascii_lower :: "char \<Rightarrow> char" where
  "to_ascii_lower c = (if is_ascii_uppercase c then char_of (code c + 32) else c)"

definition to_ascii_uppercase :: "string \<Rightarrow> string" where
  "to_ascii_uppercase s = map to_ascii_upper s"

definition to_ascii_lowercase :: "string \<Rightarrow> string" where
  "to_ascii_lowercase s = map to_ascii_lower s"

definition eq_ignore_ascii_case :: "string \<Rightarrow> string \<Rightarrow> bool" where
  "eq_ignore_ascii_case s t \<longleftrightarrow> to_ascii_lowercase s = to_ascii_lowercase t"

lemma to_ascii_lower_idem [simp]: "to_ascii_lower (to_ascii_lower c) = to_ascii_lower c"
  by (simp add: to_ascii_lower_def is_ascii_uppercase_def code_def)

lemma to_ascii_lower_upper [simp]: "to_ascii_lower (to_ascii_upper c) = to_ascii_lower c"
  by (auto simp: to_ascii_lower_def to_ascii_upper_def is_ascii_uppercase_def
      is_ascii_lowercase_def code_def)

lemma to_ascii_lowercase_idem [simp]:
  "to_ascii_lowercase (to_ascii_lowercase s) = to_ascii_lowercase s"
  by (simp add: to_ascii_lowercase_def)

lemma to_ascii_lowercase_upper [simp]:
  "to_ascii_lowercase (to_ascii_uppercase s) = to_ascii_lowercase s"
  by (simp add: to_ascii_lowercase_def to_ascii_uppercase_def)

section \<open>White space\<close>

text \<open>
  The number of bytes of the white-space character a string starts with, 0 when it
  starts with none: U+0009 to U+000D, U+0020, U+0085, U+00A0, U+1680, U+2000 to U+200A,
  U+2028, U+2029, U+202F, U+205F and U+3000.
\<close>

definition ws_codes :: "nat list \<Rightarrow> nat" where
  "ws_codes cs = (case cs of [] \<Rightarrow> 0
     | a # r \<Rightarrow>
       if (9 \<le> a \<and> a \<le> 13) \<or> a = 32 then 1
       else (case r of [] \<Rightarrow> 0
         | b # r' \<Rightarrow>
           if a = 194 \<and> (b = 133 \<or> b = 160) then 2
           else (case r' of [] \<Rightarrow> 0
             | c # _ \<Rightarrow>
               if (a = 225 \<and> b = 154 \<and> c = 128)
                 \<or> (a = 226 \<and> b = 128 \<and> ((128 \<le> c \<and> c \<le> 138) \<or> c = 168 \<or> c = 169 \<or> c = 175))
                 \<or> (a = 226 \<and> b = 129 \<and> c = 159)
                 \<or> (a = 227 \<and> b = 128 \<and> c = 128) then 3
               else 0)))"

definition ws_len :: "string \<Rightarrow> nat" where
  "ws_len s = ws_codes (map code (take 3 s))"

text \<open>The same at the end of a string: the last one, two or three bytes.\<close>

definition ws_len_end :: "string \<Rightarrow> nat" where
  "ws_len_end s = (let n = length s in
     if s \<noteq> [] \<and> ws_len (drop (n - 1) s) = 1 then 1
     else if 2 \<le> n \<and> ws_len (drop (n - 2) s) = 2 then 2
     else if 3 \<le> n \<and> ws_len (drop (n - 3) s) = 3 then 3
     else 0)"

lemma ws_len_le: "ws_len s \<le> length s"
  by (cases s; cases "tl s"; cases "tl (tl s)") (auto simp: ws_len_def ws_codes_def)

lemma ws_len_pos_nonempty: "0 < ws_len s \<Longrightarrow> s \<noteq> []"
  by (auto simp: ws_len_def ws_codes_def)

lemma ws_len_end_pos_nonempty: "0 < ws_len_end s \<Longrightarrow> s \<noteq> []"
  by (auto simp: ws_len_end_def Let_def split: if_splits)

lemma ws_len_shrinks: "0 < ws_len s \<Longrightarrow> length s - ws_len s < length s"
  using ws_len_pos_nonempty [of s] by (cases s) simp_all

lemma ws_len_end_shrinks: "0 < ws_len_end s \<Longrightarrow> length s - ws_len_end s < length s"
  using ws_len_end_pos_nonempty [of s] by (cases s) simp_all

function trim_start :: "string \<Rightarrow> string" where
  "trim_start s = (if 0 < ws_len s then trim_start (drop (ws_len s) s) else s)"
  by pat_completeness auto
termination
  by (relation "measure length") (simp_all add: ws_len_shrinks)

function trim_end :: "string \<Rightarrow> string" where
  "trim_end s = (if 0 < ws_len_end s then trim_end (take (length s - ws_len_end s) s) else s)"
  by pat_completeness auto
termination
  by (relation "measure length") (simp_all add: ws_len_end_shrinks)

declare trim_start.simps [simp del] trim_end.simps [simp del]

definition trim :: "string \<Rightarrow> string" where
  "trim s = trim_end (trim_start s)"

lemma length_trim_start: "length (trim_start s) \<le> length s"
proof (induction s rule: trim_start.induct)
  case (1 s)
  then show ?case by (subst trim_start.simps) (auto intro: order_trans)
qed

lemma length_trim_end: "length (trim_end s) \<le> length s"
proof (induction s rule: trim_end.induct)
  case (1 s)
  then show ?case by (subst trim_end.simps) (auto intro: order_trans)
qed

lemma length_trim: "length (trim s) \<le> length s"
  unfolding trim_def by (rule order_trans [OF length_trim_end length_trim_start])

text \<open>Visible ASCII text is not trimmed.\<close>

lemma trim_graphic:
  assumes "list_all is_ascii_graphic s"
  shows "trim s = s"
proof -
  have ws: "ws_len t = 0" if "list_all is_ascii_graphic t" for t
  proof (cases t)
    case (Cons c r)
    with that have "33 \<le> code c" "code c \<le> 126" by (simp_all add: is_ascii_graphic_def)
    then show ?thesis
      unfolding Cons by (auto simp: ws_len_def ws_codes_def numeral_eq_Suc split: list.splits)
  qed (simp add: ws_len_def ws_codes_def)
  have "list_all is_ascii_graphic (drop n s)" for n
    using assms by (auto simp: list_all_iff dest: in_set_dropD)
  then have "ws_len_end s = 0" by (simp add: ws_len_end_def Let_def ws)
  then show ?thesis
    using ws [OF assms] by (simp add: trim_def trim_start.simps trim_end.simps)
qed

text \<open>
  \<^verbatim>\<open>str::split_whitespace\<close>: the maximal runs of non-white-space.  The accumulator
  is the current word, reversed.
\<close>

function words_acc :: "string \<Rightarrow> string \<Rightarrow> string list" where
  "words_acc acc s =
     (if s = [] then (if acc = [] then [] else [rev acc])
      else if 0 < ws_len s
      then (if acc = [] then words_acc [] (drop (ws_len s) s)
            else rev acc # words_acc [] (drop (ws_len s) s))
      else words_acc (hd s # acc) (tl s))"
  by pat_completeness auto
termination
  by (relation "measure (\<lambda>(acc, s). length s)") auto

declare words_acc.simps [simp del]

definition split_whitespace :: "string \<Rightarrow> string list" where
  "split_whitespace s = words_acc [] s"

fun ascii_words_acc :: "string \<Rightarrow> string \<Rightarrow> string list" where
  "ascii_words_acc acc [] = (if acc = [] then [] else [rev acc])"
| "ascii_words_acc acc (c # s) =
     (if is_ascii_whitespace c
      then (if acc = [] then ascii_words_acc [] s else rev acc # ascii_words_acc [] s)
      else ascii_words_acc (c # acc) s)"

definition split_ascii_whitespace :: "string \<Rightarrow> string list" where
  "split_ascii_whitespace s = ascii_words_acc [] s"

section \<open>Searching and splitting\<close>

fun starts_with :: "'a list \<Rightarrow> 'a list \<Rightarrow> bool" where
  "starts_with _ [] = True"
| "starts_with [] (p # ps) = False"
| "starts_with (x # xs) (p # ps) = (x = p \<and> starts_with xs ps)"

definition strip_prefix :: "'a list \<Rightarrow> 'a list \<Rightarrow> 'a list option" where
  "strip_prefix s p = (if starts_with s p then Some (drop (length p) s) else None)"

definition ends_with :: "'a list \<Rightarrow> 'a list \<Rightarrow> bool" where
  "ends_with s p \<longleftrightarrow> starts_with (rev s) (rev p)"

fun contains :: "'a list \<Rightarrow> 'a list \<Rightarrow> bool" where
  "contains [] p = (p = [])"
| "contains (x # xs) p = (starts_with (x # xs) p \<or> contains xs p)"

lemma starts_with_iff: "starts_with s p \<longleftrightarrow> (\<exists>r. s = p @ r)"
  by (induction s p rule: starts_with.induct) auto

lemma contains_iff: "contains s p \<longleftrightarrow> (\<exists>a b. s = a @ p @ b)"
proof (induction s)
  case Nil
  then show ?case by auto
next
  case (Cons x s)
  show ?case
    by (auto simp: Cons.IH starts_with_iff Cons_eq_append_conv)
qed

text \<open>\<^verbatim>\<open>str::split_once(pat)\<close> splits at the first occurrence of a non-empty pattern.\<close>

fun split_once :: "string \<Rightarrow> string \<Rightarrow> (string \<times> string) option" where
  "split_once [] p = None"
| "split_once (x # xs) p =
     (if starts_with (x # xs) p then Some ([], drop (length p) (x # xs))
      else map_option (\<lambda>(a, b). (x # a, b)) (split_once xs p))"

definition rsplit_once :: "string \<Rightarrow> char \<Rightarrow> (string \<times> string) option" where
  "rsplit_once s c = map_option (\<lambda>(a, b). (rev b, rev a)) (split_once (rev s) [c])"

fun split_char :: "char \<Rightarrow> string \<Rightarrow> string list" where
  "split_char c [] = [[]]"
| "split_char c (x # xs) =
     (if x = c then [] # split_char c xs
      else (case split_char c xs of [] \<Rightarrow> [[x]] | w # ws \<Rightarrow> (x # w) # ws))"

text \<open>\<^verbatim>\<open>str::lines\<close>: no empty last line, a carriage return before the break dropped.\<close>

definition strip_cr :: "string \<Rightarrow> string" where
  "strip_cr l = (if l \<noteq> [] \<and> last l = CHR 0x0D then butlast l else l)"

definition lines_of :: "string \<Rightarrow> string list" where
  "lines_of s = (let ws = split_char (CHR 0x0A) s;
       init = map strip_cr (butlast ws)
     in if last ws = [] then init else init @ [last ws])"

lemma split_once_append:
  "split_once s p = Some (a, b) \<Longrightarrow> s = a @ p @ b"
proof (induction s arbitrary: a)
  case Nil
  then show ?case by simp
next
  case (Cons x s)
  then show ?case
    by (auto simp: starts_with_iff simp del: append.simps split: if_splits)
qed

section \<open>UTF-8\<close>

definition is_cont :: "u8 \<Rightarrow> bool" where
  "is_cont b \<longleftrightarrow> 0x80 \<le> b \<and> b \<le> 0xBF"

text \<open>
  The well-formed sequences of the Unicode standard, table 3-7.  \<open>utf8_first bs\<close> is
  \<open>Inr n\<close> when \<open>bs\<close> starts with a well-formed sequence of \<open>n\<close> bytes, and \<open>Inl n\<close>
  when it starts with an ill-formed one whose maximal well-formed prefix, replaced
  as a whole by a lossy decoder, is \<open>n\<close> bytes long.
\<close>

definition second_ok :: "u8 \<Rightarrow> u8 \<Rightarrow> bool" where
  "second_ok a b =
     (if a = 0xE0 then 0xA0 \<le> b \<and> b \<le> 0xBF
      else if a = 0xED then 0x80 \<le> b \<and> b \<le> 0x9F
      else if a = 0xF0 then 0x90 \<le> b \<and> b \<le> 0xBF
      else if a = 0xF4 then 0x80 \<le> b \<and> b \<le> 0x8F
      else is_cont b)"

definition utf8_width :: "u8 \<Rightarrow> nat" where
  "utf8_width a =
     (if a < 0x80 then 1
      else if 0xC2 \<le> a \<and> a \<le> 0xDF then 2
      else if 0xE0 \<le> a \<and> a \<le> 0xEF then 3
      else if 0xF0 \<le> a \<and> a \<le> 0xF4 then 4
      else 0)"

definition utf8_first :: "bytes \<Rightarrow> nat + nat" where
  "utf8_first bs = (case bs of [] \<Rightarrow> Inl 1
     | a # r \<Rightarrow>
       let w = utf8_width a in
       if w = 0 then Inl 1
       else if w = 1 then Inr 1
       else (case r of [] \<Rightarrow> Inl 1
         | b # r2 \<Rightarrow>
           if \<not> second_ok a b then Inl 1
           else if w = 2 then Inr 2
           else (case r2 of [] \<Rightarrow> Inl 2
             | c # r3 \<Rightarrow>
               if \<not> is_cont c then Inl 2
               else if w = 3 then Inr 3
               else (case r3 of [] \<Rightarrow> Inl 3
                 | d # _ \<Rightarrow> if is_cont d then Inr 4 else Inl 3))))"

lemma utf8_first_pos: "utf8_first bs = Inr n \<Longrightarrow> bs \<noteq> [] \<and> 0 < n"
  by (auto simp: utf8_first_def Let_def split: list.splits if_splits)

lemma utf8_first_bad_pos: "utf8_first bs = Inl n \<Longrightarrow> 0 < n"
  by (auto simp: utf8_first_def Let_def split: list.splits if_splits)

function utf8_valid :: "bytes \<Rightarrow> bool" where
  "utf8_valid bs = (if bs = [] then True
     else (case utf8_first bs of Inl _ \<Rightarrow> False | Inr n \<Rightarrow> utf8_valid (drop n bs)))"
  by pat_completeness auto
termination
  by (relation "measure length") (auto dest: utf8_first_pos)

function utf8_lossy :: "bytes \<Rightarrow> bytes" where
  "utf8_lossy bs = (if bs = [] then []
     else (case utf8_first bs of
         Inl n \<Rightarrow> [0xEF, 0xBF, 0xBD] @ utf8_lossy (drop n bs)
       | Inr n \<Rightarrow> take n bs @ utf8_lossy (drop n bs)))"
  by pat_completeness auto
termination
  by (relation "measure length") (auto dest: utf8_first_pos utf8_first_bad_pos)

declare utf8_valid.simps [simp del] utf8_lossy.simps [simp del]

definition from_utf8_lossy :: "bytes \<Rightarrow> string" where
  "from_utf8_lossy bs = bytes_str (utf8_lossy bs)"

lemma utf8_lossy_valid: "utf8_valid bs \<Longrightarrow> utf8_lossy bs = bs"
proof (induction bs rule: utf8_valid.induct)
  case (1 bs)
  show ?case
  proof (cases "bs = []")
    case True
    then show ?thesis by (simp add: utf8_lossy.simps)
  next
    case False
    with 1(2) obtain n where n: "utf8_first bs = Inr n" and v: "utf8_valid (drop n bs)"
      by (subst (asm) utf8_valid.simps) (auto split: sum.splits)
    from 1(1) [OF False n v] n False show ?thesis
      by (subst utf8_lossy.simps) simp
  qed
qed

lemma utf8_valid_ascii: "\<forall>b \<in> set bs. b < 0x80 \<Longrightarrow> utf8_valid bs"
proof (induction bs)
  case Nil
  then show ?case by (simp add: utf8_valid.simps)
next
  case (Cons b bs)
  then show ?case
    by (subst utf8_valid.simps) (simp add: utf8_first_def utf8_width_def)
qed

section \<open>Formatting\<close>

definition digit_char :: "nat \<Rightarrow> char" where
  "digit_char d = char_of (48 + d)"

fun show_nat :: "nat \<Rightarrow> string" where
  "show_nat n = (if n < 10 then [digit_char n] else show_nat (n div 10) @ [digit_char (n mod 10)])"

declare show_nat.simps [simp del]

text \<open>\<^verbatim>\<open>{:0w}\<close>: zero padding to a width, the sign counted in and kept in front.\<close>

definition pad0 :: "nat \<Rightarrow> string \<Rightarrow> string" where
  "pad0 w s = replicate (w - length s) (CHR ''0'') @ s"

definition fmt_nat :: "nat \<Rightarrow> nat \<Rightarrow> string" where
  "fmt_nat w n = pad0 w (show_nat n)"

text \<open>\<^verbatim>\<open>{:0wx}\<close>: lower-case hexadecimal, zero padded to a width.\<close>

definition hex_char :: "nat \<Rightarrow> char" where
  "hex_char d = (if d < 10 then digit_char d else char_of (87 + d))"

fun show_hex :: "nat \<Rightarrow> string" where
  "show_hex n = (if n < 16 then [hex_char n] else show_hex (n div 16) @ [hex_char (n mod 16)])"

declare show_hex.simps [simp del]

definition fmt_hex :: "nat \<Rightarrow> nat \<Rightarrow> string" where
  "fmt_hex w n = pad0 w (show_hex n)"

definition fmt_int :: "nat \<Rightarrow> int \<Rightarrow> string" where
  "fmt_int w i = (if i < 0 then CHR ''-'' # pad0 (w - 1) (show_nat (nat (- i)))
     else pad0 w (show_nat (nat i)))"

definition fmt_int_plus :: "nat \<Rightarrow> int \<Rightarrow> string" where
  "fmt_int_plus w i = (if i < 0 then CHR ''-'' else CHR ''+'') # pad0 (w - 1) (show_nat (nat \<bar>i\<bar>))"

definition digit_val :: "char \<Rightarrow> nat" where
  "digit_val c = code c - 48"

definition parse_digits :: "string \<Rightarrow> nat" where
  "parse_digits s = foldl (\<lambda>acc c. acc * 10 + digit_val c) 0 s"

text \<open>\<^verbatim>\<open>str::parse::<usize>\<close> on text the caller knows to be decimal digits.\<close>

definition parse_usize :: "string \<Rightarrow> nat option" where
  "parse_usize s = (if s = [] \<or> \<not> list_all is_ascii_digit s then None
     else if parse_digits s < 2 ^ 64 then Some (parse_digits s) else None)"

lemma digit_chars:
  "digit_char 0 = CHR ''0''" "digit_char 1 = CHR ''1''" "digit_char 2 = CHR ''2''"
  "digit_char 3 = CHR ''3''" "digit_char 4 = CHR ''4''" "digit_char 5 = CHR ''5''"
  "digit_char 6 = CHR ''6''" "digit_char 7 = CHR ''7''" "digit_char 8 = CHR ''8''"
  "digit_char 9 = CHR ''9''"
  by code_simp+

lemma code_digit_char: "d < 10 \<Longrightarrow> code (digit_char d) = 48 + d"
  by (simp add: digit_char_def code_def)

lemma digit_val_char [simp]: "d < 10 \<Longrightarrow> digit_val (digit_char d) = d"
  by (simp add: digit_val_def code_digit_char)

lemma digit_char_val: "is_ascii_digit c \<Longrightarrow> digit_char (digit_val c) = c"
  by (simp add: digit_char_def digit_val_def is_ascii_digit_def code_def)

lemma digit_char_digit [simp]: "d < 10 \<Longrightarrow> is_ascii_digit (digit_char d)"
  by (simp add: is_ascii_digit_def code_digit_char)

lemma show_nat_nonempty [simp]: "show_nat n \<noteq> []"
  by (subst show_nat.simps) simp

lemma show_nat_digits: "list_all is_ascii_digit (show_nat n)"
proof (induction n rule: show_nat.induct)
  case (1 n)
  then show ?case by (subst show_nat.simps) simp
qed

lemma parse_digits_snoc: "parse_digits (s @ [c]) = parse_digits s * 10 + digit_val c"
  by (simp add: parse_digits_def)

lemma parse_show_nat [simp]: "parse_digits (show_nat n) = n"
proof (induction n rule: show_nat.induct)
  case (1 n)
  show ?case
  proof (cases "n < 10")
    case True
    then show ?thesis by (subst show_nat.simps) (simp add: parse_digits_def)
  next
    case False
    with 1 have "parse_digits (show_nat (n div 10)) = n div 10" by simp
    with False show ?thesis by (subst show_nat.simps) (simp add: parse_digits_snoc)
  qed
qed

lemma parse_usize_show: "n < 2 ^ 64 \<Longrightarrow> parse_usize (show_nat n) = Some n"
  by (simp add: parse_usize_def show_nat_digits)

lemma length_show_nat: "n < 10 ^ Suc k \<Longrightarrow> length (show_nat n) \<le> Suc k"
proof (induction k arbitrary: n)
  case 0
  then show ?case by (simp add: show_nat.simps)
next
  case (Suc k)
  then have "n div 10 < 10 ^ Suc k" by (simp add: less_mult_imp_div_less mult.commute)
  from Suc.IH [OF this] show ?case by (subst show_nat.simps) simp
qed

lemma show_nat_hd: "0 < n \<Longrightarrow> digit_val (hd (show_nat n)) \<noteq> 0"
proof (induction n rule: show_nat.induct)
  case (1 n)
  then show ?case by (subst show_nat.simps) (auto simp: hd_append)
qed

end
