(* ===== verification/Errors.thy ===== *)
theory Errors
  imports Rust_Std
begin

text \<open>
  The error type of \<^verbatim>\<open>src/src/error.rs\<close> and its text.  An operating-system or
  library error that the source wraps is carried by its text.
\<close>

datatype error =
    Io string
  | Protocol string
  | BufferUnderflow nat nat
  | BufferOverflow nat nat
  | InvalidLengthIndicator u8
  | InvalidPacketType u8
  | InvalidMessageType u8
  | AuthenticationFailed string
  | DataConversionError string
  | Postgres string
  | PgStatement string "u32 option"
  | SqlParse string

fun error_text :: "error \<Rightarrow> string" where
  "error_text (Io e) = ''io error: '' @ e"
| "error_text (Protocol s) = ''protocol error: '' @ s"
| "error_text (BufferUnderflow n a) =
     ''buffer underflow: needed '' @ show_nat n @ '', available '' @ show_nat a"
| "error_text (BufferOverflow n a) =
     ''buffer overflow: needed '' @ show_nat n @ '', available '' @ show_nat a"
| "error_text (InvalidLengthIndicator b) = ''invalid length indicator '' @ show_nat (unat b)"
| "error_text (InvalidPacketType b) = ''invalid packet type '' @ show_nat (unat b)"
| "error_text (InvalidMessageType b) = ''invalid message type '' @ show_nat (unat b)"
| "error_text (AuthenticationFailed s) = ''authentication failed: '' @ s"
| "error_text (DataConversionError s) = ''data conversion error: '' @ s"
| "error_text (Postgres s) = ''postgres error: '' @ s"
| "error_text (PgStatement d p) = ''postgres error: '' @ d"
| "error_text (SqlParse s) = ''sql parse error: '' @ s"

fun is_underflow :: "error \<Rightarrow> bool" where
  "is_underflow (BufferUnderflow n a) = True"
| "is_underflow _ = False"

text \<open>
  The standard library's account of ill-formed UTF-8, quoted in the errors of
  \<^verbatim>\<open>String::from_utf8\<close>.
\<close>

function utf8_error_at :: "nat \<Rightarrow> bytes \<Rightarrow> string" where
  "utf8_error_at i bs = (if bs = [] then []
     else (case utf8_first bs of
         Inr n \<Rightarrow> utf8_error_at (i + n) (drop n bs)
       | Inl n \<Rightarrow>
           if n = length bs \<and> utf8_width (hd bs) > 1
           then ''incomplete utf-8 byte sequence from index '' @ show_nat i
           else ''invalid utf-8 sequence of '' @ show_nat n @ '' bytes from index '' @ show_nat i))"
  by pat_completeness auto
termination
  by (relation "measure (\<lambda>(i, bs). length bs)") (auto dest: utf8_first_pos)

declare utf8_error_at.simps [simp del]

text \<open>\<^verbatim>\<open>String::from_utf8\<close>, its error turned into the source's by \<open>wrap\<close>.\<close>

definition from_utf8 :: "(string \<Rightarrow> error) \<Rightarrow> bytes \<Rightarrow> error + string" where
  "from_utf8 wrap bs =
     (if utf8_valid bs then Inr (bytes_str bs) else Inl (wrap (utf8_error_at 0 bs)))"

lemma from_utf8_str [simp]: "utf8_valid (str_bytes s) \<Longrightarrow> from_utf8 w (str_bytes s) = Inr s"
  by (simp add: from_utf8_def)

lemma from_utf8_Inr: "from_utf8 w bs = Inr s \<Longrightarrow> str_bytes s = bs \<and> utf8_valid bs"
  by (auto simp: from_utf8_def split: if_splits)

end
