(* ===== verification/Codec.thy ===== *)
theory Codec
  imports Errors
begin

text \<open>
  The read cursor of \<^verbatim>\<open>src/src/buffer.rs\<close> and the interfaces every field of the wire
  format is held to: a \<open>writer\<close> only appends, a \<open>codec\<close> reads back what it wrote and
  stops where it ended.  The component theories interpret \<open>codec\<close> on the source's
  pairs of functions; sequences and lists of fields are proved here, once.
\<close>

section \<open>The read cursor\<close>

record read_buffer =
  rdata :: bytes
  rpos :: nat

text \<open>
  A fallible operation on a state: its result or its error, and the state it leaves
  behind in either case.  A reader is one on the cursor.
\<close>

type_synonym ('s, 'e, 'a) step = "'s \<Rightarrow> ('e + 'a) \<times> 's"
type_synonym 'a reader = "(read_buffer, error, 'a) step"

definition ok :: "'a \<Rightarrow> ('s, 'e, 'a) step" where
  "ok a b = (Inr a, b)"

definition fail :: "'e \<Rightarrow> ('s, 'e, 'a) step" where
  "fail e b = (Inl e, b)"

text \<open>
  The \<open>?\<close> operator: \<open>let_ok r f\<close> runs \<open>r\<close>, returns its error, or goes on
  with \<open>f\<close> on its value.  The state stays where a failing step left it.
\<close>

definition on_ok :: "('a \<Rightarrow> ('s, 'e, 'b) step) \<Rightarrow> 'e + 'a \<Rightarrow> ('s, 'e, 'b) step" where
  "on_ok f r = (case r of Inl e \<Rightarrow> fail e | Inr a \<Rightarrow> f a)"

definition let_ok :: "('s, 'e, 'a) step \<Rightarrow> ('a \<Rightarrow> ('s, 'e, 'b) step) \<Rightarrow> ('s, 'e, 'b) step" where
  "let_ok r f s = (case r s of (x, s') \<Rightarrow> on_ok f x s')"

lemma let_ok_apply [simp]: "let_ok r f s = (case r s of (x, s') \<Rightarrow> on_ok f x s')"
  by (rule let_ok_def)

lemma ok_apply [simp]: "ok a b = (Inr a, b)"
  by (simp add: ok_def)

lemma fail_apply [simp]: "fail e b = (Inl e, b)"
  by (simp add: fail_def)

lemma on_ok_simps [simp]: "on_ok f (Inl e) = fail e" "on_ok f (Inr a) = f a"
  by (simp_all add: on_ok_def)

lemma then_Inr [simp]: "r b = (Inr a, b') \<Longrightarrow> (let_ok r f) b = f a b'"
  by (simp add: let_ok_apply)

lemma then_Inl [simp]: "r b = (Inl e, b') \<Longrightarrow> (let_ok r f) b = (Inl e, b')"
  by (simp add: let_ok_apply)

lemma let_ok_InrE:
  assumes "let_ok f g s = (Inr b, u)"
  obtains a t where "f s = (Inr a, t)" "g a t = (Inr b, u)"
proof (cases "f s")
  case (Pair x t)
  with assms that show ?thesis by (cases x) auto
qed

lemma let_ok_cases:
  assumes "let_ok f g s = (r, t)"
  obtains e where "f s = (Inl e, t)" "r = Inl e" | a u where "f s = (Inr a, u)" "g a u = (r, t)"
proof (cases "f s")
  case (Pair x u)
  with assms that show ?thesis by (cases x) auto
qed

lemma then_Inr_conv:
  "(let_ok r f) s = (Inr v, s') \<longleftrightarrow> (\<exists>a t. r s = (Inr a, t) \<and> f a t = (Inr v, s'))"
  "(case q of (x, t) \<Rightarrow> on_ok f x t) = (Inr v, s') \<longleftrightarrow> (\<exists>a t. q = (Inr a, t) \<and> f a t = (Inr v, s'))"
  by (cases "r s"; auto simp: let_ok_apply on_ok_def fail_def split: sum.splits)
    (cases q; auto simp: on_ok_def fail_def split: sum.splits)

text \<open>The cursor with \<open>pre\<close> behind it and \<open>rest\<close> ahead.\<close>

definition buf_at :: "bytes \<Rightarrow> bytes \<Rightarrow> read_buffer" where
  "buf_at pre rest = \<lparr>rdata = pre @ rest, rpos = length pre\<rparr>"

definition wf_buf :: "read_buffer \<Rightarrow> bool" where
  "wf_buf b \<longleftrightarrow> rpos b \<le> length (rdata b)"

lemma buf_at_cases: "wf_buf b \<Longrightarrow> b = buf_at (take (rpos b) (rdata b)) (drop (rpos b) (rdata b))"
  by (cases b) (simp add: buf_at_def wf_buf_def)

lemma wf_buf_at [simp]: "wf_buf (buf_at pre rest)"
  by (simp add: wf_buf_def buf_at_def)

text \<open>
  A reader is well behaved when it leaves the data alone, never moves the cursor back
  and never moves it past the end.
\<close>

definition forward :: "'a reader \<Rightarrow> bool" where
  "forward r \<longleftrightarrow> (\<forall>b. rdata (snd (r b)) = rdata b \<and> rpos b \<le> rpos (snd (r b)) \<and>
     (wf_buf b \<longrightarrow> wf_buf (snd (r b))))"

named_theorems forward_intros "readers that only move forward"

lemma forwardD:
  assumes "forward r" "r b = (x, b')"
  shows "rdata b' = rdata b" "rpos b \<le> rpos b'" "wf_buf b \<Longrightarrow> wf_buf b'"
  using assms by (auto simp: forward_def dest: spec [of _ b])

lemma forward_ok [forward_intros]: "forward (ok a)"
  by (simp add: forward_def)

lemma forward_fail [forward_intros]: "forward (fail e)"
  by (simp add: forward_def)

lemma forward_on_ok [forward_intros]: "(\<And>a. forward (f a)) \<Longrightarrow> forward (on_ok f r)"
  by (cases r) (simp_all add: forward_fail)

lemma forward_let_ok [forward_intros]:
  assumes r: "forward r" and f: "\<And>a. forward (f a)"
  shows "forward (let_ok r f)"
  unfolding forward_def
proof
  fix b
  obtain x b' where rb: "r b = (x, b')" by force
  obtain y b'' where fb: "on_ok f x b' = (y, b'')" by force
  from forwardD [OF r rb] forwardD [OF forward_on_ok [OF f] fb] rb fb
  show "rdata (snd (let_ok r f b)) = rdata b \<and> rpos b \<le> rpos (snd (let_ok r f b)) \<and>
      (wf_buf b \<longrightarrow> wf_buf (snd (let_ok r f b)))"
    by auto
qed

lemma forward_if [forward_intros]: "forward r \<Longrightarrow> forward s \<Longrightarrow> forward (if c then r else s)"
  by simp

section \<open>Writers and codecs\<close>

type_synonym write_buffer = bytes

text \<open>A sequence of writes.\<close>

definition emit :: "(write_buffer \<Rightarrow> write_buffer) list \<Rightarrow> write_buffer \<Rightarrow> write_buffer" where
  "emit ws b = fold (\<lambda>w. w) ws b"

lemma emit_simps [simp]:
  "emit [] b = b"
  "emit (w # ws) b = emit ws (w b)"
  "emit (ws @ vs) b = emit vs (emit ws b)"
  by (simp_all add: emit_def)

lemma emit_map_fold: "emit (map f xs) = fold f xs"
  by (induction xs) (auto simp: emit_def fun_eq_iff)

text \<open>What a writer adds does not depend on what is already there.\<close>

locale writer =
  fixes put :: "'a \<Rightarrow> write_buffer \<Rightarrow> write_buffer"
  assumes put_appends: "put v b = b @ put v []"
begin

lemma length_put: "length (put v b) = length b + length (put v [])"
  by (subst put_appends) simp

lemma take_put: "take (length b) (put v b) = b"
  by (subst put_appends) simp

lemma fold_put: "fold put vs b = b @ concat (map (\<lambda>v. put v []) vs)"
proof (induction vs arbitrary: b)
  case Nil
  then show ?case by simp
next
  case (Cons v vs)
  have "fold put vs (put v b) = put v b @ concat (map (\<lambda>v. put v []) vs)"
    by (rule Cons.IH)
  then show ?case
    by (subst (asm) (2) put_appends) simp
qed

end

text \<open>\<open>good\<close> are the values the format can carry.\<close>

locale codec = writer put for put :: "'a \<Rightarrow> write_buffer \<Rightarrow> write_buffer" +
  fixes get :: "'a reader"
    and good :: "'a \<Rightarrow> bool"
  assumes get_put: "good v \<Longrightarrow>
      get (buf_at pre (put v [] @ rest)) = (Inr v, buf_at (pre @ put v []) rest)"
begin

lemma get_put_end: "good v \<Longrightarrow> get (buf_at pre (put v [])) = (Inr v, buf_at (pre @ put v []) [])"
  using get_put [of v pre "[]"] by simp

text \<open>The format is prefix free: two encodings that start the same are the same.\<close>

lemma prefix_free:
  assumes "good v" "good w" "put v [] @ r = put w [] @ s"
  shows "v = w \<and> r = s"
proof -
  have e: "(Inr v, buf_at (put v []) r) = (Inr w, buf_at (put w []) s)"
    using get_put [OF assms(1), of "[]" r] get_put [OF assms(2), of "[]" s] assms(3) by simp
  then have vw: "v = w" by simp
  from e show ?thesis
    unfolding vw by (simp add: buf_at_def)
qed

lemma put_inj: "good v \<Longrightarrow> good w \<Longrightarrow> put v b = put w b \<Longrightarrow> v = w"
  using prefix_free [of v w "[]" "[]"] by (metis append_Nil2 put_appends same_append_eq)

fun get_n :: "nat \<Rightarrow> 'a list reader" where
  "get_n 0 = ok []"
| "get_n (Suc n) = let_ok get (\<lambda>v. let_ok (get_n n) (\<lambda>vs. ok (v # vs)))"

lemma get_n_put:
  "list_all good vs \<Longrightarrow>
     get_n (length vs) (buf_at pre (fold put vs [] @ rest))
       = (Inr vs, buf_at (pre @ fold put vs []) rest)"
proof (induction vs arbitrary: pre)
  case Nil
  then show ?case by simp
next
  case (Cons v vs)
  let ?e = "concat (map (\<lambda>v. put v []) vs)"
  have g: "get (buf_at pre (put v [] @ ?e @ rest)) = (Inr v, buf_at (pre @ put v []) (?e @ rest))"
    using Cons.prems by (intro get_put) simp
  have n: "get_n (length vs) (buf_at (pre @ put v []) (?e @ rest))
      = (Inr vs, buf_at ((pre @ put v []) @ ?e) rest)"
    using Cons.IH [of "pre @ put v []"] Cons.prems by (simp add: fold_put)
  from g n show ?case
    unfolding fold_put by simp
qed

end

text \<open>Reading two fields one after the other.\<close>

locale codec_pair = a: codec put1 get1 good1 + b: codec put2 get2 good2
  for put1 :: "'a \<Rightarrow> write_buffer \<Rightarrow> write_buffer" and get1 good1
    and put2 :: "'b \<Rightarrow> write_buffer \<Rightarrow> write_buffer" and get2 good2
begin

definition put_pair :: "'a \<times> 'b \<Rightarrow> write_buffer \<Rightarrow> write_buffer" where
  "put_pair v = emit [put1 (fst v), put2 (snd v)]"

definition get_pair :: "('a \<times> 'b) reader" where
  "get_pair = let_ok get1 (\<lambda>x. let_ok get2 (\<lambda>y. ok (x, y)))"

lemma put_pair_Nil: "put_pair v [] = put1 (fst v) [] @ put2 (snd v) []"
  unfolding put_pair_def emit_simps by (rule b.put_appends)

sublocale pair: codec put_pair get_pair "\<lambda>v. good1 (fst v) \<and> good2 (snd v)"
proof
  fix v and b :: write_buffer
  have "put_pair v b = put1 (fst v) b @ put2 (snd v) []"
    unfolding put_pair_def emit_simps by (rule b.put_appends)
  also have "put1 (fst v) b = b @ put1 (fst v) []"
    by (rule a.put_appends)
  finally show "put_pair v b = b @ put_pair v []"
    by (simp add: put_pair_Nil)
next
  fix v pre rest
  assume "good1 (fst v) \<and> good2 (snd v)"
  then show "get_pair (buf_at pre (put_pair v [] @ rest)) = (Inr v, buf_at (pre @ put_pair v []) rest)"
    by (simp add: get_pair_def put_pair_Nil a.get_put b.get_put)
qed

end

end
