(* ===== verification/Buffer.thy ===== *)
theory Buffer
  imports Codec
begin

text \<open>
  The TTC read and write buffers of \<^verbatim>\<open>src/src/buffer.rs\<close>: fixed-width integers, the
  compact length-prefixed integers \<open>ub2/ub4/ub8/sb2\<close>, and length-prefixed byte strings
  (CLR) with their chunked long form.  Every pair of functions that belongs together is
  an interpretation of \<open>codec\<close>.  A Rust index or slice out of range panics; none of the
  readers can reach one (they check the remaining length first), which \<open>forward\<close> and
  \<open>wf_buf\<close> record.
\<close>

definition MAX_SHORT_LENGTH :: u8 where "MAX_SHORT_LENGTH = 252"
definition ESCAPE_CHAR :: u8 where "ESCAPE_CHAR = 253"
definition LONG_INDICATOR :: u8 where "LONG_INDICATOR = 254"
definition NULL_INDICATOR :: u8 where "NULL_INDICATOR = 255"

lemmas clr_marks = MAX_SHORT_LENGTH_def ESCAPE_CHAR_def LONG_INDICATOR_def NULL_INDICATOR_def

section \<open>Reading\<close>

definition from_slice :: "bytes \<Rightarrow> read_buffer" where
  "from_slice d = \<lparr>rdata = d, rpos = 0\<rparr>"

definition remaining :: "read_buffer \<Rightarrow> nat" where
  "remaining b = length (rdata b) - rpos b"

definition has_remaining :: "nat \<Rightarrow> read_buffer \<Rightarrow> bool" where
  "has_remaining n b \<longleftrightarrow> n \<le> remaining b"

definition remaining_slice :: "read_buffer \<Rightarrow> bytes" where
  "remaining_slice b = drop (rpos b) (rdata b)"

definition ensure_remaining :: "nat \<Rightarrow> unit reader" where
  "ensure_remaining n b =
     (if remaining b < n then (Inl (BufferUnderflow n (remaining b)), b) else (Inr (), b))"

definition advance :: "nat \<Rightarrow> read_buffer \<Rightarrow> read_buffer" where
  "advance n b = b\<lparr>rpos := rpos b + n\<rparr>"

text \<open>
  \<open>take_n n f\<close>: check that \<open>n\<close> bytes remain, hand them to \<open>f\<close>, move past them.  This is
  the shape of every fixed-width read of the source.
\<close>

definition take_n :: "nat \<Rightarrow> (bytes \<Rightarrow> 'a) \<Rightarrow> 'a reader" where
  "take_n n f = let_ok (ensure_remaining n) (\<lambda>_ b.
     (Inr (f (take n (drop (rpos b) (rdata b)))), advance n b))"

definition skip :: "nat \<Rightarrow> unit reader" where
  "skip n = let_ok (ensure_remaining n) (\<lambda>_ b. (Inr (), advance n b))"

definition read_u8 :: "u8 reader" where
  "read_u8 = let_ok (ensure_remaining 1) (\<lambda>_ b. (Inr (rdata b ! rpos b), advance 1 b))"

definition peek_u8 :: "u8 reader" where
  "peek_u8 = let_ok (ensure_remaining 1) (\<lambda>_ b. (Inr (rdata b ! rpos b), b))"

definition read_u16_be :: "u16 reader" where
  "read_u16_be = take_n 2 from_be"

text \<open>A signed read yields the same word; its value is the \<open>sint\<close> of it.\<close>

definition read_i16_be :: "u16 reader" where
  "read_i16_be = take_n 2 from_be"

definition read_u16_le :: "u16 reader" where
  "read_u16_le = take_n 2 from_le"

definition read_u32_be :: "u32 reader" where
  "read_u32_be = take_n 4 from_be"

definition read_u64_be :: "u64 reader" where
  "read_u64_be = take_n 8 from_be"

definition read_bytes_vec :: "nat \<Rightarrow> bytes reader" where
  "read_bytes_vec n = take_n n (\<lambda>bs. bs)"

definition read_ub_length :: "u8 reader" where
  "read_ub_length = let_ok read_u8 (\<lambda>v. ok (v AND 0x7f))"

definition read_ub1 :: "u8 reader" where
  "read_ub1 = read_u8"

definition read_ub2 :: "u16 reader" where
  "read_ub2 = let_ok read_ub_length (\<lambda>n.
     if n = 0 then ok 0
     else if n = 1 then let_ok read_u8 (\<lambda>v. ok (ucast v))
     else if n = 2 then read_u16_be
     else fail (InvalidLengthIndicator n))"

definition read_sb2 :: "u16 reader" where
  "read_sb2 = let_ok read_ub_length (\<lambda>n.
     if n = 0 then ok 0
     else if n = 1 then let_ok read_u8 (\<lambda>v. ok (scast v))
     else if n = 2 then read_i16_be
     else fail (InvalidLengthIndicator n))"

definition be24 :: "bytes \<Rightarrow> 'a::len word" where
  "be24 b = push_bit 16 (ucast (b ! 0)) OR push_bit 8 (ucast (b ! 1)) OR ucast (b ! 2)"

definition read_ub4 :: "u32 reader" where
  "read_ub4 = let_ok read_ub_length (\<lambda>n.
     if n = 0 then ok 0
     else if n = 1 then let_ok read_u8 (\<lambda>v. ok (ucast v))
     else if n = 2 then let_ok read_u16_be (\<lambda>v. ok (ucast v))
     else if n = 3 then let_ok (read_bytes_vec 3) (\<lambda>b. ok (be24 b))
     else if n = 4 then read_u32_be
     else fail (InvalidLengthIndicator n))"

text \<open>
  The five-to-seven byte form reads a second length byte before the value bytes, as the
  source does.
\<close>

definition read_ub8 :: "u64 reader" where
  "read_ub8 = let_ok read_ub_length (\<lambda>n.
     if n = 0 then ok 0
     else if n = 1 then let_ok read_u8 (\<lambda>v. ok (ucast v))
     else if n = 2 then let_ok read_u16_be (\<lambda>v. ok (ucast v))
     else if n = 3 then let_ok (read_bytes_vec 3) (\<lambda>b. ok (be24 b))
     else if n = 4 then let_ok read_u32_be (\<lambda>v. ok (ucast v))
     else if 5 \<le> n \<and> n \<le> 7 then
       let_ok read_ub_length (\<lambda>len. let_ok (read_bytes_vec (unat len)) (\<lambda>b.
         ok (foldl (\<lambda>v x. push_bit 8 v OR ucast x) 0 b)))
     else if n = 8 then read_u64_be
     else fail (InvalidLengthIndicator n))"

section \<open>What each read does\<close>

lemma remaining_buf_at [simp]: "remaining (buf_at pre rest) = length rest"
  by (simp add: remaining_def buf_at_def)

lemma remaining_slice_buf_at [simp]: "remaining_slice (buf_at pre rest) = rest"
  by (simp add: remaining_slice_def buf_at_def)

lemma rpos_buf_at [simp]: "rpos (buf_at pre rest) = length pre"
  by (simp add: buf_at_def)

lemma from_slice_buf_at: "from_slice d = buf_at [] d"
  by (simp add: from_slice_def buf_at_def)

lemma ensure_remaining_buf_at [simp]:
  "ensure_remaining n (buf_at pre rest) =
     (if length rest < n then (Inl (BufferUnderflow n (length rest)), buf_at pre rest)
      else (Inr (), buf_at pre rest))"
  by (simp add: ensure_remaining_def)

lemma advance_buf_at [simp]: "advance (length xs) (buf_at pre (xs @ rest)) = buf_at (pre @ xs) rest"
  by (simp add: advance_def buf_at_def)

lemma take_n_buf_at [read_simps]:
  assumes "n = length xs"
  shows "take_n n f (buf_at pre (xs @ rest)) = (Inr (f xs), buf_at (pre @ xs) rest)"
proof -
  have "take n (drop (rpos (buf_at pre (xs @ rest))) (rdata (buf_at pre (xs @ rest)))) = xs"
    by (simp add: buf_at_def assms)
  then show ?thesis
    by (simp add: take_n_def let_ok_apply assms)
qed

lemma take_n_short:
  "length rest < n \<Longrightarrow>
     take_n n f (buf_at pre rest) = (Inl (BufferUnderflow n (length rest)), buf_at pre rest)"
  by (simp add: take_n_def let_ok_apply)

lemma read_u8_Cons [read_simps]:
  "read_u8 (buf_at pre (x # rest)) = (Inr x, buf_at (pre @ [x]) rest)"
proof -
  have "rdata (buf_at pre (x # rest)) ! rpos (buf_at pre (x # rest)) = x"
    by (simp add: buf_at_def)
  moreover have "advance 1 (buf_at pre (x # rest)) = buf_at (pre @ [x]) rest"
    using advance_buf_at [of "[x]" pre rest] by simp
  ultimately show ?thesis
    by (simp add: read_u8_def let_ok_apply)
qed

lemma read_u8_Nil [read_simps]:
  "read_u8 (buf_at pre []) = (Inl (BufferUnderflow 1 0), buf_at pre [])"
  by (simp add: read_u8_def let_ok_apply)

lemma skip_buf_at [read_simps]:
  "n = length xs \<Longrightarrow> skip n (buf_at pre (xs @ rest)) = (Inr (), buf_at (pre @ xs) rest)"
  by (simp add: skip_def let_ok_apply)

lemma read_fixed_buf_at [read_simps]:
  "read_u16_be (buf_at pre (be16 v @ rest)) = (Inr v, buf_at (pre @ be16 v) rest)"
  "read_i16_be (buf_at pre (be16 v @ rest)) = (Inr v, buf_at (pre @ be16 v) rest)"
  "read_u16_le (buf_at pre (le16 v @ rest)) = (Inr v, buf_at (pre @ le16 v) rest)"
  "read_u32_be (buf_at pre (be32 w @ rest)) = (Inr w, buf_at (pre @ be32 w) rest)"
  "read_u64_be (buf_at pre (be64 x @ rest)) = (Inr x, buf_at (pre @ be64 x) rest)"
  by (simp_all add: read_u16_be_def read_i16_be_def read_u16_le_def read_u32_be_def
      read_u64_be_def take_n_buf_at)

lemma read_bytes_vec_buf_at [read_simps]:
  "n = length xs \<Longrightarrow>
     read_bytes_vec n (buf_at pre (xs @ rest)) = (Inr xs, buf_at (pre @ xs) rest)"
  by (simp add: read_bytes_vec_def take_n_buf_at)

lemma read_ub_length_Cons [read_simps]:
  "read_ub_length (buf_at pre (x # rest)) = (Inr (x AND 0x7f), buf_at (pre @ [x]) rest)"
  by (simp add: read_ub_length_def read_u8_Cons)

subsection \<open>Readers only move forward\<close>

lemma forward_take_n [forward_intros]: "forward (take_n n f)"
  by (auto simp: forward_def take_n_def let_ok_apply ensure_remaining_def remaining_def
      advance_def wf_buf_def)

lemma forward_skip [forward_intros]: "forward (skip n)"
  by (auto simp: forward_def skip_def let_ok_apply ensure_remaining_def remaining_def
      advance_def wf_buf_def)

lemma forward_read_u8 [forward_intros]: "forward read_u8"
  by (auto simp: forward_def read_u8_def let_ok_apply ensure_remaining_def remaining_def
      advance_def wf_buf_def)

lemma forward_reads [forward_intros]:
  "forward read_u16_be" "forward read_i16_be" "forward read_u16_le" "forward read_u32_be"
  "forward read_u64_be" "forward (read_bytes_vec n)"
  by (simp_all add: read_u16_be_def read_i16_be_def read_u16_le_def read_u32_be_def
      read_u64_be_def read_bytes_vec_def forward_take_n)

lemma forward_ub [forward_intros]:
  "forward read_ub_length" "forward read_ub2" "forward read_sb2" "forward read_ub4"
  "forward read_ub8"
  unfolding read_ub_length_def read_ub2_def read_sb2_def read_ub4_def read_ub8_def
  by (intro forward_intros)+

lemma read_u8_consumes: "read_u8 b = (Inr v, b') \<Longrightarrow> remaining b' < remaining b"
  by (auto simp: read_u8_def let_ok_apply ensure_remaining_def remaining_def advance_def
      split: if_splits)

lemma forward_remaining: "forward r \<Longrightarrow> r b = (x, b') \<Longrightarrow> remaining b' \<le> remaining b"
  using forwardD [of r b x b'] by (simp add: remaining_def)

text \<open>A successful compact read takes at least its length byte.\<close>

lemma read_ub4_consumes:
  assumes "read_ub4 b = (Inr v, b')"
  shows "remaining b' < remaining b"
proof -
  obtain n c where n: "read_ub_length b = (n, c)" by force
  from n assms have u: "\<exists>w. read_u8 b = (Inr w, c)"
    by (cases "read_u8 b"; cases "fst (read_u8 b)")
      (auto simp: read_ub_length_def read_ub4_def let_ok_apply on_ok_def split: sum.splits prod.splits)
  then have less: "remaining c < remaining b"
    by (auto dest: read_u8_consumes)
  let ?k = "on_ok (\<lambda>n. if n = 0 then ok 0
     else if n = 1 then let_ok read_u8 (\<lambda>v. ok (ucast v))
     else if n = 2 then let_ok read_u16_be (\<lambda>v. ok (ucast v))
     else if n = 3 then let_ok (read_bytes_vec 3) (\<lambda>b. ok (be24 b))
     else if n = 4 then read_u32_be
     else fail (InvalidLengthIndicator n)) n"
  have "forward ?k"
    by (intro forward_intros)
  moreover have "?k c = (Inr v, b')"
    using assms n by (simp add: read_ub4_def let_ok_apply)
  ultimately have "remaining b' \<le> remaining c"
    by (rule forward_remaining)
  with less show ?thesis by simp
qed

section \<open>Length-prefixed strings\<close>

lemma read_bytes_vec_shrinks: "read_bytes_vec n b = (x, b') \<Longrightarrow> remaining b' \<le> remaining b"
  by (rule forward_remaining [OF forward_reads(6)])

text \<open>The loop over the chunks of a long value, with four-byte-class lengths.\<close>

function read_chunks :: "bytes \<Rightarrow> bytes reader" where
  "read_chunks acc b = (case read_ub4 b of
       (Inl e, b1) \<Rightarrow> (Inl e, b1)
     | (Inr n, b1) \<Rightarrow>
         if n = 0 then (Inr acc, b1)
         else (case read_bytes_vec (unat n) b1 of
             (Inl e, b2) \<Rightarrow> (Inl e, b2)
           | (Inr chunk, b2) \<Rightarrow> read_chunks (acc @ chunk) b2))"
  by pat_completeness auto
termination
  by (relation "measure (\<lambda>(acc, b). remaining b)")
    (auto dest!: read_ub4_consumes [OF sym] read_bytes_vec_shrinks [OF sym])

function read_chunks_1b :: "bytes \<Rightarrow> bytes reader" where
  "read_chunks_1b acc b = (case read_u8 b of
       (Inl e, b1) \<Rightarrow> (Inl e, b1)
     | (Inr n, b1) \<Rightarrow>
         if n = 0 then (Inr acc, b1)
         else (case read_bytes_vec (unat n) b1 of
             (Inl e, b2) \<Rightarrow> (Inl e, b2)
           | (Inr chunk, b2) \<Rightarrow> read_chunks_1b (acc @ chunk) b2))"
  by pat_completeness auto
termination
  by (relation "measure (\<lambda>(acc, b). remaining b)")
    (auto dest!: read_u8_consumes [OF sym] read_bytes_vec_shrinks [OF sym])

declare read_chunks.simps [simp del] read_chunks_1b.simps [simp del]

text \<open>The part after the length byte that both long forms share.\<close>

definition read_short_clr :: "u8 \<Rightarrow> bytes option reader" where
  "read_short_clr len =
     let_ok (if len = ESCAPE_CHAR then let_ok read_u8 (\<lambda>n. ok (unat n)) else ok (unat len)) (\<lambda>actual_len.
       if actual_len = 0 then ok (Some [])
       else let_ok (read_bytes_vec actual_len) (\<lambda>bs. ok (Some bs)))"

definition read_bytes_with_length :: "bytes option reader" where
  "read_bytes_with_length = let_ok read_u8 (\<lambda>len.
     if len = NULL_INDICATOR then ok None
     else if len = LONG_INDICATOR then let_ok (read_chunks []) (\<lambda>r. ok (Some r))
     else read_short_clr len)"

definition read_bytes_with_length_1b_chunks :: "bytes option reader" where
  "read_bytes_with_length_1b_chunks = let_ok read_u8 (\<lambda>len.
     if len = NULL_INDICATOR then ok None
     else if len = LONG_INDICATOR then let_ok (read_chunks_1b []) (\<lambda>r. ok (Some r))
     else read_short_clr len)"

definition read_string_with_length :: "string option reader" where
  "read_string_with_length = let_ok read_bytes_with_length (\<lambda>r. case r of
       None \<Rightarrow> ok None
     | Some bs \<Rightarrow> (case from_utf8 DataConversionError bs of
         Inl e \<Rightarrow> fail e | Inr s \<Rightarrow> ok (Some s)))"

definition read_string_with_ub4_length :: "string option reader" where
  "read_string_with_ub4_length = let_ok read_ub4 (\<lambda>outer.
     if outer = 0 then ok None else read_string_with_length)"

section \<open>Writing\<close>

definition write_u8 :: "u8 \<Rightarrow> write_buffer \<Rightarrow> write_buffer" where
  "write_u8 v b = b @ [v]"

definition write_bytes :: "bytes \<Rightarrow> write_buffer \<Rightarrow> write_buffer" where
  "write_bytes bs b = b @ bs"

definition write_zeros :: "nat \<Rightarrow> write_buffer \<Rightarrow> write_buffer" where
  "write_zeros n = write_u8 0 ^^ n"

definition write_u16_be :: "u16 \<Rightarrow> write_buffer \<Rightarrow> write_buffer" where
  "write_u16_be v b = b @ be16 v"

definition write_u16_le :: "u16 \<Rightarrow> write_buffer \<Rightarrow> write_buffer" where
  "write_u16_le v b = b @ le16 v"

definition write_i16_be :: "u16 \<Rightarrow> write_buffer \<Rightarrow> write_buffer" where
  "write_i16_be v b = b @ be16 v"

definition write_u32_be :: "u32 \<Rightarrow> write_buffer \<Rightarrow> write_buffer" where
  "write_u32_be v b = b @ be32 v"

definition write_u32_le :: "u32 \<Rightarrow> write_buffer \<Rightarrow> write_buffer" where
  "write_u32_le v b = b @ le32 v"

definition write_u64_be :: "u64 \<Rightarrow> write_buffer \<Rightarrow> write_buffer" where
  "write_u64_be v b = b @ be64 v"

definition write_ub1 :: "u8 \<Rightarrow> write_buffer \<Rightarrow> write_buffer" where
  "write_ub1 = write_u8"

definition write_ub2 :: "u16 \<Rightarrow> write_buffer \<Rightarrow> write_buffer" where
  "write_ub2 v =
     (if v = 0 then write_u8 0
      else if v \<le> 255 then emit [write_u8 1, write_u8 (ucast v)]
      else emit [write_u8 2, write_u16_be v])"

definition write_sb2 :: "u16 \<Rightarrow> write_buffer \<Rightarrow> write_buffer" where
  "write_sb2 v =
     (if v = 0 then write_u8 0
      else if 0 < sint v \<and> sint v \<le> 127 then emit [write_u8 1, write_u8 (ucast v)]
      else if -127 \<le> sint v \<and> sint v < 0 then emit [write_u8 (1 OR 0x80), write_u8 (ucast (- v))]
      else emit [write_u8 (2 OR 0x80), write_i16_be v])"

definition write_sb1 :: "u8 \<Rightarrow> write_buffer \<Rightarrow> write_buffer" where
  "write_sb1 v = write_sb2 (scast v)"

definition write_ub4 :: "u32 \<Rightarrow> write_buffer \<Rightarrow> write_buffer" where
  "write_ub4 v =
     (if v = 0 then write_u8 0
      else if v \<le> 255 then emit [write_u8 1, write_u8 (ucast v)]
      else if v \<le> 65535 then emit [write_u8 2, write_u16_be (ucast v)]
      else emit [write_u8 4, write_u32_be v])"

definition write_ub8 :: "u64 \<Rightarrow> write_buffer \<Rightarrow> write_buffer" where
  "write_ub8 v =
     (if v = 0 then write_u8 0
      else if v \<le> 255 then emit [write_u8 1, write_u8 (ucast v)]
      else if v \<le> 65535 then emit [write_u8 2, write_u16_be (ucast v)]
      else if v \<le> 4294967295 then emit [write_u8 4, write_u32_be (ucast v)]
      else emit [write_u8 8, write_u64_be v])"

definition CHUNK_SIZE :: nat where "CHUNK_SIZE = 32767"

text \<open>The loop over \<open>offset\<close> that writes a long value in chunks.\<close>

function write_chunks :: "bytes \<Rightarrow> nat \<Rightarrow> write_buffer \<Rightarrow> write_buffer" where
  "write_chunks d offset b =
     (if offset < length d
      then let chunk_len = min (length d - offset) CHUNK_SIZE in
        write_chunks d (offset + chunk_len)
          (write_bytes (take chunk_len (drop offset d)) (write_ub4 (word_of_nat chunk_len) b))
      else b)"
  by pat_completeness auto
termination
  by (relation "measure (\<lambda>(d, offset, b). length d - offset)") (auto simp: CHUNK_SIZE_def)

declare write_chunks.simps [simp del]

definition write_bytes_with_length :: "bytes option \<Rightarrow> write_buffer \<Rightarrow> write_buffer" where
  "write_bytes_with_length v = (case v of
       None \<Rightarrow> write_u8 NULL_INDICATOR
     | Some d \<Rightarrow>
         if d = [] then write_u8 0
         else if length d \<le> unat MAX_SHORT_LENGTH
         then emit [write_u8 (word_of_nat (length d)), write_bytes d]
         else emit [write_u8 LONG_INDICATOR, write_chunks d 0, write_ub4 0])"

definition write_string_with_length :: "string option \<Rightarrow> write_buffer \<Rightarrow> write_buffer" where
  "write_string_with_length s = write_bytes_with_length (map_option str_bytes s)"

text \<open>The patches index the buffer: out of range they panic, \<open>None\<close> here.\<close>

definition patch_at :: "nat \<Rightarrow> bytes \<Rightarrow> write_buffer \<Rightarrow> write_buffer option" where
  "patch_at pos bs b =
     (if pos + length bs \<le> length b
      then Some (take pos b @ bs @ drop (pos + length bs) b) else None)"

definition patch_u16_be :: "nat \<Rightarrow> u16 \<Rightarrow> write_buffer \<Rightarrow> write_buffer option" where
  "patch_u16_be pos v = patch_at pos (be16 v)"

definition patch_u32_be :: "nat \<Rightarrow> u32 \<Rightarrow> write_buffer \<Rightarrow> write_buffer option" where
  "patch_u32_be pos v = patch_at pos (be32 v)"

definition truncate :: "nat \<Rightarrow> write_buffer \<Rightarrow> write_buffer" where
  "truncate n b = take n b"

subsection \<open>Writers append\<close>

lemma write_prims [appends]:
  "write_u8 x b = b @ [x]" "write_bytes bs b = b @ bs" "write_u16_be v b = b @ be16 v"
  "write_u16_le v b = b @ le16 v" "write_i16_be v b = b @ be16 v" "write_u32_be w b = b @ be32 w"
  "write_u32_le w b = b @ le32 w" "write_u64_be y b = b @ be64 y" "write_ub1 x b = b @ [x]"
  by (simp_all add: write_u8_def write_bytes_def write_u16_be_def write_u16_le_def
      write_i16_be_def write_u32_be_def write_u32_le_def write_u64_be_def write_ub1_def)

lemma write_zeros_eq [appends]: "write_zeros n b = b @ replicate n 0"
  by (induction n) (simp_all add: write_zeros_def write_u8_def replicate_append_same)

lemma write_ub2_app: "write_ub2 v b = b @ write_ub2 v []"
  by (simp add: write_ub2_def appends)

lemma write_sb2_app: "write_sb2 v b = b @ write_sb2 v []"
  by (simp add: write_sb2_def appends)

lemma write_sb1_app: "write_sb1 v b = b @ write_sb1 v []"
  unfolding write_sb1_def by (rule write_sb2_app)

lemma write_ub4_app: "write_ub4 w b = b @ write_ub4 w []"
  by (simp add: write_ub4_def appends)

lemma write_ub8_app: "write_ub8 y b = b @ write_ub8 y []"
  by (simp add: write_ub8_def appends)

lemma write_chunks_step:
  "off < length d \<Longrightarrow> write_chunks d off b =
     write_chunks d (off + min (length d - off) CHUNK_SIZE)
       (write_ub4 (word_of_nat (min (length d - off) CHUNK_SIZE)) b
         @ take CHUNK_SIZE (drop off d))"
  by (subst write_chunks.simps) (simp add: Let_def write_bytes_def min_def)

lemma write_chunks_end: "length d \<le> off \<Longrightarrow> write_chunks d off b = b"
  by (simp add: write_chunks.simps)

lemma write_chunks_app: "write_chunks d off b = b @ write_chunks d off []"
proof (induction "length d - off" arbitrary: off b rule: less_induct)
  case less
  let ?n = "min (length d - off) CHUNK_SIZE"
  let ?c = "\<lambda>b. write_ub4 (word_of_nat ?n) b @ take CHUNK_SIZE (drop off d)"
  show ?case
  proof (cases "off < length d")
    case True
    then have "length d - (off + ?n) < length d - off" by (simp add: CHUNK_SIZE_def)
    from less [OF this] have ih: "write_chunks d (off + ?n) c = c @ write_chunks d (off + ?n) []" for c .
    have "write_chunks d off b = ?c b @ write_chunks d (off + ?n) []"
      unfolding write_chunks_step [OF True] by (rule ih)
    also have "?c b = b @ ?c []"
      by (subst write_ub4_app) simp
    also have "(b @ ?c []) @ write_chunks d (off + ?n) [] = b @ write_chunks d off []"
      unfolding write_chunks_step [OF True, of "[]"] by (simp only: ih [of "?c []"] append_assoc)
    finally show ?thesis .
  qed (simp add: write_chunks_end)
qed

lemma write_bytes_with_length_app:
  "write_bytes_with_length v b = b @ write_bytes_with_length v []"
proof (cases v)
  case None
  then show ?thesis by (simp add: write_bytes_with_length_def appends)
next
  case (Some d)
  have "write_ub4 0 (write_chunks d 0 (b @ [LONG_INDICATOR]))
      = b @ write_ub4 0 (write_chunks d 0 [LONG_INDICATOR])"
    using write_chunks_app [of d 0 "b @ [LONG_INDICATOR]"] write_chunks_app [of d 0 "[LONG_INDICATOR]"]
    by (simp add: write_ub4_def appends)
  with Some show ?thesis by (simp add: write_bytes_with_length_def appends)
qed

lemma write_string_with_length_app:
  "write_string_with_length v b = b @ write_string_with_length v []"
  unfolding write_string_with_length_def by (rule write_bytes_with_length_app)

text \<open>Used as rewrite rules, these move every write out to the right of what is there.\<close>

lemma write_outs [appends]:
  "b \<noteq> [] \<Longrightarrow> write_ub2 v b = b @ write_ub2 v []"
  "b \<noteq> [] \<Longrightarrow> write_sb2 v b = b @ write_sb2 v []"
  "b \<noteq> [] \<Longrightarrow> write_sb1 x b = b @ write_sb1 x []"
  "b \<noteq> [] \<Longrightarrow> write_ub4 w b = b @ write_ub4 w []"
  "b \<noteq> [] \<Longrightarrow> write_ub8 y b = b @ write_ub8 y []"
  "b \<noteq> [] \<Longrightarrow> write_bytes_with_length c b = b @ write_bytes_with_length c []"
  "b \<noteq> [] \<Longrightarrow> write_string_with_length s b = b @ write_string_with_length s []"
  by (rule write_ub2_app write_sb2_app write_sb1_app write_ub4_app write_ub8_app
      write_bytes_with_length_app write_string_with_length_app)+

section \<open>Round trips\<close>

interpretation u8: codec write_u8 read_u8 "\<lambda>_. True"
  by unfold_locales (simp_all add: write_u8_def read_simps)

interpretation u16: codec write_u16_be read_u16_be "\<lambda>_. True"
  by unfold_locales (simp_all add: appends read_simps)

interpretation u32: codec write_u32_be read_u32_be "\<lambda>_. True"
  by unfold_locales (simp_all add: appends read_simps)

interpretation u64: codec write_u64_be read_u64_be "\<lambda>_. True"
  by unfold_locales (simp_all add: appends read_simps)

lemma word_le_unat: "(v :: 'a::len word) \<le> w \<longleftrightarrow> unat v \<le> unat w"
  by (rule word_le_nat_alt)

lemma short_u16: "(v :: u16) \<le> 255 \<Longrightarrow> ucast (ucast v :: u8) = v"
  by (rule ucast_short8) (simp add: word_le_nat_alt)

lemma short_u32:
  "(w :: u32) \<le> 255 \<Longrightarrow> ucast (ucast w :: u8) = w"
  by (rule ucast_short8) (simp add: word_le_nat_alt)

lemma short_u64:
  "(w :: u64) \<le> 255 \<Longrightarrow> ucast (ucast w :: u8) = w"
  by (rule ucast_short8) (simp add: word_le_nat_alt)

lemma medium_word:
  fixes v :: "'a::len word"
  shows "unat v < 2 ^ 16 \<Longrightarrow> ucast (ucast v :: u16) = v"
    "unat v < 2 ^ 32 \<Longrightarrow> ucast (ucast v :: u32) = v"
  using from_be_short [of v] by (simp_all add: from_be_def nat_of_be16 nat_of_be32)

lemma medium_u32: "(w :: u32) \<le> 65535 \<Longrightarrow> ucast (ucast w :: u16) = w"
  by (rule medium_word) (simp add: word_le_nat_alt)

lemma medium_u64:
  "(x :: u64) \<le> 65535 \<Longrightarrow> ucast (ucast x :: u16) = x"
  "(x :: u64) \<le> 4294967295 \<Longrightarrow> ucast (ucast x :: u32) = x"
  by (rule medium_word, simp add: word_le_nat_alt)+

interpretation ub2: codec write_ub2 read_ub2 "\<lambda>_. True"
proof
  show "write_ub2 v b = b @ write_ub2 v []" for v b by (rule write_ub2_app)
  show "read_ub2 (buf_at pre (write_ub2 v [] @ rest)) = (Inr v, buf_at (pre @ write_ub2 v []) rest)"
    for v pre rest
    by (simp add: write_ub2_def appends read_ub2_def read_simps short_u16)
qed

interpretation ub4: codec write_ub4 read_ub4 "\<lambda>_. True"
proof
  show "write_ub4 v b = b @ write_ub4 v []" for v b by (rule write_ub4_app)
  show "read_ub4 (buf_at pre (write_ub4 v [] @ rest)) = (Inr v, buf_at (pre @ write_ub4 v []) rest)"
    for v pre rest
    by (simp add: write_ub4_def appends read_ub4_def read_simps short_u32 medium_u32)
qed

interpretation ub8: codec write_ub8 read_ub8 "\<lambda>_. True"
proof
  show "write_ub8 v b = b @ write_ub8 v []" for v b by (rule write_ub8_app)
  show "read_ub8 (buf_at pre (write_ub8 v [] @ rest)) = (Inr v, buf_at (pre @ write_ub8 v []) rest)"
    for v pre rest
    by (simp add: write_ub8_def appends read_ub8_def read_simps short_u64 medium_u64)
qed

text \<open>
  The signed short form: a negative value down to $-127$ is written as its magnitude
  with a sign flag in the length byte, which the reader masks away.
\<close>

definition sb2_faithful :: "u16 \<Rightarrow> bool" where
  "sb2_faithful v \<longleftrightarrow> \<not> (-127 \<le> sint v \<and> sint v < 0)"

lemma scast_ucast_small:
  fixes v :: u16
  assumes "-128 \<le> sint v" "sint v \<le> 127"
  shows "scast (ucast v :: u8) = v"
proof -
  have "sint (ucast v :: u8) = signed_take_bit 7 (sint v)"
    by (simp add: sint_uint signed_take_bit_take_bit unsigned_ucast_eq)
  also have "signed_take_bit 7 (sint v) = sint v"
    using assms by (intro signed_take_bit_int_eq_self) simp_all
  finally have "sint (ucast v :: u8) = sint v" .
  then show ?thesis by (metis of_int_sint scast_id)
qed

lemma sint_minus_small:
  fixes v :: u16
  assumes "-127 \<le> sint v" "sint v < 0"
  shows "sint (- v) = - sint v"
proof -
  have "sint (- v) = signed_take_bit 15 (- sint v)"
    by (simp add: sint_word_ariths)
  also have "\<dots> = - sint v"
    using assms by (intro signed_take_bit_int_eq_self) simp_all
  finally show ?thesis .
qed

lemma read_sb2_write:
  "read_sb2 (buf_at pre (write_sb2 v [] @ rest))
     = (Inr (if sb2_faithful v then v else - v), buf_at (pre @ write_sb2 v []) rest)"
proof -
  have "scast (ucast (- v) :: u8) = - v" if "-127 \<le> sint v" "sint v < 0"
    using that sint_minus_small [OF that] by (intro scast_ucast_small) simp_all
  moreover have "scast (ucast v :: u8) = v" if "0 < sint v" "sint v \<le> 127"
    using that by (intro scast_ucast_small) simp_all
  ultimately show ?thesis
    by (auto simp: write_sb2_def sb2_faithful_def appends read_sb2_def read_simps)
qed

interpretation sb2: codec write_sb2 read_sb2 sb2_faithful
  by unfold_locales (rule write_sb2_app, simp add: read_sb2_write)

lemma read_chunks_write:
  "read_chunks acc (buf_at pre (write_ub4 0 (write_chunks d off []) @ rest))
     = (Inr (acc @ drop off d), buf_at (pre @ write_ub4 0 (write_chunks d off [])) rest)"
proof (induction "length d - off" arbitrary: off acc pre rule: less_induct)
  case less
  let ?n = "min (length d - off) CHUNK_SIZE"
  let ?t = "take CHUNK_SIZE (drop off d)"
  show ?case
  proof (cases "off < length d")
    case False
    then show ?thesis
      using ub4.get_put [where v = 0 and pre = pre and rest = rest]
      by (subst read_chunks.simps) (simp add: write_chunks_end)
  next
    case True
    then have "length d - (off + ?n) < length d - off" by (simp add: CHUNK_SIZE_def)
    note ih = less [OF this]
    let ?tail = "write_ub4 0 (write_chunks d (off + ?n) [])"
    have w: "write_ub4 0 (write_chunks d off []) = write_ub4 (word_of_nat ?n) [] @ ?t @ ?tail"
      unfolding write_chunks_step [OF True, of "[]"]
      by (metis append_assoc write_chunks_app write_ub4_app)
    have n: "0 < ?n" "?n < 2 ^ 16" using True by (auto simp: CHUNK_SIZE_def)
    then have u: "unat (word_of_nat ?n :: u32) = ?n"
      by (simp add: unat_of_nat take_bit_nat_eq_self)
    with n have nz: "(word_of_nat ?n :: u32) \<noteq> 0" by (metis not_less_zero unat_0)
    have r1: "read_ub4 (buf_at pre (write_ub4 (word_of_nat ?n) [] @ ?t @ ?tail @ rest))
        = (Inr (word_of_nat ?n), buf_at (pre @ write_ub4 (word_of_nat ?n) []) (?t @ ?tail @ rest))"
      by (rule ub4.get_put) simp
    have r2: "read_bytes_vec ?n (buf_at p (?t @ ?tail @ rest)) = (Inr ?t, buf_at (p @ ?t) (?tail @ rest))" for p
      by (rule read_bytes_vec_buf_at) simp
    have d: "drop off d = ?t @ drop (off + ?n) d"
      by (cases "length d - off \<le> CHUNK_SIZE")
        (simp_all add: min_def add.commute flip: drop_drop)
    show ?thesis
      unfolding w append_assoc
      by (subst read_chunks.simps) (simp only: r1 prod.case sum.case u r2 nz if_False ih append_assoc flip: d)
  qed
qed

lemma read_clr_write:
  "read_bytes_with_length (buf_at pre (write_bytes_with_length v [] @ rest))
     = (Inr v, buf_at (pre @ write_bytes_with_length v []) rest)"
proof (cases v)
  case None
  then show ?thesis
    by (simp add: write_bytes_with_length_def read_bytes_with_length_def appends read_simps)
next
  case (Some d)
  consider "d = []" | "d \<noteq> []" "length d \<le> unat MAX_SHORT_LENGTH" | "unat MAX_SHORT_LENGTH < length d"
    by linarith
  then show ?thesis
  proof cases
    case 1
    with Some show ?thesis
      by (simp add: write_bytes_with_length_def read_bytes_with_length_def read_short_clr_def
          clr_marks appends read_simps)
  next
    case 2
    then have n: "length d \<le> 252" "length d \<noteq> 0" by (simp_all add: clr_marks)
    then have u: "unat (word_of_nat (length d) :: u8) = length d"
      by (simp add: unat_of_nat take_bit_nat_eq_self)
    have ne: "(word_of_nat (length d) :: u8) \<noteq> k" if "252 < unat k" for k
      using that u n by auto
    with 2 Some u n show ?thesis
      by (simp add: write_bytes_with_length_def read_bytes_with_length_def read_short_clr_def
          clr_marks appends read_simps)
  next
    case 3
    then have d: "d \<noteq> []" by auto
    let ?body = "write_ub4 0 (write_chunks d 0 [])"
    have w: "write_bytes_with_length v [] = LONG_INDICATOR # ?body"
      using 3 d Some write_chunks_app [of d 0 "[LONG_INDICATOR]"] write_ub4_app [of 0 "LONG_INDICATOR # write_chunks d 0 []"]
        write_ub4_app [of 0 "write_chunks d 0 []"]
      by (simp add: write_bytes_with_length_def appends)
    have "read_chunks [] (buf_at (pre @ [LONG_INDICATOR]) (?body @ rest))
        = (Inr d, buf_at (pre @ LONG_INDICATOR # ?body) rest)"
      using read_chunks_write [of "[]" "pre @ [LONG_INDICATOR]" d 0 rest] by simp
    then have "read_bytes_with_length (buf_at pre (LONG_INDICATOR # ?body @ rest))
        = (Inr (Some d), buf_at (pre @ LONG_INDICATOR # ?body) rest)"
      by (simp add: read_bytes_with_length_def read_u8_Cons clr_marks)
    with w Some show ?thesis by simp
  qed
qed

interpretation clr: codec write_bytes_with_length read_bytes_with_length "\<lambda>_. True"
  by unfold_locales (rule write_bytes_with_length_app, rule read_clr_write)

definition utf8_opt :: "string option \<Rightarrow> bool" where
  "utf8_opt s \<longleftrightarrow> (case s of None \<Rightarrow> True | Some t \<Rightarrow> utf8_valid (str_bytes t))"

interpretation str: codec write_string_with_length read_string_with_length utf8_opt
proof
  show "write_string_with_length s b = b @ write_string_with_length s []" for s b
    by (rule write_string_with_length_app)
next
  fix s pre rest
  assume "utf8_opt s"
  then show "read_string_with_length (buf_at pre (write_string_with_length s [] @ rest))
      = (Inr s, buf_at (pre @ write_string_with_length s []) rest)"
    by (cases s) (simp_all add: utf8_opt_def write_string_with_length_def
        read_string_with_length_def read_clr_write)
qed

text \<open>
  Two fields in a row: the \<open>ub4\<close> sequence number and the \<open>ub8\<close> row count that open an
  end-of-call block.
\<close>

interpretation ub4_ub8: codec_pair write_ub4 read_ub4 "\<lambda>_. True" write_ub8 read_ub8 "\<lambda>_. True" ..

subsection \<open>The chunk loops move forward\<close>

lemma forward_chunk_loop:
  fixes len :: "'n::len word reader"
  assumes loop: "\<And>acc b. loop acc b = (let_ok len (\<lambda>n. if n = 0 then ok acc
      else let_ok (read_bytes_vec (unat n)) (\<lambda>c. loop (acc @ c)))) b"
    and len: "forward len" and shrinks: "\<And>b n b'. len b = (Inr n, b') \<Longrightarrow> remaining b' < remaining b"
  shows "forward (loop acc)"
proof -
  have "rdata b' = rdata b \<and> rpos b \<le> rpos b' \<and> (wf_buf b \<longrightarrow> wf_buf b')"
    if "loop acc b = (x, b')" for acc x b b'
    using that
  proof (induction "remaining b" arbitrary: acc b rule: less_induct)
    case less
    obtain y b1 where r1: "len b = (y, b1)" by force
    note f1 = forwardD [OF len r1]
    show ?case
    proof (cases y)
      case (Inl e)
      with less(2) r1 f1 show ?thesis by (simp add: loop let_ok_apply)
    next
      case y: (Inr n)
      obtain z b2 where r2: "read_bytes_vec (unat n) b1 = (z, b2)" by force
      note f2 = forwardD [OF forward_reads(6) r2]
      have "remaining b2 < remaining b"
        using shrinks r1 y read_bytes_vec_shrinks [OF r2] by fastforce
      with less r1 r2 f1 f2 y show ?thesis
        by (cases z) (fastforce simp: loop [of acc b] let_ok_apply split: if_splits)+
    qed
  qed
  then show ?thesis unfolding forward_def by (metis prod.collapse)
qed

lemma forward_read_chunks [forward_intros]: "forward (read_chunks acc)"
  by (rule forward_chunk_loop [where len = read_ub4])
    (auto simp: let_ok_apply on_ok_def read_chunks.simps intro: forward_intros
      dest: read_ub4_consumes split: sum.split prod.split)

lemma forward_read_chunks_1b [forward_intros]: "forward (read_chunks_1b acc)"
  by (rule forward_chunk_loop [where len = read_u8])
    (auto simp: let_ok_apply on_ok_def read_chunks_1b.simps intro: forward_intros
      dest: read_u8_consumes split: sum.split prod.split)

lemma forward_clr [forward_intros]:
  "forward read_bytes_with_length" "forward read_bytes_with_length_1b_chunks"
  "forward read_string_with_length" "forward read_string_with_ub4_length"
proof -
  have short: "forward (read_short_clr n)" for n
    unfolding read_short_clr_def by (intro forward_intros)
  show "forward read_bytes_with_length" "forward read_bytes_with_length_1b_chunks"
    unfolding read_bytes_with_length_def read_bytes_with_length_1b_chunks_def
    by (intro forward_intros short)+
  then have s: "forward read_string_with_length"
    unfolding read_string_with_length_def
    by (intro forward_intros) (auto intro!: forward_intros split: option.split sum.split)
  then show "forward read_string_with_length" .
  from s show "forward read_string_with_ub4_length"
    unfolding read_string_with_ub4_length_def by (intro forward_intros s)
qed

section \<open>Properties\<close>

text \<open>
  C36.  The compact unsigned integers survive a write and a read at every value of their
  width, wherever they stand in a message, and the reader stops exactly at the end of
  what was written.
\<close>

theorem compact_integers_roundtrip:
  "read_ub2 (buf_at pre (write_ub2 a [] @ rest)) = (Inr a, buf_at (pre @ write_ub2 a []) rest) \<and>
   read_ub4 (buf_at pre (write_ub4 b [] @ rest)) = (Inr b, buf_at (pre @ write_ub4 b []) rest) \<and>
   read_ub8 (buf_at pre (write_ub8 c [] @ rest)) = (Inr c, buf_at (pre @ write_ub8 c []) rest)"
  by (simp add: ub2.get_put ub4.get_put ub8.get_put)

text \<open>
  A byte string of any length (absent, empty, short, or cut into 32767-byte chunks)
  written after any prefix reads back whole, and what follows it is left unread.
\<close>

theorem clr_roundtrip:
  "read_bytes_with_length (buf_at pre (write_bytes_with_length v [] @ rest))
     = (Inr v, buf_at (pre @ write_bytes_with_length v []) rest)"
  by (rule clr.get_put) simp

text \<open>
  The length-prefixed format is uniquely decodable: two encoded values followed by
  anything are the same bytes exactly when the values and what follows agree.
\<close>

theorem clr_uniquely_decodable:
  "write_bytes_with_length v [] @ r = write_bytes_with_length w [] @ s \<longleftrightarrow> v = w \<and> r = s"
  using clr.prefix_free [where v = v and w = w and r = r and s = s] by auto

text \<open>
  The signed short integer reads back as written except between -127 and -1, where
  the sign flag of the length byte is masked off and the magnitude comes back positive.
\<close>

theorem sb2_read_back:
  "read_sb2 (buf_at pre (write_sb2 v [] @ rest))
     = (Inr (if -127 \<le> sint v \<and> sint v < 0 then - v else v), buf_at (pre @ write_sb2 v []) rest)"
  by (simp add: read_sb2_write sb2_faithful_def)

text \<open>
  C37.  No reader of length-prefixed data, whatever the bytes it is given, moves the cursor
  back or past the end, or changes the data; this includes the error paths and the loops
  over chunks.
\<close>

theorem readers_stay_inside:
  "forward read_bytes_with_length \<and> forward read_bytes_with_length_1b_chunks \<and>
   forward read_string_with_length \<and> forward read_string_with_ub4_length \<and>
   forward read_ub2 \<and> forward read_sb2 \<and> forward read_ub4 \<and> forward read_ub8"
  by (simp add: forward_clr forward_ub)

end
