(* ===== verification/Tns.thy ===== *)
theory Tns
  imports Buffer
begin

text \<open>
  The TNS packet layer of \<^verbatim>\<open>src/src/tns.rs\<close>: packet types, the two header formats
  and how a declared length is read, the completion of under-declared Fetch frames,
  the splitting of large messages for OCI clients, and the CONNECT and ACCEPT payloads.

  A connection is the bytes the peer will still send, whether it then closes or
  falls silent, the deadline on an incomplete frame, and the bytes sent so far.  A read
  that can never return (a silent peer and no deadline) is the outcome \<open>Blocked\<close>.
\<close>

section \<open>Packets\<close>

datatype packet_type = Connect | Accept | Ack | Refuse | Redirect | Data | Null | Abort
  | Resend | Marker | Attention | Control

fun packet_code :: "packet_type \<Rightarrow> u8" where
  "packet_code Connect = 1"
| "packet_code Accept = 2"
| "packet_code Ack = 3"
| "packet_code Refuse = 4"
| "packet_code Redirect = 5"
| "packet_code Data = 6"
| "packet_code Null = 7"
| "packet_code Abort = 9"
| "packet_code Resend = 11"
| "packet_code Marker = 12"
| "packet_code Attention = 13"
| "packet_code Control = 14"

definition packet_type_of :: "u8 \<Rightarrow> error + packet_type" where
  "packet_type_of v =
     (if v = 1 then Inr Connect
      else if v = 2 then Inr Accept
      else if v = 3 then Inr Ack
      else if v = 4 then Inr Refuse
      else if v = 5 then Inr Redirect
      else if v = 6 then Inr Data
      else if v = 7 then Inr Null
      else if v = 9 then Inr Abort
      else if v = 11 then Inr Resend
      else if v = 12 then Inr Marker
      else if v = 13 then Inr Attention
      else if v = 14 then Inr Control
      else Inl (InvalidPacketType v))"

datatype sdu_mode = Small | Large

record packet =
  packet_type :: packet_type
  pflags :: u8
  payload :: bytes

definition MAX_TNS_PACKET_SIZE :: nat where
  "MAX_TNS_PACKET_SIZE = 64 * 1024 * 1024"

text \<open>The declared size of a packet and whether the short header was used.\<close>

definition packet_length :: "bytes \<Rightarrow> sdu_mode \<Rightarrow> nat \<times> bool" where
  "packet_length h m = (case m of
       Small \<Rightarrow> (nat_of_be [h ! 0, h ! 1], True)
     | Large \<Rightarrow>
         let small_length = nat_of_be [h ! 0, h ! 1];
             legacy_small_header = (h ! 2 = 0 \<and> h ! 3 = 0 \<and> 8 \<le> small_length \<and> small_length \<le> 65535)
         in if legacy_small_header then (small_length, True)
            else (nat_of_be [h ! 0, h ! 1, h ! 2, h ! 3], False))"

section \<open>The connection\<close>

record tns =
  inbound :: bytes
  stalls :: bool
  idle_timeout :: "nat option"
  write_error :: "string option"
  outbound :: bytes
  sdu :: sdu_mode
  oci_client :: bool

datatype stop = Failed error | Blocked

type_synonym 'a net = "(tns, stop, 'a) step"

text \<open>
  Reading exactly \<open>n\<close> bytes.  A read that comes up short has consumed what there was.
\<close>

definition idle_text :: "nat \<Rightarrow> string" where
  "idle_text t = ''TNS peer was idle for '' @ show_nat t @ '' seconds while a packet was incomplete''"

definition read_exact :: "nat \<Rightarrow> bytes net" where
  "read_exact n s =
     (if n \<le> length (inbound s)
      then (Inr (take n (inbound s)), s\<lparr>inbound := drop n (inbound s)\<rparr>)
      else (Inl (if stalls s
          then (case idle_timeout s of
              Some t \<Rightarrow> Failed (Protocol (idle_text t))
            | None \<Rightarrow> Blocked)
          else Failed (Io ''eof'')), s\<lparr>inbound := []\<rparr>))"

definition io_write :: "bytes \<Rightarrow> unit net" where
  "io_write bs s = (case write_error s of
       Some e \<Rightarrow> (Inl (Failed (Io e)), s)
     | None \<Rightarrow> (Inr (), s\<lparr>outbound := outbound s @ bs\<rparr>))"

section \<open>Reading a packet\<close>

definition read_more :: "bytes \<Rightarrow> nat \<Rightarrow> bytes net" where
  "read_more buf n =
     (if MAX_TNS_PACKET_SIZE < length buf + n
      then fail (Failed (Protocol ''oversized TNS packet completion''))
      else let_ok (read_exact n) (\<lambda>more. ok (buf @ more)))"

text \<open>Make \<open>buf\<close> hold a whole compact integer at \<open>off\<close>; the offset past it.\<close>

definition complete_ub :: "bytes \<Rightarrow> nat \<Rightarrow> (bytes \<times> nat) net" where
  "complete_ub buf off =
     let_ok (if length buf \<le> off then read_more buf (off + 1 - length buf) else ok buf) (\<lambda>buf.
       let l = unat (buf ! off AND 0x7f) in
       if 8 < l then fail (Failed (Protocol (''bad ub length '' @ show_nat l)))
       else let_ok (if length buf < off + 1 + l then read_more buf (off + 1 + l - length buf) else ok buf) (\<lambda>buf. ok (buf, off + 1 + l)))"

definition is_fetch_frame :: "bytes \<Rightarrow> bool" where
  "is_fetch_frame p \<longleftrightarrow> 5 \<le> length p \<and> p ! 2 = 0x03 \<and> p ! 3 = 0x05"

definition complete_fetch :: "packet_type \<Rightarrow> bytes \<Rightarrow> bytes net" where
  "complete_fetch t p s =
     (if t = Data \<and> is_fetch_frame p \<and> \<not> oci_client s
      then (let_ok (complete_ub p 5) (\<lambda>(p, off). let_ok (complete_ub p off) (\<lambda>(p, _). ok p))) s
      else ok p s)"

definition read_packet :: "packet net" where
  "read_packet = let_ok (read_exact 8) (\<lambda>header s.
     let len = fst (packet_length header (sdu s)) in
     (if \<not> (8 \<le> len \<and> len \<le> MAX_TNS_PACKET_SIZE)
      then fail (Failed (Protocol (''invalid tns packet length '' @ show_nat len)))
      else (case packet_type_of (header ! 4) of
          Inl e \<Rightarrow> fail (Failed e)
        | Inr t \<Rightarrow>
            let_ok (if 0 < len - 8 then read_exact (len - 8) else ok []) (\<lambda>p. let_ok (complete_fetch t p) (\<lambda>p. ok \<lparr>packet_type = t, pflags = header ! 5, payload = p\<rparr>)))) s)"

section \<open>Writing a packet\<close>

definition emit_one_packet :: "packet_type \<Rightarrow> u8 \<Rightarrow> bytes \<Rightarrow> unit net" where
  "emit_one_packet t flags p s =
     (let packet_len = 8 + length p in
      if MAX_TNS_PACKET_SIZE < packet_len
      then fail (Failed (Protocol (''TNS packet exceeds maximum size: '' @ show_nat packet_len))) s
      else (case sdu s of
          Small \<Rightarrow>
            if 65535 < packet_len
            then fail (Failed (Protocol (''small-SDU TNS packet too large: '' @ show_nat packet_len))) s
            else io_write (be16 (word_of_nat packet_len) @ [0, 0] @ [packet_code t, flags] @ [0, 0] @ p) s
        | Large \<Rightarrow>
            io_write (be32 (word_of_nat packet_len) @ [packet_code t, flags] @ [0, 0] @ p) s))"

definition OCI_MAX_PACKET :: nat where "OCI_MAX_PACKET = 8111"
definition OCI_CHUNK :: nat where "OCI_CHUNK = OCI_MAX_PACKET - 8 - 2"

text \<open>The frames of a split message; \<open>body\<close> is what the loop has not sent yet.\<close>

function oci_frames :: "packet_type \<Rightarrow> u8 \<Rightarrow> bytes \<Rightarrow> bytes \<Rightarrow> bytes" where
  "oci_frames t flags data_flags body =
     (if body = [] then []
      else let part = take OCI_CHUNK body in
        be32 (word_of_nat (8 + (2 + length part))) @ [packet_code t, flags, 0, 0]
        @ data_flags @ part @ oci_frames t flags data_flags (drop OCI_CHUNK body))"
  by pat_completeness auto
termination
  by (relation "measure (\<lambda>(t, f, d, body). length body)") (auto simp: OCI_CHUNK_def OCI_MAX_PACKET_def)

declare oci_frames.simps [simp del]

definition needs_split :: "packet_type \<Rightarrow> bytes \<Rightarrow> tns \<Rightarrow> bool" where
  "needs_split t p s \<longleftrightarrow> oci_client s \<and> t = Data \<and> 2 < length p \<and> OCI_MAX_PACKET < 8 + length p"

definition write_packet_flags :: "packet_type \<Rightarrow> u8 \<Rightarrow> bytes \<Rightarrow> unit net" where
  "write_packet_flags t flags p s =
     (if needs_split t p s then io_write (oci_frames t flags (take 2 p) (drop 2 p)) s
      else emit_one_packet t flags p s)"

definition write_packet :: "packet_type \<Rightarrow> bytes \<Rightarrow> unit net" where
  "write_packet t p = write_packet_flags t 0 p"

definition write_marker :: "u8 \<Rightarrow> unit net" where
  "write_marker m = write_packet Marker [m, 0, 2]"

definition write_oci_marker :: "u8 \<Rightarrow> unit net" where
  "write_oci_marker subtype = write_packet_flags Marker 0x20 [1, 0, subtype]"

text \<open>
  Waiting for markers with a time limit: \<open>inbound\<close> is what arrives in time.  Any other
  packet, an error or silence ends the wait; the packet is consumed.
\<close>

fun drain_markers :: "nat \<Rightarrow> unit net" where
  "drain_markers 0 s = ok () s"
| "drain_markers (Suc n) s = (case read_packet s of
       (Inr p, s') \<Rightarrow> if packet_type p = Marker then drain_markers n s' else ok () s'
     | (Inl e, s') \<Rightarrow> ok () s')"

fun ack_client_markers :: "nat \<Rightarrow> unit net" where
  "ack_client_markers 0 s = ok () s"
| "ack_client_markers (Suc n) s = (case read_packet s of
       (Inr p, s') \<Rightarrow>
         if packet_type p = Marker
         then (let_ok (write_packet Marker [2, 0, 2]) (\<lambda>_. ack_client_markers n)) s'
         else ok () s'
     | (Inl e, s') \<Rightarrow> ok () s')"

section \<open>CONNECT and ACCEPT\<close>

text \<open>\<open>blit at bs d\<close>: \<^verbatim>\<open>data[at..at+n].copy_from_slice(bs)\<close>.\<close>

definition blit :: "nat \<Rightarrow> bytes \<Rightarrow> bytes \<Rightarrow> bytes" where
  "blit i bs d = take i d @ bs @ drop (i + length bs) d"

definition build_accept_response :: "u16 \<Rightarrow> bytes" where
  "build_accept_response version =
     (emit [blit 0 (be16 version), blit 2 (be16 0x0841), blit 8 (be16 0x0100), blit 12 (be16 (8 + 61)), blit 14 [0x41], blit 15 [0x41], blit 24 (be32 0x2000), blit 28 (be32 0x2000)]) (replicate 61 0)"

definition parse_connect_payload :: "bytes \<Rightarrow> error + u16 \<times> u16 \<times> string" where
  "parse_connect_payload p = fst ((
     let_ok read_u16_be (\<lambda>desired_version.
     let_ok read_u16_be (\<lambda>minimum_version.
     let_ok (skip 14) (\<lambda>_.
     let_ok read_u16_be (\<lambda>connect_data_offset.
       if unat connect_data_offset \<le> length p
       then (case from_utf8 DataConversionError (drop (unat connect_data_offset) p) of
           Inl e \<Rightarrow> fail e
         | Inr descriptor \<Rightarrow> ok (desired_version, minimum_version, descriptor))
       else ok (desired_version, minimum_version, []))))))
     (from_slice p))"

section \<open>Reading what was written\<close>

lemma packet_type_of_code [simp]: "packet_type_of (packet_code t) = Inr t"
  by (cases t) (simp_all add: packet_type_of_def)

lemma packet_type_of_Inr: "packet_type_of v = Inr t \<longleftrightarrow> v = packet_code t"
proof
  assume "packet_type_of v = Inr t"
  then show "v = packet_code t" by (auto simp: packet_type_of_def split: if_splits)
qed simp

lemma be32_halves:
  "nat_of_be [be32 w ! 0, be32 w ! 1] = unat w div 65536"
  "be32 w ! 2 = 0 \<and> be32 w ! 3 = 0 \<longleftrightarrow> unat w mod 65536 = 0"
proof -
  have "unat w div 2 ^ 24 mod 256 = unat w div 2 ^ 24"
    using unat_bound [of w] by (intro top_digit) simp
  moreover have "unat (be32 w ! 0) = unat w div 2 ^ 24 mod 256"
    "unat (be32 w ! 1) = unat w div 2 ^ 16 mod 256"
    by (simp_all add: be32_def unat_ucast_u8 unat_drop_bit del: power_numeral)
  ultimately show "nat_of_be [be32 w ! 0, be32 w ! 1] = unat w div 65536"
    using digit_step [of "unat w" 16] by (simp add: nat_of_be_def)
  have "unat (be32 w ! 2) = unat w div 256 mod 256" "unat (be32 w ! 3) = unat w mod 256"
    by (simp_all add: be32_def unat_ucast_u8 unat_drop_bit)
  moreover have "unat w mod 65536 = unat w div 256 mod 256 * 256 + unat w mod 256"
    using mod_mult2_eq [of "unat w" 256 256] by simp
  ultimately show "be32 w ! 2 = 0 \<and> be32 w ! 3 = 0 \<longleftrightarrow> unat w mod 65536 = 0"
    unfolding unat_eq_0 [symmetric] by simp
qed

lemma be_nths: "[be16 v ! 0, be16 v ! Suc 0] = be16 v"
  "[be32 w ! 0, be32 w ! Suc 0, be32 w ! 2, be32 w ! 3] = be32 w"
  by (simp_all add: be16_def be32_def)

text \<open>The lengths a large header cannot carry: they look like a short header.\<close>

definition looks_short :: "nat \<Rightarrow> bool" where
  "looks_short len \<longleftrightarrow> len mod 65536 = 0 \<and> 8 \<le> len div 65536"

lemma packet_length_small:
  "len \<le> 65535 \<Longrightarrow> packet_length (be16 (word_of_nat len) @ r) Small = (len, True)"
  using be_nths(1) [of "word_of_nat len"]
  by (simp add: packet_length_def nth_append nat_of_be16 unat_of_nat take_bit_nat_eq_self)

lemma packet_length_legacy:
  assumes "8 \<le> len" "len \<le> 65535"
  shows "packet_length (be16 (word_of_nat len) @ 0 # 0 # r) m = (len, True)"
proof -
  have "nat_of_be [be16 (word_of_nat len) ! 0, be16 (word_of_nat len) ! 1] = len"
    using assms by (simp add: be_nths nat_of_be16 unat_of_nat take_bit_nat_eq_self)
  with assms show ?thesis
    by (cases m) (simp_all add: packet_length_def nth_append)
qed

lemma packet_length_large:
  assumes "len < 2 ^ 32"
  shows "packet_length (be32 (word_of_nat len) @ r) Large
    = (if looks_short len then (len div 65536, True) else (len, False))"
proof -
  let ?w = "word_of_nat len :: u32"
  have u: "unat ?w = len"
    using assms by (simp add: unat_of_nat take_bit_nat_eq_self)
  have n: "(be32 ?w @ r) ! i = be32 ?w ! i" if "i < 4" for i
    using that by (simp add: nth_append)
  have b: "len div 65536 \<le> 65535"
    using assms by (simp add: less_mult_imp_div_less less_Suc_eq_le [symmetric])
  have all: "nat_of_be [be32 ?w ! 0, be32 ?w ! 1, be32 ?w ! 2, be32 ?w ! 3] = len"
    by (simp add: be_nths nat_of_be32 u)
  show ?thesis
    using be32_halves [of ?w] b all
    by (auto simp: packet_length_def n looks_short_def u Let_def)
qed

lemma read_exact_append:
  assumes "inbound s = xs @ r" "n = length xs"
  shows "read_exact n s = (Inr xs, s\<lparr>inbound := r\<rparr>)"
  using assms by (simp add: read_exact_def)

text \<open>The bytes of one packet.\<close>

definition frame_header :: "sdu_mode \<Rightarrow> packet_type \<Rightarrow> u8 \<Rightarrow> nat \<Rightarrow> bytes" where
  "frame_header m t flags len =
     (case m of Small \<Rightarrow> be16 (word_of_nat len) @ [0, 0] | Large \<Rightarrow> be32 (word_of_nat len))
     @ [packet_code t, flags, 0, 0]"

definition frame_fits :: "sdu_mode \<Rightarrow> nat \<Rightarrow> bool" where
  "frame_fits m len \<longleftrightarrow> len \<le> (case m of Small \<Rightarrow> 65535 | Large \<Rightarrow> MAX_TNS_PACKET_SIZE)"

definition frame_readable :: "sdu_mode \<Rightarrow> nat \<Rightarrow> bool" where
  "frame_readable m len \<longleftrightarrow> frame_fits m len \<and> (m = Large \<longrightarrow> \<not> looks_short len)"

lemma emit_one_packet_Inr:
  assumes "emit_one_packet t flags p s = (Inr (), s')"
  shows "frame_fits (sdu s) (8 + length p)"
    "outbound s' = outbound s @ frame_header (sdu s) t flags (8 + length p) @ p"
  using assms
  by (auto simp: emit_one_packet_def Let_def frame_fits_def frame_header_def io_write_def
      split: if_splits sdu_mode.splits option.splits)

lemma frame_header_props:
  assumes "frame_readable m len" "8 \<le> len"
  shows "fst (packet_length (frame_header m t flags len) m) = len"
    "frame_header m t flags len ! 4 = packet_code t" "frame_header m t flags len ! 5 = flags"
    "length (frame_header m t flags len) = 8" "len \<le> MAX_TNS_PACKET_SIZE"
  using assms
  by (cases m; simp add: frame_readable_def frame_fits_def frame_header_def nth_append
      packet_length_small packet_length_large MAX_TNS_PACKET_SIZE_def)+

lemma read_packet_header:
  assumes h: "read_exact 8 s = (Inr h, u)" and len: "fst (packet_length h (sdu u)) = 8 + n"
    and small: "8 + n \<le> MAX_TNS_PACKET_SIZE"
    and t: "h ! 4 = packet_code t" and body: "read_exact n u = (Inr p, v)"
  shows "read_packet s = (let_ok (complete_fetch t p) (\<lambda>p. ok \<lparr>packet_type = t, pflags = h ! 5, payload = p\<rparr>)) v"
proof -
  have "(if 0 < n then read_exact n else ok []) u = (Inr p, v)"
    using body by (auto simp: read_exact_def split: if_splits)
  with small show ?thesis
    unfolding read_packet_def by (simp only: let_ok_apply [of "read_exact 8"] h prod.case on_ok_simps Let_def len t packet_type_of_code)
      (auto simp: let_ok_apply split: if_splits)
qed

lemma read_packet_frame:
  assumes fr: "frame_readable (sdu s) (8 + length p)"
    and inb: "inbound s = frame_header (sdu s) t flags (8 + length p) @ p @ rest"
  shows "read_packet s = (let_ok (complete_fetch t p) (\<lambda>p. ok \<lparr>packet_type = t, pflags = flags, payload = p\<rparr>)) (s\<lparr>inbound := rest\<rparr>)"
proof -
  note h = frame_header_props(1-4) [OF fr, where t = t and flags = flags, simplified]
    and m = frame_header_props(5) [OF fr, simplified]
  let ?u = "s\<lparr>inbound := p @ rest\<rparr>"
  have r1: "read_exact 8 s = (Inr (frame_header (sdu s) t flags (8 + length p)), ?u)"
    using inb h by (intro read_exact_append) simp_all
  have r2: "read_exact (length p) ?u = (Inr p, ?u\<lparr>inbound := rest\<rparr>)"
    by (rule read_exact_append) simp_all
  from read_packet_header [OF r1 _ _ h(2) r2] h(1,3) m show ?thesis by simp
qed

section \<open>Splitting for OCI clients\<close>

fun read_packets :: "nat \<Rightarrow> packet list net" where
  "read_packets 0 = ok []"
| "read_packets (Suc n) = let_ok read_packet (\<lambda>p. let_ok (read_packets n) (\<lambda>ps. ok (p # ps)))"

lemma oci_frames_step:
  assumes "body \<noteq> []" "length df = 2"
  shows "oci_frames t flags df body =
    frame_header Large t flags (8 + length (df @ take OCI_CHUNK body)) @ (df @ take OCI_CHUNK body)
    @ oci_frames t flags df (drop OCI_CHUNK body)"
  using assms by (subst oci_frames.simps) (simp add: frame_header_def Let_def)

lemma read_oci_frames:
  assumes df: "length df = 2" and m: "sdu s = Large" and o: "oci_client s"
    and inb: "inbound s = oci_frames t flags df body @ rest"
  shows "\<exists>ps. read_packets ((length body + (OCI_CHUNK - 1)) div OCI_CHUNK) s = (Inr ps, s\<lparr>inbound := rest\<rparr>)
    \<and> concat (map (\<lambda>q. drop 2 (payload q)) ps) = body
    \<and> (\<forall>q \<in> set ps. packet_type q = t \<and> pflags q = flags \<and> take 2 (payload q) = df
         \<and> 8 + length (payload q) \<le> OCI_MAX_PACKET)"
  using m o inb
proof (induction "length body" arbitrary: body s rule: less_induct)
  case less
  show ?case
  proof (cases "body = []")
    case True
    with less show ?thesis by (simp add: oci_frames.simps OCI_CHUNK_def OCI_MAX_PACKET_def)
  next
    case False
    let ?p = "df @ take OCI_CHUNK body" and ?b = "drop OCI_CHUNK body"
    have c: "OCI_CHUNK = 8101" by (simp add: OCI_CHUNK_def OCI_MAX_PACKET_def)
    let ?s = "s\<lparr>inbound := oci_frames t flags df ?b @ rest\<rparr>"
    have short: "8 + length ?p \<le> 8111" using df by (simp add: c)
    then have "frame_readable (sdu s) (8 + length ?p)"
      using less.prems(1) by (simp add: frame_readable_def frame_fits_def MAX_TNS_PACKET_SIZE_def looks_short_def)
    moreover have "inbound s = frame_header (sdu s) t flags (8 + length ?p) @ ?p @ oci_frames t flags df ?b @ rest"
      using less.prems oci_frames_step [OF False df] by simp
    ultimately have "read_packet s = (let_ok (complete_fetch t ?p) (\<lambda>p. ok \<lparr>packet_type = t, pflags = flags, payload = p\<rparr>)) ?s"
      by (rule read_packet_frame)
    then have one: "read_packet s = (Inr \<lparr>packet_type = t, pflags = flags, payload = ?p\<rparr>, ?s)"
      using less.prems(2) by (simp add: complete_fetch_def)
    have n: "(length body + (OCI_CHUNK - 1)) div OCI_CHUNK = Suc ((length ?b + (OCI_CHUNK - 1)) div OCI_CHUNK)"
      using False by (cases "length body \<le> OCI_CHUNK") (auto simp: c not_le div_if [of "length body + 8100"] Suc_diff_le)
    have "length ?b < length body" using False by (simp add: c)
    from less.hyps [OF this, of ?s] less.prems obtain ps where
      "read_packets ((length ?b + (OCI_CHUNK - 1)) div OCI_CHUNK) ?s = (Inr ps, ?s\<lparr>inbound := rest\<rparr>)"
      "concat (map (\<lambda>q. drop 2 (payload q)) ps) = ?b"
      "\<forall>q \<in> set ps. packet_type q = t \<and> pflags q = flags \<and> take 2 (payload q) = df
         \<and> 8 + length (payload q) \<le> OCI_MAX_PACKET"
      by auto
    with one n df short show ?thesis
      by (intro exI [of _ "\<lparr>packet_type = t, pflags = flags, payload = ?p\<rparr> # ps"])
        (simp add: OCI_MAX_PACKET_def)
  qed
qed

section \<open>Completing Fetch frames\<close>

lemma ub4_shape:
  "\<exists>l xs. write_ub4 v [] = l # xs \<and> unat (l AND 0x7f) = length xs \<and> length xs \<le> 4"
  by (auto simp: write_ub4_def appends)

lemma read_more_upto:
  assumes "k \<le> m" "m \<le> length w" "m \<le> MAX_TNS_PACKET_SIZE" "inbound s = drop k w @ rest"
  shows "read_more (take k w) (m - k) s = (Inr (take m w), s\<lparr>inbound := drop m w @ rest\<rparr>)"
proof -
  have "drop k w = take (m - k) (drop k w) @ drop m w"
    using assms(1) by (metis append_take_drop_id drop_drop le_add_diff_inverse2)
  then have "inbound s = take (m - k) (drop k w) @ drop m w @ rest"
    using assms(4) by (metis append_assoc)
  then have "read_exact (m - k) s = (Inr (take (m - k) (drop k w)), s\<lparr>inbound := drop m w @ rest\<rparr>)"
    using assms by (intro read_exact_append) simp_all
  moreover have "take k w @ take (m - k) (drop k w) = take m w"
    using assms(1) by (metis le_add_diff_inverse take_add)
  ultimately show ?thesis
    using assms by (simp add: read_more_def)
qed

text \<open>A packet cut anywhere is completed to the end of the integer at \<open>off\<close>.\<close>

lemma complete_ub_upto:
  assumes off: "off < length w" "off + 1 + l \<le> length w" and l: "unat (w ! off AND 0x7f) = l" "l \<le> 8"
    and small: "off + 1 + l \<le> MAX_TNS_PACKET_SIZE"
    and k: "k \<le> length w" and inb: "inbound s = drop k w @ rest"
  shows "complete_ub (take k w) off s
    = (Inr (take (max k (off + 1 + l)) w, off + 1 + l),
       s\<lparr>inbound := drop (max k (off + 1 + l)) w @ rest\<rparr>)"
proof -
  have ext: "(if length (take j w) < m then read_more (take j w) (m - length (take j w))
        else ok (take j w)) t = (Inr (take (max j m) w), t\<lparr>inbound := drop (max j m) w @ rest\<rparr>)"
    if "j \<le> length w" "m \<le> length w" "m \<le> off + 1 + l" "inbound t = drop j w @ rest" for j m t
    using that small by (cases "j < m") (auto simp: read_more_upto max_def min_def)
  let ?k1 = "max k (off + 1)" and ?k2 = "max k (off + 1 + l)"
  let ?s1 = "s\<lparr>inbound := drop ?k1 w @ rest\<rparr>"
  have "length (take k w) \<le> off \<longleftrightarrow> length (take k w) < off + 1"
    by (simp only: Suc_eq_plus1 [symmetric] less_Suc_eq_le)
  then have first: "(if length (take k w) \<le> off then read_more (take k w) (off + 1 - length (take k w))
      else ok (take k w)) s = (Inr (take ?k1 w), ?s1)"
    using ext [of k "off + 1" s] k off inb by (simp only:)
  have nth: "take ?k1 w ! off = w ! off" by simp
  have "max ?k1 (off + 1 + l) = ?k2" by simp
  then have second: "(if length (take ?k1 w) < off + 1 + l
      then read_more (take ?k1 w) (off + 1 + l - length (take ?k1 w)) else ok (take ?k1 w)) ?s1
      = (Inr (take ?k2 w), s\<lparr>inbound := drop ?k2 w @ rest\<rparr>)"
    using ext [of ?k1 "off + 1 + l" ?s1] k off by simp
  show ?thesis
    unfolding complete_ub_def using first second l(2)
    by (simp only: then_Inr nth l(1) Let_def not_less [symmetric] if_False ok_apply)
qed

text \<open>A Fetch request: data flags, message and function code, sequence, cursor, rows.\<close>

definition fetch_frame :: "u8 \<Rightarrow> u32 \<Rightarrow> u32 \<Rightarrow> bytes" where
  "fetch_frame seq cursor rows =
     [0, 0, 0x03, 0x05, seq] @ write_ub4 cursor [] @ write_ub4 rows []"

lemma complete_fetch_frame:
  assumes k: "5 \<le> k" "k \<le> length (fetch_frame q c n)" and o: "\<not> oci_client s"
    and inb: "inbound s = drop k (fetch_frame q c n) @ rest"
  shows "complete_fetch Data (take k (fetch_frame q c n)) s
    = (Inr (fetch_frame q c n), s\<lparr>inbound := rest\<rparr>)"
proof -
  let ?w = "fetch_frame q c n"
  obtain l xs where lx: "write_ub4 c [] = l # xs" "unat (l AND 0x7f) = length xs" "length xs \<le> 4"
    using ub4_shape by blast
  obtain m ys where my: "write_ub4 n [] = m # ys" "unat (m AND 0x7f) = length ys" "length ys \<le> 4"
    using ub4_shape by blast
  have w: "?w = [0, 0, 3, 5, q] @ l # xs @ m # ys"
    by (simp add: fetch_frame_def lx my)
  let ?o1 = "5 + 1 + length xs"
  have len: "length ?w = ?o1 + 1 + length ys" by (simp add: w)
  have nths: "?w ! 5 = l" "?w ! ?o1 = m"
    by (simp_all add: w nth_append nth_Cons')
  let ?k1 = "max k ?o1"
  let ?s1 = "s\<lparr>inbound := drop ?k1 ?w @ rest\<rparr>"
  have c1: "complete_ub (take k ?w) 5 s = (Inr (take ?k1 ?w, ?o1), ?s1)"
    using k inb lx len nths by (intro complete_ub_upto) (simp_all add: MAX_TNS_PACKET_SIZE_def)
  have "complete_ub (take ?k1 ?w) ?o1 ?s1
      = (Inr (take (max ?k1 (?o1 + 1 + length ys)) ?w, ?o1 + 1 + length ys),
         ?s1\<lparr>inbound := drop (max ?k1 (?o1 + 1 + length ys)) ?w @ rest\<rparr>)"
    using k lx my len nths by (intro complete_ub_upto) (simp_all add: MAX_TNS_PACKET_SIZE_def)
  moreover have "max ?k1 (?o1 + 1 + length ys) = length ?w" using k len by simp
  ultimately have c2: "complete_ub (take ?k1 ?w) ?o1 ?s1 = (Inr (?w, ?o1 + 1 + length ys), s\<lparr>inbound := rest\<rparr>)"
    by simp
  have "is_fetch_frame (take k ?w)"
    using k by (simp add: is_fetch_frame_def w)
  with o c1 c2 show ?thesis
    by (simp add: complete_fetch_def)
qed

section \<open>What a read takes from the stream\<close>

lemma read_exact_Inr:
  "read_exact n s = (Inr xs, s') \<Longrightarrow> inbound s = xs @ inbound s' \<and> length xs = n"
  by (auto simp: read_exact_def split: if_splits)

lemma read_more_Inr:
  "read_more buf n s = (Inr buf', s') \<Longrightarrow>
     \<exists>more. buf' = buf @ more \<and> inbound s = more @ inbound s' \<and> length buf' \<le> MAX_TNS_PACKET_SIZE"
  by (auto simp: read_more_def then_Inr_conv dest!: read_exact_Inr split: if_splits)

lemma complete_ub_Inr:
  assumes "complete_ub buf off s = (Inr (buf', e), s')" "length buf \<le> MAX_TNS_PACKET_SIZE"
  shows "\<exists>more. buf' = buf @ more \<and> inbound s = more @ inbound s' \<and> length buf' \<le> MAX_TNS_PACKET_SIZE"
proof -
  obtain b1 t where 1: "(if length buf \<le> off then read_more buf (off + 1 - length buf) else ok buf) s = (Inr b1, t)"
    and r: "(let l = unat (b1 ! off AND 0x7f) in
       if 8 < l then fail (Failed (Protocol (''bad ub length '' @ show_nat l)))
       else let_ok (if length b1 < off + 1 + l then read_more b1 (off + 1 + l - length b1) else ok b1) (\<lambda>buf. ok (buf, off + 1 + l))) t = (Inr (buf', e), s')"
    using assms(1) unfolding complete_ub_def then_Inr_conv(1) by blast
  from 1 assms(2) have m1: "\<exists>more. b1 = buf @ more \<and> inbound s = more @ inbound t \<and> length b1 \<le> MAX_TNS_PACKET_SIZE"
    by (auto dest!: read_more_Inr split: if_splits)
  let ?l = "unat (b1 ! off AND 0x7f)"
  from r have 2: "(if length b1 < off + 1 + ?l then read_more b1 (off + 1 + ?l - length b1) else ok b1) t = (Inr buf', s')"
    by (auto simp: Let_def then_Inr_conv split: if_splits)
  with m1 show ?thesis
    by (auto dest!: read_more_Inr split: if_splits)
qed

lemma complete_fetch_Inr:
  assumes "complete_fetch t p s = (Inr p', s')" "length p \<le> MAX_TNS_PACKET_SIZE"
  shows "\<exists>more. p' = p @ more \<and> inbound s = more @ inbound s' \<and> length p' \<le> MAX_TNS_PACKET_SIZE"
proof (cases "t = Data \<and> is_fetch_frame p \<and> \<not> oci_client s")
  case True
  with assms(1) obtain q off u r where
    1: "complete_ub p 5 s = (Inr (q, off), u)" and 2: "complete_ub q off u = (Inr (p', r), s')"
    by (auto simp: complete_fetch_def then_Inr_conv)
  from complete_ub_Inr [OF 1 assms(2)] complete_ub_Inr [OF 2] show ?thesis by auto
qed (use assms in \<open>auto simp: complete_fetch_def\<close>)

section \<open>Data packets of a connection that works\<close>

text \<open>A connection of a thin client, and of any client, that accepts what is written.\<close>

definition thin_net :: "tns \<Rightarrow> bool" where
  "thin_net n \<longleftrightarrow> sdu n = Large \<and> \<not> oci_client n \<and> write_error n = None"

definition live_net :: "tns \<Rightarrow> bool" where
  "live_net n \<longleftrightarrow> sdu n = Large \<and> write_error n = None"

definition data_frame :: "bytes \<Rightarrow> bytes" where
  "data_frame p = frame_header Large Data 0 (8 + length p) @ p"

definition fits :: "bytes \<Rightarrow> bool" where
  "fits p \<longleftrightarrow> 8 + length p \<le> MAX_TNS_PACKET_SIZE"

definition fits_client :: "tns \<Rightarrow> bytes \<Rightarrow> bool" where
  "fits_client n p \<longleftrightarrow> 8 + length p \<le> (if oci_client n then OCI_MAX_PACKET else MAX_TNS_PACKET_SIZE)"

lemma write_data:
  assumes "live_net n" "fits_client n p"
  shows "write_packet Data p n = (Inr (), n\<lparr>outbound := outbound n @ data_frame p\<rparr>)"
proof -
  have "8 + length p \<le> MAX_TNS_PACKET_SIZE" "\<not> needs_split Data p n"
    using assms(2) by (auto simp: fits_client_def needs_split_def OCI_MAX_PACKET_def MAX_TNS_PACKET_SIZE_def split: if_splits)
  with assms(1) show ?thesis
    by (simp add: live_net_def write_packet_def write_packet_flags_def emit_one_packet_def io_write_def
        data_frame_def frame_header_def)
qed

definition data_packet :: "bytes \<Rightarrow> packet" where
  "data_packet p = \<lparr>packet_type = Data, pflags = 0, payload = p\<rparr>"

definition readable :: "bytes \<Rightarrow> bool" where
  "readable p \<longleftrightarrow> frame_readable Large (8 + length p) \<and> \<not> is_fetch_frame p"

lemma short_readable: "length p < 1000 \<Longrightarrow> \<not> is_fetch_frame p \<Longrightarrow> readable p"
  by (simp add: readable_def frame_readable_def frame_fits_def looks_short_def MAX_TNS_PACKET_SIZE_def)

lemma read_data_frame:
  assumes "sdu n = Large" "readable p" "inbound n = data_frame p @ rest"
  shows "read_packet n = (Inr (data_packet p), n\<lparr>inbound := rest\<rparr>)"
  using read_packet_frame [of n p Data 0 rest] assms
  by (simp add: readable_def data_frame_def complete_fetch_def data_packet_def)

section \<open>Properties\<close>

text \<open>A connection at rest, for the witnesses.\<close>

definition conn :: "sdu_mode \<Rightarrow> bool \<Rightarrow> bytes \<Rightarrow> bytes \<Rightarrow> tns" where
  "conn m thick inb outb = \<lparr>inbound = inb, stalls = False, idle_timeout = None,
     write_error = None, outbound = outb, sdu = m, oci_client = thick\<rparr>"

lemma conn_simps [simp]:
  "inbound (conn m t i u) = i" "outbound (conn m t i u) = u" "sdu (conn m t i u) = m"
  "oci_client (conn m t i u) = t" "write_error (conn m t i u) = None"
  "conn m t i u\<lparr>outbound := u'\<rparr> = conn m t i u'" "conn m t i u\<lparr>inbound := i'\<rparr> = conn m t i' u"
  by (simp_all add: conn_def)

text \<open>
  C27.  A packet written in either header mode and not split is read back whole by a peer in
  the same mode, with the stream left at the next packet, except a large header whose
  length would be taken for a short one, and a Fetch body that the reader completes.
\<close>

theorem write_then_read_packet:
  assumes "write_packet_flags t flags p a = (Inr (), a')" "\<not> needs_split t p a"
    and "sdu b = sdu a" "inbound b = drop (length (outbound a)) (outbound a') @ rest"
    and "sdu a = Large \<longrightarrow> \<not> looks_short (8 + length p)"
    and "t = Data \<and> is_fetch_frame p \<longrightarrow> oci_client b"
  shows "read_packet b = (Inr \<lparr>packet_type = t, pflags = flags, payload = p\<rparr>, b\<lparr>inbound := rest\<rparr>)"
proof -
  have "emit_one_packet t flags p a = (Inr (), a')"
    using assms(1,2) by (simp add: write_packet_flags_def)
  note e = emit_one_packet_Inr [OF this]
  have "read_packet b = (let_ok (complete_fetch t p) (\<lambda>p. ok \<lparr>packet_type = t, pflags = flags, payload = p\<rparr>)) (b\<lparr>inbound := rest\<rparr>)"
    using e assms(3-5) by (intro read_packet_frame) (simp_all add: frame_readable_def)
  with assms(6) show ?thesis
    by (auto simp: complete_fetch_def)
qed

theorem write_then_read_packet_witness:
  "read_packet (conn Large False [0, 0, 0, 11, 12, 0x20, 0, 0, 1, 0, 2, 7, 7] [])
     = (Inr \<lparr>packet_type = Marker, pflags = 0x20, payload = [1, 0, 2]\<rparr>, conn Large False [7, 7] [])"
proof -
  have w: "write_packet_flags Marker 0x20 [1, 0, 2] (conn Large True [] [5])
      = (Inr (), conn Large True [] [5, 0, 0, 0, 11, 12, 0x20, 0, 0, 1, 0, 2])"
    by (simp add: write_packet_flags_def needs_split_def emit_one_packet_def io_write_def be32_def
        MAX_TNS_PACKET_SIZE_def)
  show ?thesis
    using write_then_read_packet [OF w, of "conn Large False [0, 0, 0, 11, 12, 0x20, 0, 0, 1, 0, 2, 7, 7] []" "[7, 7]"]
    by (simp add: needs_split_def looks_short_def)
qed

text \<open>
  C28.  A message above the packet limit, sent to an OCI client, goes out as consecutive
  DATA packets of at most 8111 bytes, each with the message's data flags; a large-mode
  reader gets exactly those packets and their bodies joined are the message.
\<close>

theorem oci_split_reassembles:
  assumes "write_packet_flags t flags p a = (Inr (), a')" "needs_split t p a"
    and "sdu b = Large" "oci_client b"
    and "inbound b = drop (length (outbound a)) (outbound a') @ rest"
  shows "\<exists>ps. read_packets ((length p - 2 + (OCI_CHUNK - 1)) div OCI_CHUNK) b = (Inr ps, b\<lparr>inbound := rest\<rparr>)
    \<and> concat (map (\<lambda>q. drop 2 (payload q)) ps) = drop 2 p
    \<and> (\<forall>q \<in> set ps. packet_type q = Data \<and> pflags q = flags \<and> take 2 (payload q) = take 2 p
         \<and> 8 + length (payload q) \<le> 8111)"
proof -
  have "outbound a' = outbound a @ oci_frames t flags (take 2 p) (drop 2 p)"
    using assms(1,2) by (auto simp: write_packet_flags_def io_write_def split: option.splits)
  with assms(5) have "inbound b = oci_frames t flags (take 2 p) (drop 2 p) @ rest" by simp
  moreover have "length (take 2 p) = 2" "t = Data"
    using assms(2) by (simp_all add: needs_split_def)
  ultimately show ?thesis
    using read_oci_frames [OF _ assms(3,4), of "take 2 p" t flags "drop 2 p" rest]
    by (simp add: OCI_MAX_PACKET_def)
qed

theorem oci_split_reassembles_witness:
  "\<exists>ps. read_packets 2 (conn Large True (oci_frames Data 0 [0, 0] (replicate 9000 7)) [])
       = (Inr ps, conn Large True [] [])
     \<and> concat (map (\<lambda>q. drop 2 (payload q)) ps) = replicate 9000 7"
proof -
  let ?p = "[0, 0] @ replicate 9000 (7 :: u8)"
  have s: "needs_split Data ?p (conn Large True [] [])"
    by (simp add: needs_split_def OCI_MAX_PACKET_def)
  then have w: "write_packet_flags Data 0 ?p (conn Large True [] [])
      = (Inr (), conn Large True [] (oci_frames Data 0 [0, 0] (replicate 9000 7)))"
    by (simp add: write_packet_flags_def io_write_def)
  show ?thesis
    using oci_split_reassembles [OF w s, of "conn Large True (oci_frames Data 0 [0, 0] (replicate 9000 7)) []" "[]"]
    by (auto simp: OCI_CHUNK_def OCI_MAX_PACKET_def)
qed

text \<open>
  C29.  A Fetch request whose declared length stops short of its cursor id or row count
  (anywhere from its sequence byte on) is read whole, in both header modes, and the
  stream is left exactly behind it.
\<close>

theorem under_declared_fetch_completed:
  assumes "13 \<le> len" "len \<le> 8 + length (fetch_frame q c n)" "\<not> oci_client s"
    and "inbound s = frame_header Small Data flags len @ fetch_frame q c n @ rest"
  shows "read_packet s
    = (Inr \<lparr>packet_type = Data, pflags = flags, payload = fetch_frame q c n\<rparr>, s\<lparr>inbound := rest\<rparr>)"
proof -
  let ?w = "fetch_frame q c n" and ?k = "len - 8"
  have "length ?w \<le> 15"
    using ub4_shape [of c] ub4_shape [of n] by (auto simp: fetch_frame_def)
  with assms(2) have len: "8 \<le> len" "len \<le> 65535" "len \<le> MAX_TNS_PACKET_SIZE"
    using assms(1) by (simp_all add: MAX_TNS_PACKET_SIZE_def)
  let ?h = "frame_header Small Data flags len"
  have h: "fst (packet_length ?h (sdu s)) = len" "?h ! 4 = packet_code Data" "?h ! 5 = flags" "length ?h = 8"
    using packet_length_legacy [OF len(1,2)] by (simp_all add: frame_header_def nth_append)
  let ?s = "s\<lparr>inbound := drop ?k ?w @ rest\<rparr>"
  have r1: "read_exact 8 s = (Inr ?h, s\<lparr>inbound := ?w @ rest\<rparr>)"
    using assms(4) h(4) by (intro read_exact_append) simp_all
  have k: "5 \<le> ?k" "?k \<le> length ?w" using assms(1,2) by simp_all
  have r2: "read_exact ?k (s\<lparr>inbound := ?w @ rest\<rparr>) = (Inr (take ?k ?w), ?s)"
    using k read_exact_append [of "s\<lparr>inbound := ?w @ rest\<rparr>" "take ?k ?w" "drop ?k ?w @ rest" ?k] by simp
  have r3: "complete_fetch Data (take ?k ?w) ?s = (Inr ?w, s\<lparr>inbound := rest\<rparr>)"
    using complete_fetch_frame [OF k, of ?s rest] assms(3) by simp
  from read_packet_header [OF r1 _ _ h(2) r2] h(1,3) len r3 show ?thesis by simp
qed

theorem under_declared_fetch_completed_witness:
  "read_packet (conn Large False (frame_header Small Data 0 15 @ fetch_frame 9 1 100 @ [7]) [])
     = (Inr \<lparr>packet_type = Data, pflags = 0, payload = fetch_frame 9 1 100\<rparr>, conn Large False [7] [])"
  using under_declared_fetch_completed [of 15 9 1 100 "conn Large False (frame_header Small Data 0 15 @ fetch_frame 9 1 100 @ [7]) []" 0 "[7]"]
  by (simp add: fetch_frame_def write_ub4_def appends)

text \<open>
  Whatever a peer sends, a packet that is read is made of the bytes of the stream in
  their order, an eight-byte header carrying its type and flags and then its payload,
  leaves the rest unread, and holds no more than the maximum packet size.
\<close>

theorem read_packet_takes_what_it_returns:
  assumes "read_packet s = (Inr p, s')"
  shows "\<exists>h. inbound s = h @ payload p @ inbound s' \<and> length h = 8
    \<and> h ! 4 = packet_code (packet_type p) \<and> h ! 5 = pflags p
    \<and> length (payload p) \<le> MAX_TNS_PACKET_SIZE"
proof -
  let ?len = "\<lambda>h u. fst (packet_length h (sdu u))"
  obtain h u where h: "read_exact 8 s = (Inr h, u)"
    and b: "(let len = ?len h u in
     (if \<not> (8 \<le> len \<and> len \<le> MAX_TNS_PACKET_SIZE)
      then fail (Failed (Protocol (''invalid tns packet length '' @ show_nat len)))
      else (case packet_type_of (h ! 4) of
          Inl e \<Rightarrow> fail (Failed e)
        | Inr t \<Rightarrow>
            let_ok (if 0 < len - 8 then read_exact (len - 8) else ok []) (\<lambda>p. let_ok (complete_fetch t p) (\<lambda>p. ok \<lparr>packet_type = t, pflags = h ! 5, payload = p\<rparr>)))) u) = (Inr p, s')"
    using assms unfolding read_packet_def then_Inr_conv(1) [of "read_exact 8"] by blast
  from b have ok: "8 \<le> ?len h u" "?len h u \<le> MAX_TNS_PACKET_SIZE"
    by (auto simp: Let_def split: if_splits)
  from b ok obtain t where t: "h ! 4 = packet_code t" "packet_type_of (h ! 4) = Inr t"
    by (cases "packet_type_of (h ! 4)") (auto simp: Let_def packet_type_of_Inr)
  from b ok t(2) have
    "(let_ok (if 0 < ?len h u - 8 then read_exact (?len h u - 8) else ok []) (\<lambda>p. let_ok (complete_fetch t p) (\<lambda>p. ok \<lparr>packet_type = t, pflags = h ! 5, payload = p\<rparr>))) u = (Inr p, s')"
    by (simp only: Let_def simp_thms if_False sum.case)
  then obtain q v r where
    q: "(if 0 < ?len h u - 8 then read_exact (?len h u - 8) else ok []) u = (Inr q, v)"
    and r: "complete_fetch t q v = (Inr r, s')" and p: "p = \<lparr>packet_type = t, pflags = h ! 5, payload = r\<rparr>"
    by (auto simp only: then_Inr_conv(1) ok_apply prod.inject sum.inject)
  have q': "inbound u = q @ inbound v \<and> length q \<le> MAX_TNS_PACKET_SIZE"
    using q ok(2) by (auto dest!: read_exact_Inr split: if_splits)
  from complete_fetch_Inr [OF r] q' read_exact_Inr [OF h] t(1) p show ?thesis by auto
qed

theorem read_packet_takes_what_it_returns_witness:
  "\<exists>h. [0, 9, 0, 0, 6, 1, 0, 0, 5, 8 :: u8] = h @ [5] @ [8] \<and> length h = 8
    \<and> h ! 4 = packet_code Data \<and> h ! 5 = (1 :: u8) \<and> length [5 :: u8] \<le> MAX_TNS_PACKET_SIZE"
proof -
  have "read_packet (conn Small False [0, 9, 0, 0, 6, 1, 0, 0, 5, 8] [])
      = (Inr \<lparr>packet_type = Data, pflags = 1, payload = [5]\<rparr>, conn Small False [8] [])"
    by (simp add: read_packet_def read_exact_def packet_length_def nat_of_be_def MAX_TNS_PACKET_SIZE_def
        packet_type_of_def complete_fetch_def is_fetch_frame_def)
  from read_packet_takes_what_it_returns [OF this] show ?thesis by simp
qed

text \<open>
  The ACCEPT payload has the 61 bytes its own length field declares (with the
  header), carries the given version first, 8192 as both 32-bit sizes, and no other
  bit that would turn on fast authentication or end-of-response markers.
\<close>

theorem accept_response_layout:
  "length (build_accept_response v) = 61
   \<and> from_be (take 2 (build_accept_response v)) = v
   \<and> nat_of_be (take 2 (drop 12 (build_accept_response v))) = 8 + length (build_accept_response v)
   \<and> from_be (take 4 (drop 24 (build_accept_response v))) = (8192 :: u32)
   \<and> drop 32 (build_accept_response v) = replicate 29 0"
proof -
  have r: "replicate 61 (0 :: u8) = [0,0,0,0,0,0,0,0,0,0,0,0,0,0,0,0,0,0,0,0,0,0,0,0,0,0,0,0,0,0,
      0,0,0,0,0,0,0,0,0,0,0,0,0,0,0,0,0,0,0,0,0,0,0,0,0,0,0,0,0,0,0]"
    by code_simp
  have z: "replicate 29 (0 :: u8) = [0,0,0,0,0,0,0,0,0,0,0,0,0,0,0,0,0,0,0,0,0,0,0,0,0,0,0,0,0]"
    by code_simp
  have e: "build_accept_response v = be16 v @ [8, 0x41, 0, 0, 0, 0, 1, 0, 0, 0, 0, 69, 0x41, 0x41,
      0, 0, 0, 0, 0, 0, 0, 0, 0, 0, 0x20, 0, 0, 0, 0x20, 0] @ replicate 29 0"
    unfolding build_accept_response_def r z by (simp add: blit_def be16_def be32_def)
  have "from_be [0, 0, 0x20, 0] = (8192 :: u32)"
    by (simp add: from_be_def nat_of_be_def)
  then show ?thesis
    unfolding e by (simp add: nat_of_be_def)
qed

end
