(* ===== verification/Ttc.thy ===== *)
theory Ttc
  imports Rust_Std
begin

text \<open>
  TTC function codes and their dispatch, and the screen for SQL constructs that are
  refused, from \<^verbatim>\<open>src/src/ttc.rs\<close>.
\<close>

definition MSG_FUNCTION :: u8 where "MSG_FUNCTION = 0x03"
definition MSG_PIGGYBACK :: u8 where "MSG_PIGGYBACK = 0x11"
definition MSG_PROTOCOL :: u8 where "MSG_PROTOCOL = 0x01"
definition MSG_DATA_TYPES :: u8 where "MSG_DATA_TYPES = 0x02"

datatype function_code = Reexecute | Fetch | Logoff | Commit | Rollback | Oversion
  | ReexecuteAndFetch | Execute | CloseCursors | AuthPhaseTwo | AuthPhaseOne
  | SetEndToEnd | Ping | SetSchema | OtherFunction u8

definition function_of :: "u8 \<Rightarrow> function_code" where
  "function_of c =
     (if c = 0x04 then Reexecute
      else if c = 0x05 then Fetch
      else if c = 0x09 then Logoff
      else if c = 0x0e then Commit
      else if c = 0x0f then Rollback
      else if c = 0x3b then Oversion
      else if c = 0x4e then ReexecuteAndFetch
      else if c = 0x5e then Execute
      else if c = 0x69 then CloseCursors
      else if c = 0x73 then AuthPhaseTwo
      else if c = 0x76 then AuthPhaseOne
      else if c = 0x87 then SetEndToEnd
      else if c = 0x93 then Ping
      else if c = 0x98 then SetSchema
      else OtherFunction c)"

fun function_byte :: "function_code \<Rightarrow> u8" where
  "function_byte (OtherFunction c) = c"
| "function_byte Reexecute = 0x04"
| "function_byte Fetch = 0x05"
| "function_byte Logoff = 0x09"
| "function_byte Commit = 0x0e"
| "function_byte Rollback = 0x0f"
| "function_byte Oversion = 0x3b"
| "function_byte ReexecuteAndFetch = 0x4e"
| "function_byte Execute = 0x5e"
| "function_byte CloseCursors = 0x69"
| "function_byte AuthPhaseTwo = 0x73"
| "function_byte AuthPhaseOne = 0x76"
| "function_byte SetEndToEnd = 0x87"
| "function_byte Ping = 0x93"
| "function_byte SetSchema = 0x98"

datatype dispatch = DoExecute | DoFetch | DoLogoff | DoTransaction | DoOversion | DoNoOp
  | Unimplemented u32 string

definition unimplemented_detail :: "u8 \<Rightarrow> string" where
  "unimplemented_detail c =
     (if c \<in> {0x60, 0x61, 0x62, 0x63, 0x64, 0x65, 0x66, 0x67, 0x68, 0x6a, 0x6b, 0x6c}
      then ''LOB locators are not implemented''
      else if c \<in> {0x2b, 0x2f, 0x47} then ''SYS_REFCURSOR / nested cursor is not implemented''
      else ''feature not implemented'')"

fun dispatch_of :: "function_code \<Rightarrow> dispatch" where
  "dispatch_of Execute = DoExecute"
| "dispatch_of Reexecute = DoExecute"
| "dispatch_of ReexecuteAndFetch = DoExecute"
| "dispatch_of Fetch = DoFetch"
| "dispatch_of Logoff = DoLogoff"
| "dispatch_of Commit = DoTransaction"
| "dispatch_of Rollback = DoTransaction"
| "dispatch_of Oversion = DoOversion"
| "dispatch_of Ping = DoNoOp"
| "dispatch_of CloseCursors = DoNoOp"
| "dispatch_of SetEndToEnd = DoNoOp"
| "dispatch_of SetSchema = DoNoOp"
| "dispatch_of AuthPhaseOne =
     Unimplemented 1017 ''authentication function after session is established''"
| "dispatch_of AuthPhaseTwo =
     Unimplemented 1017 ''authentication function after session is established''"
| "dispatch_of (OtherFunction c) = Unimplemented 3001 (unimplemented_detail c)"

datatype backend_kind = PostgresBackend | MariaDbBackend

fun join_words :: "string list \<Rightarrow> string" where
  "join_words [] = []"
| "join_words [w] = w"
| "join_words (w # ws) = w @ '' '' @ join_words ws"

definition reject_unsupported_sql :: "string \<Rightarrow> backend_kind \<Rightarrow> (u32 \<times> string) option" where
  "reject_unsupported_sql sql backend =
     (let compact = join_words (split_whitespace (to_ascii_uppercase sql)) in
      if contains compact ''SYS_REFCURSOR'' \<or> contains compact ''REF CURSOR''
      then Some (3001, ''SYS_REFCURSOR is not implemented'')
      else if backend = PostgresBackend \<and> (contains compact ''CREATE PACKAGE''
        \<or> contains compact ''CREATE OR REPLACE PACKAGE'' \<or> contains compact ''ALTER PACKAGE'')
      then Some (3001, ''PL/SQL packages are not implemented'')
      else if contains compact ''PIPELINED''
      then Some (3001, ''pipelined functions are not implemented'')
      else if contains compact ''BULK COLLECT'' \<or> contains compact '' FORALL ''
      then Some (3001, ''BULK COLLECT / FORALL is not implemented'')
      else if contains compact ''DBMS_LOB.READ'' \<or> contains compact ''DBMS_LOB.WRITE''
        \<or> contains compact ''DBMS_LOB.OPEN'' \<or> contains compact ''DBMS_LOB.CLOSE''
      then Some (3001, ''LOB locators are not implemented'')
      else None)"

lemma function_of_byte: "function_of (function_byte f) = (case f of OtherFunction c \<Rightarrow> function_of c | _ \<Rightarrow> f)"
  by (cases f) (simp_all add: function_of_def)

lemma function_byte_of [simp]: "function_byte (function_of c) = c"
  by (auto simp: function_of_def)

lemma function_of_inj [simp]: "function_of a = function_of b \<longleftrightarrow> a = b"
  using function_byte_of by metis

section \<open>Properties\<close>

text \<open>
  Of the 256 function bytes exactly twelve are acted on, the four housekeeping ones
  (close cursors, end-to-end metrics, ping, set schema) without any work; every other byte
  is answered with an Oracle error, 1017 for a late authentication and 3001 otherwise.
\<close>

theorem dispatch_total:
  "dispatch_of (function_of c) =
     (if c \<in> {0x04, 0x4e, 0x5e} then DoExecute
      else if c = 0x05 then DoFetch
      else if c = 0x09 then DoLogoff
      else if c \<in> {0x0e, 0x0f} then DoTransaction
      else if c = 0x3b then DoOversion
      else if c \<in> {0x69, 0x87, 0x93, 0x98} then DoNoOp
      else if c \<in> {0x73, 0x76}
      then Unimplemented 1017 ''authentication function after session is established''
      else Unimplemented 3001 (unimplemented_detail c))"
  by (simp add: function_of_def)

end
