(* ===== verification/Ops.thy ===== *)
theory Ops
  imports Rust_Std
begin

text \<open>
  Who may list and kill sessions over the health port, from \<^verbatim>\<open>src/src/ops.rs\<close>, with the
  parser of IP addresses of the Rust standard library it relies on.
\<close>

section \<open>IP addresses\<close>

text \<open>A parser takes a prefix of the text or fails without taking anything.\<close>

type_synonym 'a parser = "string \<Rightarrow> ('a \<times> string) option"

definition hex_digit :: "char \<Rightarrow> nat option" where
  "hex_digit c =
     (if is_ascii_digit c then Some (code c - 48)
      else if 97 \<le> code c \<and> code c \<le> 102 then Some (code c - 87)
      else if 65 \<le> code c \<and> code c \<le> 70 then Some (code c - 55)
      else None)"

definition radix_digit :: "nat \<Rightarrow> char \<Rightarrow> nat option" where
  "radix_digit radix c = (case hex_digit c of
       Some d \<Rightarrow> if d < radix then Some d else None
     | None \<Rightarrow> None)"

text \<open>\<open>digits_from radix s\<close>: the digits \<open>s\<close> starts with and the rest.\<close>

fun digits_from :: "nat \<Rightarrow> string \<Rightarrow> nat list \<times> string" where
  "digits_from radix [] = ([], [])"
| "digits_from radix (c # s) = (case radix_digit radix c of
       Some d \<Rightarrow> (let (ds, r) = digits_from radix s in (d # ds, r))
     | None \<Rightarrow> ([], c # s))"

definition digits_value :: "nat \<Rightarrow> nat list \<Rightarrow> nat" where
  "digits_value radix ds = foldl (\<lambda>v d. v * radix + d) 0 ds"

definition read_number :: "nat \<Rightarrow> nat \<Rightarrow> bool \<Rightarrow> nat \<Rightarrow> nat parser" where
  "read_number radix max_digits allow_zero_prefix bound s =
     (let (ds, r) = digits_from radix s in
      if ds = [] \<or> max_digits < length ds then None
      else if \<not> allow_zero_prefix \<and> hd ds = 0 \<and> 1 < length ds then None
      else if bound \<le> digits_value radix ds then None
      else Some (digits_value radix ds, r))"

definition read_char :: "char \<Rightarrow> unit parser" where
  "read_char c s = (case s of [] \<Rightarrow> None | x # r \<Rightarrow> if x = c then Some ((), r) else None)"

definition read_octet :: "nat \<Rightarrow> nat parser" where
  "read_octet i s = (case (if i = 0 then Some ((), s) else read_char (CHR ''.'') s) of
       None \<Rightarrow> None
     | Some (_, r) \<Rightarrow> read_number 10 3 False 256 r)"

fun read_octets :: "nat \<Rightarrow> nat \<Rightarrow> nat list parser" where
  "read_octets i 0 s = Some ([], s)"
| "read_octets i (Suc n) s = (case read_octet i s of
       None \<Rightarrow> None
     | Some (a, r) \<Rightarrow> (case read_octets (Suc i) n r of
           None \<Rightarrow> None
         | Some (as, r') \<Rightarrow> Some (a # as, r')))"

definition read_ipv4 :: "nat list parser" where
  "read_ipv4 = read_octets 0 4"

text \<open>
  Up to \<open>n\<close> of the eight sixteen-bit groups from index \<open>i\<close> on, a dotted quad counting for
  two where two remain; the groups, whether a dotted quad ended them, and the rest.
\<close>

definition after_colon :: "nat \<Rightarrow> string \<Rightarrow> string option" where
  "after_colon i s = (if i = 0 then Some s else map_option snd (read_char (CHR '':'') s))"

fun read_groups :: "nat \<Rightarrow> nat \<Rightarrow> string \<Rightarrow> nat list \<times> bool \<times> string" where
  "read_groups i 0 s = ([], False, s)"
| "read_groups i (Suc n) s = (case after_colon i s of
       None \<Rightarrow> ([], False, s)
     | Some t \<Rightarrow>
         (case (if 0 < n then read_ipv4 t else None) of
             Some (q, r) \<Rightarrow> ([q ! 0 * 256 + q ! 1, q ! 2 * 256 + q ! 3], True, r)
           | None \<Rightarrow>
               (case read_number 16 4 True 65536 t of
                   None \<Rightarrow> ([], False, s)
                 | Some (g, r) \<Rightarrow>
                     (let (gs, v4, r') = read_groups (Suc i) n r in (g # gs, v4, r')))))"

definition read_ipv6 :: "nat list parser" where
  "read_ipv6 s = (let (h, v4, r) = read_groups 0 8 s in
     if length h = 8 then Some (h, r)
     else if v4 then None
     else (case read_char (CHR '':'') r of
         None \<Rightarrow> None
       | Some (_, r1) \<Rightarrow> (case read_char (CHR '':'') r1 of
             None \<Rightarrow> None
           | Some (_, r2) \<Rightarrow>
               (let (t, _, r3) = read_groups 0 (8 - (length h + 1)) r2 in
                Some (h @ replicate (8 - length h - length t) 0 @ t, r3)))))"

datatype ip_addr = V4 "nat list" | V6 "nat list"

definition parse_ip :: "string \<Rightarrow> ip_addr option" where
  "parse_ip s = (case read_ipv4 s of
       Some (q, r) \<Rightarrow> if r = [] then Some (V4 q)
         else None
     | None \<Rightarrow> (case read_ipv6 s of
         Some (g, r) \<Rightarrow> if r = [] then Some (V6 g) else None
       | None \<Rightarrow> None))"

fun is_loopback :: "ip_addr \<Rightarrow> bool" where
  "is_loopback (V4 q) = (q ! 0 = 127)"
| "is_loopback (V6 g) = (g = [0, 0, 0, 0, 0, 0, 0, 1])"

section \<open>The health port\<close>

record health_auth =
  bind_addr :: string
  token :: "string option"

definition parse_bind_host :: "string \<Rightarrow> string" where
  "parse_bind_host addr = (case strip_prefix addr ''['' of
       Some rest \<Rightarrow> hd (split_char (CHR '']'') rest)
     | None \<Rightarrow> (case rsplit_once addr (CHR '':'') of Some (h, _) \<Rightarrow> h | None \<Rightarrow> addr))"

definition is_bracket :: "char \<Rightarrow> bool" where
  "is_bracket c \<longleftrightarrow> c = CHR ''['' \<or> c = CHR '']''"

definition trim_brackets :: "string \<Rightarrow> string" where
  "trim_brackets s = rev (dropWhile is_bracket (rev (dropWhile is_bracket s)))"

definition is_loopback_bind :: "string \<Rightarrow> bool" where
  "is_loopback_bind addr =
     (let host = trim_brackets (trim (parse_bind_host addr)) in
      if eq_ignore_ascii_case host ''localhost'' \<or> host = ''::1'' then True
      else (case parse_ip host of Some ip \<Rightarrow> is_loopback ip | None \<Rightarrow> False))"

definition sessions_require_token :: "health_auth \<Rightarrow> bool" where
  "sessions_require_token h \<longleftrightarrow> \<not> is_loopback_bind (bind_addr h)"

definition token_matches :: "string option \<Rightarrow> string \<Rightarrow> bool" where
  "token_matches header_line tok = (case header_line of
       None \<Rightarrow> False
     | Some raw \<Rightarrow>
         let h = trim raw in
         (case map_option trim (or_opt (strip_prefix h ''Authorization:'') (strip_prefix h ''authorization:'')) of
             Some rest \<Rightarrow>
               trim (unwrap_or rest (or_opt (strip_prefix rest ''Bearer '') (strip_prefix rest ''bearer ''))) = tok
           | None \<Rightarrow>
               map_option trim (or_opt (strip_prefix h ''X-Dbsaci-Token:'') (strip_prefix h ''x-dbsaci-token:''))
                 = Some tok))"

definition authorize_sessions :: "health_auth \<Rightarrow> string option \<Rightarrow> bool" where
  "authorize_sessions h header_line =
     (if \<not> sessions_require_token h
      then (case token h of None \<Rightarrow> True | Some tok \<Rightarrow> token_matches header_line tok)
      else (case token h of None \<Rightarrow> False | Some tok \<Rightarrow> token_matches header_line tok))"

section \<open>Dotted quads\<close>

lemma digits_from_append:
  "list_all is_ascii_digit s \<Longrightarrow> digits_from 10 r = ([], r) \<Longrightarrow>
     digits_from 10 (s @ r) = (map digit_val s, r)"
proof (induction s)
  case (Cons c s)
  from Cons.prems(1) have "radix_digit 10 c = Some (digit_val c)"
    by (auto simp: radix_digit_def hex_digit_def digit_val_def is_ascii_digit_def)
  with Cons show ?case by simp
qed simp

lemma digits_value_show [simp]: "digits_value 10 (map digit_val (show_nat n)) = n"
  using parse_show_nat [of n] by (simp add: digits_value_def parse_digits_def foldl_map)

lemma read_number_show:
  assumes "n < 256" "digits_from 10 r = ([], r)"
  shows "read_number 10 3 False 256 (show_nat n @ r) = Some (n, r)"
proof -
  have "length (show_nat n) \<le> 3" using length_show_nat [of n 2] assms(1) by simp
  moreover have "\<not> (hd (map digit_val (show_nat n)) = 0 \<and> 1 < length (map digit_val (show_nat n)))"
    by (cases "n = 0") (auto simp: show_nat_hd hd_map show_nat.simps [of 0])
  ultimately show ?thesis
    using assms by (simp add: read_number_def digits_from_append show_nat_digits)
qed

definition quad :: "nat \<Rightarrow> nat \<Rightarrow> nat \<Rightarrow> nat \<Rightarrow> string" where
  "quad a b c d = show_nat a @ ''.'' @ show_nat b @ ''.'' @ show_nat c @ ''.'' @ show_nat d"

lemma radix_dot [simp]: "radix_digit 10 (CHR ''.'') = None"
  by (simp add: radix_digit_def hex_digit_def is_ascii_digit_def code_def)

lemma parse_quad:
  assumes "a < 256" "b < 256" "c < 256" "d < 256"
  shows "parse_ip (quad a b c d) = Some (V4 [a, b, c, d])"
proof -
  have "read_number 10 3 False 256 (show_nat d) = Some (d, [])"
    using read_number_show [OF assms(4), of "[]"] by simp
  with assms have o: "read_octets 0 (Suc (Suc (Suc (Suc 0)))) (quad a b c d) = Some ([a, b, c, d], [])"
    by (simp add: quad_def read_octet_def read_char_def read_number_show)
  have v: "read_ipv4 = read_octets 0 (Suc (Suc (Suc (Suc 0))))"
    by (simp only: read_ipv4_def numeral_eq_Suc pred_numeral_simps BitM.simps)
  show ?thesis
    unfolding parse_ip_def v o by simp
qed

definition host_char :: "char \<Rightarrow> bool" where
  "host_char c \<longleftrightarrow> is_ascii_digit c \<or> c = CHR ''.''"

lemma host_char_quad: "list_all host_char (quad a b c d)"
proof -
  have "list_all host_char (show_nat n)" for n
    using show_nat_digits [of n] by (simp add: list_all_iff host_char_def)
  then show ?thesis by (simp add: quad_def) (simp add: host_char_def)
qed

lemma host_char_facts:
  "host_char c \<Longrightarrow> is_ascii_graphic c \<and> \<not> is_bracket c \<and> c \<noteq> CHR '':'' \<and> \<not> is_ascii_alphabetic c"
  by (auto simp: host_char_def is_ascii_digit_def is_ascii_graphic_def is_bracket_def
      is_ascii_alphabetic_def is_ascii_uppercase_def is_ascii_lowercase_def code_def)

lemma split_once_char:
  "c \<notin> set s \<Longrightarrow> split_once (s @ c # r) [c] = Some (s, r)"
  by (induction s) auto

lemma bind_host_quad: "parse_bind_host (quad a b c d @ '':'' @ show_nat p) = quad a b c d"
proof -
  have "CHR '':'' \<notin> set (rev (show_nat p))"
    using show_nat_digits [of p] by (auto simp: list_all_iff is_ascii_digit_def code_def)
  then have "rsplit_once (quad a b c d @ '':'' @ show_nat p) (CHR '':'') = Some (quad a b c d, show_nat p)"
    by (simp add: rsplit_once_def split_once_char)
  moreover have "strip_prefix (quad a b c d @ '':'' @ show_nat p) ''['' = None"
  proof -
    obtain x s where x: "quad a b c d = x # s" by (cases "show_nat a") (auto simp: quad_def)
    then have "host_char x" using host_char_quad [of a b c d] by simp
    then have "x \<noteq> CHR ''[''" using host_char_facts [of x] by (auto simp: is_bracket_def)
    then show ?thesis by (simp add: strip_prefix_def x)
  qed
  ultimately show ?thesis by (simp add: parse_bind_host_def)
qed

lemma dropWhile_none: "list_all (\<lambda>c. \<not> P c) s \<Longrightarrow> dropWhile P s = s"
  by (cases s) simp_all

lemma loopback_quad:
  assumes "a < 256" "b < 256" "c < 256" "d < 256"
  shows "is_loopback_bind (quad a b c d @ '':'' @ show_nat p) \<longleftrightarrow> a = 127"
proof -
  let ?q = "quad a b c d"
  have chars: "x \<in> set ?q \<Longrightarrow> is_ascii_graphic x \<and> \<not> is_bracket x \<and> x \<noteq> CHR '':'' \<and> \<not> is_ascii_alphabetic x" for x
    using host_char_quad [of a b c d] host_char_facts [of x] by (simp add: list_all_iff)
  then have "trim ?q = ?q" "trim_brackets ?q = ?q"
    by (simp_all add: trim_graphic list_all_iff trim_brackets_def dropWhile_none)
  moreover have "?q \<noteq> ''::1''" using chars [of "CHR '':''"] by auto
  moreover have "\<not> eq_ignore_ascii_case ?q ''localhost''"
  proof
    assume e: "eq_ignore_ascii_case ?q ''localhost''"
    have "map to_ascii_lower ?q = ?q"
      using chars by (simp add: map_idI to_ascii_lower_def is_ascii_alphabetic_def)
    with e have "?q = ''localhost''"
      by (simp add: eq_ignore_ascii_case_def to_ascii_lowercase_def to_ascii_lower_def is_ascii_uppercase_def code_def)
    with chars [of "CHR ''l''"] show False
      by (simp add: is_ascii_alphabetic_def is_ascii_lowercase_def code_def)
  qed
  ultimately show ?thesis
    unfolding is_loopback_bind_def bind_host_quad by (simp add: parse_quad [OF assms])
qed

section \<open>Properties\<close>



end
