(* ===== verification/Interfaces.thy ===== *)
theory Interfaces
  imports Prelude
begin

text \<open>
  Contracts that more than one component provides: a table looked up by a key after
  insertions, with keys taken up to a normalisation.  The components interpret them on
  the source's tables.
\<close>

locale keyed_table =
  fixes key :: "'k \<Rightarrow> 'n"
    and ins :: "'k \<Rightarrow> 'v \<Rightarrow> 's \<Rightarrow> 's"
    and look :: "'s \<Rightarrow> 'k \<Rightarrow> 'v option"
  assumes look_ins: "look (ins k v s) j = (if key j = key k then Some v else look s j)"
begin

definition ins_all :: "('k \<times> 'v) list \<Rightarrow> 's \<Rightarrow> 's" where
  "ins_all kvs = fold (\<lambda>(k, v). ins k v) kvs"

text \<open>After any number of insertions the last one under the same key counts.\<close>

lemma look_ins_all:
  "look (ins_all kvs s) j
     = or_opt (map_option snd (find (\<lambda>(k, v). key k = key j) (rev kvs))) (look s j)"
proof (induction kvs arbitrary: s)
  case Nil
  then show ?case by (simp add: ins_all_def)
next
  case (Cons kv kvs)
  obtain k v where kv: "kv = (k, v)" by force
  have f: "find P (xs @ [x]) = or_opt (find P xs) (if P x then Some x else None)" for P xs and x :: "'k \<times> 'v"
    by (induction xs) auto
  have "look (ins_all (kv # kvs) s) j = look (ins_all kvs (ins k v s)) j"
    by (simp add: ins_all_def kv)
  also have "\<dots> = or_opt (map_option snd (find (\<lambda>(k, v). key k = key j) (rev kvs))) (look (ins k v s) j)"
    by (rule Cons.IH)
  finally show ?case
    by (auto simp: f kv look_ins or_opt_def split: option.splits)
qed

lemma ins_overrides: "key k = key k' \<Longrightarrow> look (ins k v (ins k' w s)) j = look (ins k v s) j"
  by (simp add: look_ins)

lemma ins_commutes:
  "key k \<noteq> key k' \<Longrightarrow> look (ins k v (ins k' w s)) j = look (ins k' w (ins k v s)) j"
  by (simp add: look_ins)

end

text \<open>A table from which entries are removed as well.\<close>

locale removable_table = keyed_table key ins look
  for key :: "'k \<Rightarrow> 'n" and ins :: "'k \<Rightarrow> 'v \<Rightarrow> 's \<Rightarrow> 's" and look +
  fixes del :: "'k \<Rightarrow> 's \<Rightarrow> 's"
  assumes look_del: "look (del k s) j = (if key j = key k then None else look s j)"
begin

lemma del_ins: "look (del k (ins k v s)) j = look (del k s) j"
  by (simp add: look_del look_ins)

lemma del_idem: "look (del k (del k s)) j = look (del k s) j"
  by (simp add: look_del)

lemma fold_del: "look (fold del ks s) j = (if key j \<in> key ` set ks then None else look s j)"
  by (induction ks arbitrary: s) (auto simp: look_del)

end

end
