(* ===== verification/Credentials.thy ===== *)
theory Credentials
  imports Interfaces Rust_Std
begin

text \<open>
  The user list of \<^verbatim>\<open>src/src/credentials.rs\<close>.  The hash map is a map; the text of the two
  errors of \<open>extend_pairs\<close> is kept as its cause and the quoted item.  A file is the
  text read from it.
\<close>

record credentials =
  users :: "string \<rightharpoonup> string"
  fallback :: "string option"

datatype pair_error = NotUserPassword string | EmptyUser string

definition default_credentials :: credentials where
  "default_credentials = \<lparr>users = Map.empty, fallback = None\<rparr>"

definition with_fallback :: "string \<Rightarrow> credentials" where
  "with_fallback p = \<lparr>users = Map.empty, fallback = Some p\<rparr>"

definition set_fallback :: "string option \<Rightarrow> credentials \<Rightarrow> credentials" where
  "set_fallback p c = c\<lparr>fallback := (case p of None \<Rightarrow> None | Some s \<Rightarrow> if s = [] then None else Some s)\<rparr>"

definition user_key :: "string \<Rightarrow> string" where
  "user_key u = to_ascii_lowercase (trim u)"

definition insert_user :: "string \<Rightarrow> string \<Rightarrow> credentials \<Rightarrow> credentials" where
  "insert_user u p c = c\<lparr>users := (users c)(user_key u \<mapsto> p)\<rparr>"

text \<open>The items before a malformed one have been stored when it is reported.\<close>

fun extend_pairs :: "string list \<Rightarrow> credentials \<Rightarrow> (pair_error + unit) \<times> credentials" where
  "extend_pairs [] c = (Inr (), c)"
| "extend_pairs (raw # items) c =
     (let item = trim raw in
      if item = [] \<or> starts_with item ''#'' then extend_pairs items c
      else (case split_once item '':'' of
          None \<Rightarrow> (Inl (NotUserPassword item), c)
        | Some (user, password) \<Rightarrow>
            if trim user = [] then (Inl (EmptyUser item), c)
            else extend_pairs items (insert_user user password c)))"

definition extend_comma_list :: "string \<Rightarrow> credentials \<Rightarrow> (pair_error + unit) \<times> credentials" where
  "extend_comma_list s = extend_pairs (split_char (CHR '','') s)"

definition extend_file_text :: "string \<Rightarrow> credentials \<Rightarrow> (pair_error + unit) \<times> credentials" where
  "extend_file_text s = extend_pairs (lines_of s)"

definition password_for :: "credentials \<Rightarrow> string \<Rightarrow> string option" where
  "password_for c u = or_opt (users c (user_key u)) (fallback c)"

definition has_fallback :: "credentials \<Rightarrow> bool" where
  "has_fallback c \<longleftrightarrow> fallback c \<noteq> None"

definition rejects_unknown_users :: "credentials \<Rightarrow> bool" where
  "rejects_unknown_users c \<longleftrightarrow> fallback c = None"

interpretation logins: keyed_table user_key insert_user password_for
  by unfold_locales (simp add: password_for_def insert_user_def)

text \<open>The pair an item stands for; blank items and comments stand for none.\<close>

definition item_pair :: "string \<Rightarrow> (string \<times> string) option" where
  "item_pair raw = (let item = trim raw in
     if item = [] \<or> starts_with item ''#'' then None else split_once item '':'')"

definition item_ok :: "string \<Rightarrow> bool" where
  "item_ok raw = (let item = trim raw in
     item = [] \<or> starts_with item ''#'' \<or>
       (case split_once item '':'' of None \<Rightarrow> False | Some (user, _) \<Rightarrow> trim user \<noteq> []))"

lemma extend_pairs_prefix:
  "extend_pairs items c = (r, c') \<Longrightarrow>
     c' = logins.ins_all (List.map_filter item_pair (takeWhile item_ok items)) c
     \<and> (r = Inr () \<longleftrightarrow> list_all item_ok items)"
proof (induction items arbitrary: c)
  case Nil
  then show ?case by (simp add: logins.ins_all_def map_filter_simps)
next
  case (Cons raw items)
  show ?case
  proof (cases "trim raw = [] \<or> starts_with (trim raw) ''#''")
    case True
    then have "item_ok raw" "item_pair raw = None" by (auto simp: item_ok_def item_pair_def Let_def)
    with True Cons show ?thesis by (auto simp: map_filter_simps Let_def)
  next
    case False
    show ?thesis
    proof (cases "split_once (trim raw) '':''")
      case None
      with False Cons.prems show ?thesis
        by (auto simp: item_ok_def Let_def logins.ins_all_def map_filter_simps)
    next
      case (Some up)
      obtain u p where up: "up = (u, p)" by force
      show ?thesis
      proof (cases "trim u = []")
        case True
        with False Some up Cons.prems show ?thesis
          by (auto simp: item_ok_def Let_def logins.ins_all_def map_filter_simps)
      next
        case ne: False
        with False Some up have i: "item_ok raw" "item_pair raw = Some (u, p)"
          by (auto simp: item_ok_def item_pair_def Let_def)
        from False Some up ne Cons.prems have "extend_pairs items (insert_user u p c) = (r, c')"
          by (simp add: Let_def)
        from Cons.IH [OF this] i show ?thesis
          by (simp add: map_filter_simps logins.ins_all_def)
      qed
    qed
  qed
qed

section \<open>Properties\<close>

text \<open>
  After a list of \<open>user:password\<close> items is read, a login finds the password of the
  last well-formed item before the first malformed one that names the user (up to case
  and surrounding blanks), else what the store held; the call succeeds exactly when no
  item is malformed.
\<close>

theorem extend_pairs_lookup:
  assumes "extend_pairs items c = (r, c')"
  shows "password_for c' u =
      or_opt (map_option snd (find (\<lambda>(k, v). user_key k = user_key u)
        (rev (List.map_filter item_pair (takeWhile item_ok items))))) (password_for c u)
    \<and> (r = Inr () \<longleftrightarrow> list_all item_ok items)"
  using extend_pairs_prefix [OF assms] logins.look_ins_all by simp

theorem extend_pairs_lookup_witness:
  "\<exists>c'. extend_pairs [''alice:a1'', '' BOB:b1'', ''Alice:a2:x''] default_credentials = (Inr (), c')
     \<and> password_for c' ''ALICE'' = Some ''a2:x''"
proof -
  obtain r c' where e: "extend_pairs [''alice:a1'', '' BOB:b1'', ''Alice:a2:x''] default_credentials = (r, c')"
    by force
  have ok: "list_all item_ok [''alice:a1'', '' BOB:b1'', ''Alice:a2:x'']" by code_simp
  have f: "map_option snd (find (\<lambda>(k, v). user_key k = user_key ''ALICE'')
      (rev (List.map_filter item_pair (takeWhile item_ok [''alice:a1'', '' BOB:b1'', ''Alice:a2:x'']))))
      = Some ''a2:x''" by code_simp
  from extend_pairs_lookup [OF e, of "''ALICE''"] ok f e show ?thesis by auto
qed

end
