(* ===== verification/Profile.thy ===== *)
theory Profile
  imports Rust_Std
begin

text \<open>
  The negotiated-capability profile of \<^verbatim>\<open>src/src/profile.rs\<close>: which dialect of the wire
  format a client speaks, from its capability vector and version list.
\<close>

record protocol_request =
  version :: u8
  accepted_versions :: bytes
  banner :: string

record wire_profile =
  protocol_version :: u8
  p_accepted :: bytes
  did_na_negotiation :: bool
  compile_caps :: bytes
  runtime_caps :: bytes

definition CCAP_FIELD_VERSION :: nat where "CCAP_FIELD_VERSION = 7"
definition CCAP_OCI1 :: nat where "CCAP_OCI1 = 16"
definition CCAP_OCI1_THICK :: u8 where "CCAP_OCI1_THICK = 0xff"
definition CCAP_FEATURE_BACKPORT2 :: nat where "CCAP_FEATURE_BACKPORT2 = 45"
definition FIELD_VERSION_20_1 :: u8 where "FIELD_VERSION_20_1 = 14"

definition new_profile :: "bool \<Rightarrow> protocol_request \<Rightarrow> bytes \<Rightarrow> bytes \<Rightarrow> wire_profile" where
  "new_profile na proto ccaps rcaps = \<lparr>protocol_version = version proto,
     p_accepted = accepted_versions proto, did_na_negotiation = na,
     compile_caps = ccaps, runtime_caps = rcaps\<rparr>"

definition ccap :: "wire_profile \<Rightarrow> nat \<Rightarrow> u8" where
  "ccap p i = unwrap_or 0 (get_at (compile_caps p) i)"

definition field_version :: "wire_profile \<Rightarrow> u8" where
  "field_version p = ccap p CCAP_FIELD_VERSION"

definition oci_dialect :: "wire_profile \<Rightarrow> bool" where
  "oci_dialect p \<longleftrightarrow> ccap p CCAP_OCI1 = CCAP_OCI1_THICK"

definition probably_oci_at_protocol :: "wire_profile \<Rightarrow> bool" where
  "probably_oci_at_protocol p \<longleftrightarrow> did_na_negotiation p \<and> p_accepted p = [5]"

definition newer_describe_framing :: "wire_profile \<Rightarrow> bool" where
  "newer_describe_framing p \<longleftrightarrow> \<not> oci_dialect p \<and> FIELD_VERSION_20_1 \<le> field_version p"

definition wants_response_completion :: "wire_profile \<Rightarrow> bool" where
  "wants_response_completion p \<longleftrightarrow>
     oci_dialect p \<or> FIELD_VERSION_20_1 \<le> field_version p \<or> ccap p CCAP_FEATURE_BACKPORT2 \<noteq> 0"

definition na_without_version_list :: "wire_profile \<Rightarrow> bool" where
  "na_without_version_list p \<longleftrightarrow> did_na_negotiation p \<and> p_accepted p = []"

lemma framing_needs_completion:
  "newer_describe_framing p \<Longrightarrow> wants_response_completion p"
  "oci_dialect p \<Longrightarrow> wants_response_completion p"
  by (simp_all add: newer_describe_framing_def wants_response_completion_def)

lemma oci_not_newer: "oci_dialect p \<Longrightarrow> \<not> newer_describe_framing p"
  by (simp add: newer_describe_framing_def)

lemma short_caps_are_thin:
  "length (compile_caps p) \<le> 16 \<Longrightarrow> \<not> oci_dialect p"
  by (simp add: oci_dialect_def ccap_def get_at_def CCAP_OCI1_def CCAP_OCI1_THICK_def)

end
