(* ===== verification/Message_Fields.thy ===== *)
theory Message_Fields
  imports Buffer
begin

text \<open>
  Messages as sequences of fields: the kinds of fields the wire format is made of, the
  readers that step over them, and items, which are fields with their values.  A message
  written item by item is stepped over kind by kind, whatever the values.
\<close>

section \<open>Stepping over fields\<close>

text \<open>Fields that are read and dropped.\<close>

datatype field = U8 | U16 | UB2 | SB2 | UB4 | UB8 | CLR

definition discard :: "'a reader \<Rightarrow> unit reader" where
  "discard r = let_ok r (\<lambda>_. ok ())"

fun read_field :: "field \<Rightarrow> unit reader" where
  "read_field U8 = discard read_u8"
| "read_field U16 = discard read_u16_be"
| "read_field UB2 = discard read_ub2"
| "read_field SB2 = discard read_sb2"
| "read_field UB4 = discard read_ub4"
| "read_field UB8 = discard read_ub8"
| "read_field CLR = discard read_bytes_with_length"

fun skip_fields :: "field list \<Rightarrow> unit reader" where
  "skip_fields [] = ok ()"
| "skip_fields (f # fs) = let_ok (read_field f) (\<lambda>_. skip_fields fs)"

lemma forward_discard [forward_intros]: "forward r \<Longrightarrow> forward (discard r)"
  unfolding discard_def by (intro forward_intros)

lemma forward_read_field [forward_intros]: "forward (read_field f)"
  by (cases f) (auto intro: forward_intros)

lemma forward_skip_fields [forward_intros]: "forward (skip_fields fs)"
proof (induction fs)
  case Nil
  show ?case unfolding skip_fields.simps by (rule forward_ok)
next
  case (Cons f fs)
  then show ?case unfolding skip_fields.simps by (intro forward_intros)
qed

definition run_reader :: "'a reader \<Rightarrow> bytes \<Rightarrow> error + 'a" where
  "run_reader r payload = fst (r (from_slice payload))"

section \<open>Items\<close>

datatype item = I8 u8 | I16 u16 | IB2 u16 | IS2 u16 | IB4 u32 | IB8 u64 | ICLR "bytes option"

fun put_item :: "item \<Rightarrow> write_buffer \<Rightarrow> write_buffer" where
  "put_item (I8 v) = write_u8 v"
| "put_item (I16 v) = write_u16_be v"
| "put_item (IB2 v) = write_ub2 v"
| "put_item (IS2 v) = write_sb2 v"
| "put_item (IB4 v) = write_ub4 v"
| "put_item (IB8 v) = write_ub8 v"
| "put_item (ICLR v) = write_bytes_with_length v"

fun kind :: "item \<Rightarrow> field" where
  "kind (I8 v) = U8"
| "kind (I16 v) = U16"
| "kind (IB2 v) = UB2"
| "kind (IS2 v) = SB2"
| "kind (IB4 v) = UB4"
| "kind (IB8 v) = UB8"
| "kind (ICLR v) = CLR"

definition put_items :: "item list \<Rightarrow> write_buffer \<Rightarrow> write_buffer" where
  "put_items ms = emit (map put_item ms)"

interpretation item: writer put_item
proof
  show "put_item i b = b @ put_item i []" for i b
    by (cases i) (simp_all add: appends flip: write_ub2_app write_sb2_app write_ub4_app
        write_ub8_app write_bytes_with_length_app)
qed

lemma put_items_simps [simp]:
  "put_items [] b = b"
  "put_items (i # ms) b = put_items ms (put_item i b)"
  "put_items (ms @ js) b = put_items js (put_items ms b)"
  by (simp_all add: put_items_def)

interpretation items: writer put_items
proof
  show "put_items ms b = b @ put_items ms []" for ms b
  proof (induction ms arbitrary: b)
    case Nil
    show ?case by simp
  next
    case (Cons i ms)
    have "put_items ms (put_item i b) = put_item i b @ put_items ms []"
      by (rule Cons.IH)
    also have "\<dots> = b @ put_item i [] @ put_items ms []"
      by (subst item.put_appends) simp
    also have "put_item i [] @ put_items ms [] = put_items ms (put_item i [])"
      by (rule Cons.IH [symmetric])
    finally show ?case by simp
  qed
qed

lemma put_items_Cons: "put_items (i # ms) [] = put_item i [] @ put_items ms []"
  unfolding put_items_simps by (rule items.put_appends)

lemma put_items_append: "put_items (ms @ js) [] = put_items ms [] @ put_items js []"
  unfolding put_items_simps by (rule items.put_appends)

text \<open>Each kind of field has its reader, and it stops where the item ends.\<close>

lemma read_field_item:
  "read_field (kind i) (buf_at pre (put_item i [] @ rest)) = (Inr (), buf_at (pre @ put_item i []) rest)"
  by (cases i) (simp_all add: discard_def u8.get_put u16.get_put ub2.get_put read_sb2_write
      ub4.get_put ub8.get_put clr.get_put)

lemma skip_items:
  "skip_fields (map kind ms) (buf_at pre (put_items ms [] @ rest))
     = (Inr (), buf_at (pre @ put_items ms []) rest)"
proof (induction ms arbitrary: pre)
  case Nil
  show ?case by simp
next
  case (Cons i ms)
  have "read_field (kind i) (buf_at pre (put_item i [] @ put_items ms [] @ rest))
      = (Inr (), buf_at (pre @ put_item i []) (put_items ms [] @ rest))"
    by (rule read_field_item)
  then show ?case
    unfolding put_items_Cons append_assoc by (simp add: Cons.IH)
qed

end
