(* ===== verification/Oracle_Number.thy ===== *)
theory Oracle_Number
  imports Errors
begin

text \<open>
  Oracle's NUMBER format, from \<^verbatim>\<open>src/src/wire.rs\<close>: the encoders for integers and decimal
  text and the decoder to decimal text.  Digits are \<open>nat\<close>s below ten while they are
  taken apart, bytes on the wire; the decimal exponent is an \<open>int\<close> (the source's
  \<open>i32\<close>, whose overflow leaves it far outside the range both accept, and \<open>i16\<close>, which the
  decoder cannot overflow).
\<close>

section \<open>Integers\<close>

fun digit_pairs :: "nat list \<Rightarrow> nat list" where
  "digit_pairs (h # l # ds) = (h * 10 + l) # digit_pairs ds"
| "digit_pairs ds = []"

definition encode_oracle_number_i64 :: "u64 \<Rightarrow> bytes" where
  "encode_oracle_number_i64 v =
     (if v = 0 then [0x80]
      else
        let decimal = show_nat (nat \<bar>sint v\<bar>);
            decimal = (if length decimal mod 2 \<noteq> 0 then CHR ''0'' # decimal else decimal);
            digits = digit_pairs (map digit_val decimal)
        in if 0 < sint v
           then word_of_nat (0xC0 + length digits) # map (\<lambda>d. word_of_nat (d + 1)) digits
           else word_of_nat (0x3F - length digits) # map (\<lambda>d. word_of_nat (101 - d)) digits @ [102])"

section \<open>Decimal text\<close>

text \<open>The integer digits, leading zeros dropped, and the text after them.\<close>

fun scan_int :: "nat list \<Rightarrow> string \<Rightarrow> nat list \<times> string" where
  "scan_int ds [] = (ds, [])"
| "scan_int ds (c # s) =
     (if is_ascii_digit c
      then scan_int (if digit_val c \<noteq> 0 \<or> ds \<noteq> [] then ds @ [digit_val c] else ds) s
      else (ds, c # s))"

text \<open>The fraction digits; a zero before the first significant digit moves the point.\<close>

fun scan_frac :: "nat list \<Rightarrow> int \<Rightarrow> string \<Rightarrow> nat list \<times> int \<times> string" where
  "scan_frac ds dp [] = (ds, dp, [])"
| "scan_frac ds dp (c # s) =
     (if is_ascii_digit c
      then (if digit_val c = 0 \<and> ds = [] then scan_frac ds (dp - 1) s
            else scan_frac (ds @ [digit_val c]) dp s)
      else (ds, dp, c # s))"

fun skip_sign :: "string \<Rightarrow> bool \<times> string" where
  "skip_sign [] = (False, [])"
| "skip_sign (c # s) =
     (if c = CHR ''-'' then (True, s) else if c = CHR ''+'' then (False, s) else (False, c # s))"

definition parse_i32 :: "string \<Rightarrow> nat option" where
  "parse_i32 s = (if s = [] \<or> \<not> list_all is_ascii_digit s then None
     else if parse_digits s < 2 ^ 31 then Some (parse_digits s) else None)"

definition scan_exponent :: "int \<Rightarrow> string \<Rightarrow> error + int \<times> string" where
  "scan_exponent dp s = (case s of
       c # r \<Rightarrow>
         if c = CHR ''e'' \<or> c = CHR ''E'' then
           (let (exponent_negative, r1) = skip_sign r;
                text = takeWhile is_ascii_digit r1
            in case parse_i32 text of
                None \<Rightarrow> Inl (DataConversionError ''invalid NUMBER exponent'')
              | Some e \<Rightarrow> Inr (dp + (if exponent_negative then - int e else int e),
                  dropWhile is_ascii_digit r1))
         else Inr (dp, s)
     | [] \<Rightarrow> Inr (dp, s))"

definition strip_zeros :: "nat list \<Rightarrow> nat list" where
  "strip_zeros ds = rev (dropWhile (\<lambda>d. d = 0) (rev ds))"

text \<open>Sign, significant digits and position of the decimal point.\<close>

definition parse_decimal :: "string \<Rightarrow> error + bool \<times> nat list \<times> int" where
  "parse_decimal value =
     (let value = trim value in
      if value = [] then Inl (DataConversionError ''empty NUMBER value'')
      else
        let (negative, s) = skip_sign value;
            (ds, s) = scan_int [] s;
            dp = int (length ds);
            (ds, dp, s) = (case s of c # r \<Rightarrow> if c = CHR ''.'' then scan_frac ds dp r else (ds, dp, s)
              | [] \<Rightarrow> (ds, dp, s))
        in and_then (scan_exponent dp s) (\<lambda>(dp, s).
          if s \<noteq> [] then Inl (DataConversionError ''invalid NUMBER value'')
          else Inr (negative, strip_zeros ds, dp)))"

text \<open>The loop over the pairs; a prepended zero makes the first pair a single digit.\<close>

fun number_pairs :: "nat \<Rightarrow> bool \<Rightarrow> nat list \<Rightarrow> nat list" where
  "number_pairs 0 prepend ds = []"
| "number_pairs (Suc k) True ds = ds ! 0 # number_pairs k False (drop 1 ds)"
| "number_pairs (Suc k) False ds = (ds ! 0 * 10 + ds ! 1) # number_pairs k False (drop 2 ds)"

definition pack_number :: "bool \<Rightarrow> nat list \<Rightarrow> int \<Rightarrow> error + bytes" where
  "pack_number negative ds dp =
     (if ds = [] then Inr [0x80]
      else if 40 < length ds \<or> \<not> (-129 \<le> dp \<and> dp \<le> 126)
      then Inl (DataConversionError ''NUMBER out of Oracle range'')
      else
        let prepend_zero = (dp mod 2 \<noteq> 0);
            ds = (if prepend_zero then ds @ [0] else ds);
            dp = (if prepend_zero then dp + 1 else dp);
            ds = (if length ds mod 2 \<noteq> 0 then ds @ [0] else ds);
            exponent = (word_of_int (dp div 2 + 192) :: u8);
            encoded = (if negative then NOT exponent else exponent)
              # map (\<lambda>p. word_of_nat (if negative then 101 - p else p + 1))
                  (number_pairs (length ds div 2) prepend_zero ds)
        in Inr (if negative \<and> length encoded < 21 then encoded @ [102] else encoded))"

definition encode_oracle_number_decimal :: "string \<Rightarrow> error + bytes" where
  "encode_oracle_number_decimal value =
     and_then (parse_decimal value) (\<lambda>(negative, ds, dp). pack_number negative ds dp)"

section \<open>Decoding\<close>

fun decode_pairs :: "bool \<Rightarrow> bytes \<Rightarrow> nat list \<Rightarrow> int \<Rightarrow> error + nat list \<times> int" where
  "decode_pairs positive [] ds dp = Inr (ds, dp)"
| "decode_pairs positive (b # bs) ds dp =
     (let pair = (if positive then b - 1 else 101 - b) in
      if 99 < pair then Inl (DataConversionError ''invalid Oracle NUMBER bind'')
      else
        let high = unat pair div 10;
            low = unat pair mod 10;
            (ds, dp) = (if high = 0 \<and> ds = [] then (ds, dp - 1) else (ds @ [high], dp));
            ds = (if low \<noteq> 0 \<or> bs \<noteq> [] then ds @ [low] else ds)
        in decode_pairs positive bs ds dp)"

definition render_number :: "bool \<Rightarrow> nat list \<Rightarrow> int \<Rightarrow> string" where
  "render_number positive ds dp =
     (let s = map digit_char ds;
          rendered =
            (if dp \<le> 0 then ''0.'' @ replicate (nat (- dp)) (CHR ''0'') @ s
             else if length s \<le> nat dp then s @ replicate (nat dp - length s) (CHR ''0'')
             else take (nat dp) s @ ''.'' @ drop (nat dp) s)
      in if positive then rendered else CHR ''-'' # rendered)"

definition decode_oracle_number :: "bytes \<Rightarrow> error + string" where
  "decode_oracle_number raw =
     (if raw = [0x80] then Inr ''0''
      else (case raw of
          [] \<Rightarrow> Inl (DataConversionError ''empty Oracle NUMBER bind'')
        | exponent # mantissa \<Rightarrow>
            let positive = (exponent AND 0x80 \<noteq> 0);
                dp = (if positive then (int (unat exponent) - 193) * 2 + 2
                      else (int (unat (NOT exponent)) - 193) * 2 + 2);
                mantissa = (if \<not> positive \<and> mantissa \<noteq> [] \<and> last mantissa = 102
                  then butlast mantissa else mantissa)
            in and_then (decode_pairs positive mantissa [] dp) (\<lambda>(ds, dp).
                 if ds = [] then Inl (DataConversionError ''invalid Oracle NUMBER bind'')
                 else Inr (render_number positive ds dp))))"

section \<open>Pairs survive\<close>

definition chop :: "nat list \<Rightarrow> nat list" where
  "chop ds = (if ds \<noteq> [] \<and> last ds = 0 then butlast ds else ds)"

definition wire_pair :: "bool \<Rightarrow> nat \<Rightarrow> u8" where
  "wire_pair negative p = word_of_nat (if negative then 101 - p else p + 1)"

lemma unwire:
  assumes "p < 100"
  shows "unat (if \<not> n then wire_pair n p - 1 else 101 - wire_pair n p) = p"
proof (cases n)
  case True
  have "(101 :: u8) - word_of_nat (101 - p) = word_of_nat p"
    using assms by (simp add: of_nat_diff)
  with True assms show ?thesis by (simp add: wire_pair_def unat_of_nat take_bit_nat_eq_self)
next
  case False
  with assms show ?thesis by (simp add: wire_pair_def unat_of_nat take_bit_nat_eq_self)
qed

lemma decode_pair_step:
  assumes "p < 100"
  shows "decode_pairs (\<not> n) (wire_pair n p # bs) ds dp =
    decode_pairs (\<not> n) bs
      ((if p div 10 = 0 \<and> ds = [] then ds else ds @ [p div 10]) @ (if p mod 10 \<noteq> 0 \<or> bs \<noteq> [] then [p mod 10] else []))
      (if p div 10 = 0 \<and> ds = [] then dp - 1 else dp)"
proof -
  let ?w = "if \<not> n then wire_pair n p - 1 else 101 - wire_pair n p"
  have u: "unat ?w = p" by (rule unwire [OF assms])
  with assms have "\<not> 99 < ?w" by (simp only: word_less_nat_alt) simp
  with u show ?thesis by (simp add: Let_def)
qed

lemma decode_number_pairs:
  assumes "length ds = 2 * k" "\<forall>d \<in> set ds. d < 10" "acc \<noteq> [] \<or> (ds \<noteq> [] \<and> hd ds \<noteq> 0)"
  shows "decode_pairs (\<not> n) (map (wire_pair n) (number_pairs k False (ds @ tail))) acc dp
    = Inr (acc @ chop ds, dp)"
  using assms
proof (induction k arbitrary: ds acc)
  case 0
  then show ?case by (simp add: chop_def)
next
  case (Suc k)
  then obtain h l r where ds: "ds = h # l # r" "length r = 2 * k"
    by (cases ds; cases "List.tl ds") auto
  with Suc.prems have hl: "h < 10" "l < 10" "\<forall>d \<in> set r. d < 10" by auto
  let ?p = "h * 10 + l"
  have p: "?p < 100" "?p div 10 = h" "?p mod 10 = l" using hl by auto
  have ne: "\<not> (h = 0 \<and> acc = [])" using Suc.prems(3) ds by auto
  let ?bs = "map (wire_pair n) (number_pairs k False (r @ tail))"
  have step: "decode_pairs (\<not> n) (wire_pair n ?p # ?bs) acc dp
      = decode_pairs (\<not> n) ?bs (acc @ [h] @ (if l \<noteq> 0 \<or> ?bs \<noteq> [] then [l] else [])) dp"
    unfolding decode_pair_step [OF p(1)] p using ne by auto
  have e: "?bs \<noteq> [] \<longleftrightarrow> k \<noteq> 0" by (cases k) simp_all
  show ?case
  proof (cases "k = 0")
    case True
    with ds have "r = []" by simp
    with True step e ds show ?thesis by (simp add: chop_def)
  next
    case False
    with ds have "r \<noteq> []" by auto
    with Suc.IH [of r "acc @ [h, l]"] ds hl False step e show ?thesis
      by (simp add: chop_def)
  qed
qed

lemma decode_prepended:
  assumes "length ds = 2 * k" "\<forall>d \<in> set (d # ds). d < 10" "d \<noteq> 0"
  shows "decode_pairs (\<not> n) (map (wire_pair n) (d # number_pairs k False (ds @ tail))) [] dp
    = Inr (d # chop ds, dp - 1)"
proof -
  have p: "d < 100" "d div 10 = 0" "d mod 10 = d" using assms by auto
  show ?thesis
    using decode_number_pairs [of ds k "[d]" n tail "dp - 1"] assms
    by (simp only: list.map decode_pair_step [OF p(1)] p) simp
qed

section \<open>The packed form read back\<close>

text \<open>What the encoder packs: no zero at either end, in range.\<close>

definition number_ok :: "nat list \<Rightarrow> int \<Rightarrow> bool" where
  "number_ok ds dp \<longleftrightarrow> ds \<noteq> [] \<and> hd ds \<noteq> 0 \<and> last ds \<noteq> 0 \<and> (\<forall>d \<in> set ds. d < 10)
     \<and> length ds \<le> 40 \<and> -129 \<le> dp \<and> dp \<le> 126"

lemma exponent_byte:
  assumes "-64 \<le> e" "e \<le> 63"
  shows "unat (word_of_int (e + 192) :: u8) = nat (e + 192)"
proof -
  define k where "k = nat (e + 192)"
  with assms have "e + 192 = int k" "k < 256" by simp_all
  then show ?thesis by (simp add: unat_of_nat take_bit_nat_eq_self)
qed

lemma length_number_pairs: "length (number_pairs k p ds) = k"
  by (induction k p ds rule: number_pairs.induct) simp_all

text \<open>Padding to whole pairs, and what the decoder makes of them.\<close>

definition padded :: "nat list \<Rightarrow> int \<Rightarrow> nat list" where
  "padded ds dp = (let ds = (if dp mod 2 \<noteq> 0 then ds @ [0] else ds)
     in if length ds mod 2 \<noteq> 0 then ds @ [0] else ds)"

lemma decode_padded:
  assumes "number_ok ds dp"
  shows "decode_pairs (\<not> n)
      (map (wire_pair n) (number_pairs (length (padded ds dp) div 2) (dp mod 2 \<noteq> 0) (padded ds dp)))
      [] (if dp mod 2 \<noteq> 0 then dp + 1 else dp) = Inr (ds, dp)"
proof (cases "dp mod 2 = 0")
  case True
  have "chop (padded ds dp) = ds" "even (length (padded ds dp))" "padded ds dp \<noteq> []"
    "hd (padded ds dp) \<noteq> 0" "\<forall>d \<in> set (padded ds dp). d < 10"
    using assms True by (auto simp: padded_def chop_def number_ok_def odd_iff_mod_2_eq_one)
  then show ?thesis
    using decode_number_pairs [of "padded ds dp" "length (padded ds dp) div 2" "[]" n "[]" dp] True
    by (simp add: even_iff_mod_2_eq_zero)
next
  case False
  from assms obtain d r where d: "ds = d # r" "d \<noteq> 0" "\<forall>x \<in> set (d # r). x < 10"
    by (cases ds) (auto simp: number_ok_def)
  show ?thesis
  proof (cases "even (length r)")
    case True
    with d False have p: "padded ds dp = d # r @ [0]"
      by (simp add: padded_def even_iff_mod_2_eq_zero)
    have l: "length (padded ds dp) div 2 = Suc (length r div 2)" using True by (simp add: p)
    have c: "chop r = r" using assms d by (auto simp: chop_def number_ok_def)
    show ?thesis
      using decode_prepended [of r "length r div 2" d n "[0]" "dp + 1"] True d False
      unfolding l unfolding p by (simp add: c)
  next
    case odd: False
    with d False have p: "padded ds dp = d # (r @ [0]) @ [0]"
      by (simp add: padded_def Let_def odd_iff_mod_2_eq_one)
    have l: "length (padded ds dp) div 2 = Suc (length (r @ [0]) div 2)" using odd by (simp add: p)
    have c: "chop (r @ [0]) = r" using assms d by (auto simp: chop_def number_ok_def)
    show ?thesis
      using decode_prepended [of "r @ [0]" "length (r @ [0]) div 2" d n "[0]" "dp + 1"] odd d False
      unfolding l unfolding p by (simp add: c)
  qed
qed

text \<open>The last byte of a mantissa is the end mark only where the encoder put it.\<close>

lemma wire_pair_not_end: "p < 100 \<Longrightarrow> wire_pair n p \<noteq> 102"
proof
  assume p: "p < 100" and e: "wire_pair n p = 102"
  from unwire [OF p, of n] p show False unfolding e
    by (cases n) (simp_all add: unsigned_minus_1_eq_mask mask_eq_exp_minus_1)
qed

lemma number_pairs_bound:
  assumes "\<forall>d \<in> set ds. d < 10" "2 * k \<le> length ds + (if p then 1 else 0)"
  shows "\<forall>q \<in> set (number_pairs k p ds). q < 100"
  using assms
proof (induction k p ds rule: number_pairs.induct)
  case (2 k ds)
  then show ?case by (cases ds) auto
next
  case (3 k ds)
  then obtain h l r where "ds = h # l # r" by (cases ds; cases "tl ds") auto
  with 3 show ?case by auto
qed simp

lemma decode_oracle_number_Cons:
  assumes "m \<noteq> []"
  shows "decode_oracle_number (e # m) =
    (let positive = (e AND 0x80 \<noteq> 0);
         dp = (if positive then (int (unat e) - 193) * 2 + 2 else (int (unat (NOT e)) - 193) * 2 + 2);
         m = (if \<not> positive \<and> last m = 102 then butlast m else m)
     in and_then (decode_pairs positive m [] dp) (\<lambda>(ds, dp).
          if ds = [] then Inl (DataConversionError ''invalid Oracle NUMBER bind'')
          else Inr (render_number positive ds dp)))"
  using assms by (simp add: decode_oracle_number_def Let_def)

lemma decode_built:
  assumes ps: "ps \<noteq> []" "\<forall>q \<in> set ps. q < 100"
    and sign: "e AND 0x80 \<noteq> 0 \<longleftrightarrow> \<not> n"
    and exp: "(int (unat (if n then NOT e else e)) - 193) * 2 + 2 = dp0"
    and dec: "decode_pairs (\<not> n) (map (wire_pair n) ps) [] dp0 = Inr (ds, dp)" "ds \<noteq> []"
  shows "decode_oracle_number (e # map (wire_pair n) ps @ (if n \<and> mark then [102] else []))
    = Inr (render_number (\<not> n) ds dp)"
proof -
  let ?m = "map (wire_pair n) ps"
  let ?body = "?m @ (if n \<and> mark then [102] else [])"
  have body: "?body \<noteq> []" using ps by simp
  have last: "last ?m \<noteq> 102" using ps wire_pair_not_end by (metis last_in_set last_map)
  have strip: "(if \<not> \<not> n \<and> last ?body = 102 then butlast ?body else ?body) = ?m"
    using ps(1) last by auto
  have dp0: "(if \<not> n then (int (unat e) - 193) * 2 + 2 else (int (unat (NOT e)) - 193) * 2 + 2) = dp0"
    using exp by (cases n) simp_all
  show ?thesis
    unfolding decode_oracle_number_Cons [OF body] Let_def sign strip dp0 dec(1)
    using dec(2) by simp
qed

lemma decode_packed:
  assumes "number_ok ds dp"
  shows "\<exists>bs. pack_number n ds dp = Inr bs
    \<and> decode_oracle_number bs = Inr (render_number (\<not> n) ds dp)"
proof -
  let ?dp = "if dp mod 2 \<noteq> 0 then dp + 1 else dp" and ?ds = "padded ds dp"
  let ?e = "word_of_int (?dp div 2 + 192) :: u8"
  let ?ps = "number_pairs (length ?ds div 2) (dp mod 2 \<noteq> 0) ?ds"
  let ?head = "if n then NOT ?e else ?e"
  have dp: "?dp mod 2 = 0" "-64 \<le> ?dp div 2" "?dp div 2 \<le> 63"
    using assms by (auto simp: number_ok_def) presburger+
  have u: "unat ?e = nat (?dp div 2 + 192)" by (rule exponent_byte [OF dp(2,3)])
  have pos: "?head AND 0x80 \<noteq> 0 \<longleftrightarrow> \<not> n"
    using u dp(2,3) by (auto simp: high_bit_u8 unat_not_u8)
  have exp: "(int (unat (if n then NOT ?head else ?head)) - 193) * 2 + 2 = ?dp"
  proof -
    have "(int (nat (?dp div 2 + 192)) - 193) * 2 + 2 = ?dp" using dp by simp presburger
    then show ?thesis by (cases n) (simp_all only: u if_True if_False bit.double_compl)
  qed
  have ne: "\<forall>d \<in> set ?ds. d < 10" "2 \<le> length ?ds"
    using assms by (auto simp: padded_def number_ok_def Let_def Suc_le_eq neq_Nil_conv split: if_splits)
  have pb: "\<forall>q \<in> set ?ps. q < 100" using ne by (intro number_pairs_bound) auto
  have "length ?ps \<noteq> 0" using ne(2) by (simp only: length_number_pairs)
  then have ps: "?ps \<noteq> []" by (simp only: length_0_conv not_False_eq_True)
  have "ds \<noteq> []" using assms by (simp add: number_ok_def)
  note d = decode_built [OF ps pb pos exp decode_padded [OF assms] this, of "length ?ps < 20"]
  have "pack_number n ds dp
      = Inr (?head # map (wire_pair n) ?ps @ (if n \<and> length ?ps < 20 then [102] else []))"
    using assms by (simp add: pack_number_def number_ok_def padded_def Let_def wire_pair_def
        length_number_pairs)
  with d show ?thesis by auto
qed

section \<open>The text read back\<close>

lemma digit_char_code: "d < 10 \<Longrightarrow> digit_char d \<noteq> CHR ''.'' \<and> digit_char d \<noteq> CHR ''e'' \<and> digit_char d \<noteq> CHR ''E''
    \<and> digit_char d \<noteq> CHR ''-'' \<and> digit_char d \<noteq> CHR ''+'' \<and> is_ascii_graphic (digit_char d)"
  using code_digit_char [of d] by (auto simp: is_ascii_graphic_def code_def)

lemma zero_char: "CHR ''0'' = digit_char 0"
  by (simp add: digit_char_def char_of_def bit_0)

lemma replicate_zeros: "replicate n (CHR ''0'') = map digit_char (replicate n 0)"
  by (simp add: zero_char)

text \<open>No digit follows: the end of the text, or its dot.\<close>

definition ends_digits :: "string \<Rightarrow> bool" where
  "ends_digits r \<longleftrightarrow> (case r of [] \<Rightarrow> True | c # _ \<Rightarrow> \<not> is_ascii_digit c)"

lemma scan_int_digits:
  assumes "\<forall>d \<in> set ds. d < 10" "acc \<noteq> [] \<or> ds = [] \<or> hd ds \<noteq> 0" "ends_digits r"
  shows "scan_int acc (map digit_char ds @ r) = (acc @ ds, r)"
  using assms
proof (induction ds arbitrary: acc)
  case Nil
  then show ?case by (cases r) (simp_all add: ends_digits_def)
next
  case (Cons d ds)
  then show ?case by auto
qed

lemma scan_frac_digits:
  assumes "\<forall>d \<in> set ds. d < 10" "acc \<noteq> [] \<or> ds = [] \<or> hd ds \<noteq> 0"
  shows "scan_frac acc dp (map digit_char ds) = (acc @ ds, dp, [])"
  using assms by (induction ds arbitrary: acc) auto

lemma scan_frac_zeros:
  "scan_frac [] dp (replicate n (CHR ''0'') @ s) = scan_frac [] (dp - int n) s"
  by (induction n arbitrary: dp) (simp_all add: zero_char algebra_simps)

lemma strip_zeros_append: "ds \<noteq> [] \<Longrightarrow> last ds \<noteq> 0 \<Longrightarrow> strip_zeros (ds @ replicate k 0) = ds"
proof -
  assume "ds \<noteq> []" "last ds \<noteq> 0"
  then obtain x xs where "ds = xs @ [x]" "x \<noteq> 0" by (metis append_butlast_last_id)
  then show ?thesis by (simp add: strip_zeros_def dropWhile_append3 flip: replicate_append_same)
qed

text \<open>Rendered text, its sign taken off, scans back to its parts.\<close>

lemma parse_render:
  assumes "number_ok ds dp"
  shows "parse_decimal (render_number positive ds dp) = Inr (\<not> positive, ds, dp)"
proof -
  let ?t = "render_number True ds dp"
  have ds: "ds \<noteq> []" "hd ds \<noteq> 0" "last ds \<noteq> 0" "\<forall>d \<in> set ds. d < 10"
    using assms by (auto simp: number_ok_def)
  have r: "render_number positive ds dp = (if positive then ?t else CHR ''-'' # ?t)"
    by (simp add: render_number_def Let_def)
  have g: "list_all is_ascii_graphic ?t"
  proof -
    have d: "is_ascii_graphic c" if "c \<in> set (map digit_char ds)" for c
      using that ds(4) digit_char_code by auto
    have "is_ascii_graphic (CHR ''0'')" "is_ascii_graphic (CHR ''.'')"
      by (simp_all add: is_ascii_graphic_def code_def)
    then show ?thesis
      using d by (auto simp: render_number_def Let_def list_all_iff dest!: in_set_takeD in_set_dropD)
  qed
  have "is_ascii_digit (hd ?t)" "?t \<noteq> []"
    using ds by (auto simp: render_number_def Let_def hd_append hd_map zero_char)
  then have sign: "skip_sign (render_number positive ds dp) = (\<not> positive, ?t)" "render_number positive ds dp \<noteq> []"
    unfolding r by (cases ?t; auto simp: is_ascii_digit_def code_def)+
  have tr: "trim (render_number positive ds dp) = render_number positive ds dp"
    unfolding r using g by (intro trim_graphic) (simp add: is_ascii_graphic_def code_def)
  have scan: "(let (ds, s) = scan_int [] ?t;
      dp = int (length ds);
      (ds, dp, s) = (case s of c # r \<Rightarrow> if c = CHR ''.'' then scan_frac ds dp r else (ds, dp, s)
        | [] \<Rightarrow> (ds, dp, s)) in (strip_zeros ds, dp, s)) = (ds, dp, [])"
  proof -
    have dot: "\<not> is_ascii_digit (CHR ''.'')" by (simp add: is_ascii_digit_def code_def)
    consider "dp \<le> 0" | "0 < dp" "length ds \<le> nat dp" | "0 < dp" "nat dp < length ds" by linarith
    then show ?thesis
    proof cases
      case 1
      then have "scan_int [] ?t = ([], CHR ''.'' # replicate (nat (- dp)) (CHR ''0'') @ map digit_char ds)"
        using dot by (simp add: render_number_def) (simp add: zero_char)
      with 1 ds show ?thesis
        using strip_zeros_append [of ds 0] by (simp add: scan_frac_zeros scan_frac_digits)
    next
      case 2
      then have "?t = map digit_char (ds @ replicate (nat dp - length ds) 0) @ []"
        by (simp add: render_number_def replicate_zeros)
      moreover have "scan_int [] (map digit_char (ds @ replicate (nat dp - length ds) 0) @ [])
          = ([] @ ds @ replicate (nat dp - length ds) 0, [])"
        using ds by (intro scan_int_digits) (auto simp: ends_digits_def)
      ultimately have "scan_int [] ?t = (ds @ replicate (nat dp - length ds) 0, [])" by simp
      with 2 ds show ?thesis by (simp add: strip_zeros_append)
    next
      case 3
      have "?t = map digit_char (take (nat dp) ds) @ CHR ''.'' # map digit_char (drop (nat dp) ds)"
        using 3 by (simp add: render_number_def take_map drop_map)
      moreover have "\<forall>d \<in> set (take (nat dp) ds). d < 10" "\<forall>d \<in> set (drop (nat dp) ds). d < 10"
        using ds by (auto dest: in_set_takeD in_set_dropD)
      ultimately have "scan_int [] ?t = (take (nat dp) ds, CHR ''.'' # map digit_char (drop (nat dp) ds))"
        "scan_frac (take (nat dp) ds) dp (map digit_char (drop (nat dp) ds)) = (ds, dp, [])"
        using 3 ds by (auto simp: scan_int_digits scan_frac_digits ends_digits_def is_ascii_digit_def code_def)
      with 3 ds show ?thesis
        using strip_zeros_append [of ds 0] by simp
    qed
  qed
  show ?thesis
    using scan sign tr
    by (auto simp: parse_decimal_def Let_def scan_exponent_def split: prod.splits)
qed

section \<open>What scanning yields\<close>

definition digits_ok :: "nat list \<Rightarrow> bool" where
  "digits_ok ds \<longleftrightarrow> (\<forall>d \<in> set ds. d < 10) \<and> (ds \<noteq> [] \<longrightarrow> hd ds \<noteq> 0)"

lemma digit_val_bound: "is_ascii_digit c \<Longrightarrow> digit_val c < 10"
  unfolding is_ascii_digit_def digit_val_def by linarith

lemma digits_ok_snoc: "digits_ok ds \<Longrightarrow> d < 10 \<Longrightarrow> d \<noteq> 0 \<or> ds \<noteq> [] \<Longrightarrow> digits_ok (ds @ [d])"
  by (auto simp: digits_ok_def hd_append)

lemma scan_int_ok: "digits_ok ds \<Longrightarrow> scan_int ds s = (ds', r) \<Longrightarrow> digits_ok ds'"
  by (induction ds s rule: scan_int.induct) (auto simp: digits_ok_snoc digit_val_bound split: if_splits)

lemma scan_frac_ok: "digits_ok ds \<Longrightarrow> scan_frac ds dp s = (ds', dp', r) \<Longrightarrow> digits_ok ds'"
  by (induction ds dp s rule: scan_frac.induct) (auto simp: digits_ok_snoc digit_val_bound split: if_splits)

lemma strip_zeros_ok:
  assumes "digits_ok ds" "strip_zeros ds = e" "e \<noteq> []"
  shows "hd e \<noteq> 0 \<and> last e \<noteq> 0 \<and> (\<forall>d \<in> set e. d < 10)"
proof -
  obtain zs where "ds = e @ zs"
    using assms(2) by (metis rev_append rev_rev_ident strip_zeros_def takeWhile_dropWhile_id)
  moreover have "last e \<noteq> 0"
  proof -
    let ?d = "dropWhile (\<lambda>d. d = 0) (rev ds)"
    have e: "e = rev ?d" using assms(2) by (simp only: strip_zeros_def)
    with assms(3) have "?d \<noteq> []" by (simp only: rev_is_Nil_conv not_False_eq_True)
    then have "hd ?d \<noteq> 0" by (rule hd_dropWhile)
    then show ?thesis unfolding e last_rev .
  qed
  ultimately show ?thesis
    using assms(1,3) by (auto simp: digits_ok_def hd_append)
qed

lemma parse_decimal_ok:
  assumes "parse_decimal s = Inr (n, ds, dp)" "ds \<noteq> []"
  shows "hd ds \<noteq> 0 \<and> last ds \<noteq> 0 \<and> (\<forall>d \<in> set ds. d < 10)"
proof -
  obtain neg t where sg: "skip_sign (trim s) = (neg, t)" by force
  obtain d1 t1 where i: "scan_int [] t = (d1, t1)" by force
  have o1: "digits_ok d1" using scan_int_ok [OF _ i] by (simp add: digits_ok_def)
  obtain d2 p2 t2 where f: "(case t1 of c # r \<Rightarrow> if c = CHR ''.'' then scan_frac d1 (int (length d1)) r
      else (d1, int (length d1), t1) | [] \<Rightarrow> (d1, int (length d1), t1)) = (d2, p2, t2)"
    by (metis prod_cases3)
  have o2: "digits_ok d2"
    using f o1 by (auto split: list.splits if_splits intro: scan_frac_ok)
  have "strip_zeros d2 = ds"
    using assms(1) sg i f
    by (auto simp: parse_decimal_def Let_def and_then_Inr_conv split: if_splits prod.splits)
  from strip_zeros_ok [OF o2 this assms(2)] show ?thesis .
qed

lemma decode_pairs_digits:
  "\<forall>d \<in> set ds. d < 10 \<Longrightarrow> decode_pairs p bs ds dp = Inr (ds', dp') \<Longrightarrow> \<forall>d \<in> set ds'. d < 10"
proof (induction bs arbitrary: ds dp)
  case (Cons b bs)
  let ?w = "if p then b - 1 else 101 - b"
  have w: "\<not> 99 < ?w" using Cons.prems(2) by (auto simp: Let_def split: if_splits)
  then have h: "unat ?w div 10 < 10" by (simp only: word_less_nat_alt) simp
  let ?dd = "if unat ?w div 10 = 0 \<and> ds = [] then (ds, dp - 1) else (ds @ [unat ?w div 10], dp)"
  let ?e = "if unat ?w mod 10 \<noteq> 0 \<or> bs \<noteq> [] then fst ?dd @ [unat ?w mod 10] else fst ?dd"
  have "decode_pairs p (b # bs) ds dp = decode_pairs p bs ?e (snd ?dd)"
    using w by (simp only: decode_pairs.simps Let_def if_False split_beta)
  with Cons.prems(2) have "decode_pairs p bs ?e (snd ?dd) = Inr (ds', dp')" by simp
  moreover have "\<forall>d \<in> set ?e. d < 10" using Cons.prems(1) h by auto
  ultimately show ?case by (intro Cons.IH)
qed simp

lemma render_literal:
  assumes "ds \<noteq> []" "\<forall>d \<in> set ds. d < 10"
  shows "\<exists>sign ip fp. render_number positive ds dp = sign @ ip @ fp \<and> (sign = [] \<or> sign = ''-'') \<and> ip \<noteq> []
    \<and> list_all is_ascii_digit ip
    \<and> (fp = [] \<or> (\<exists>ds. fp = CHR ''.'' # ds \<and> ds \<noteq> [] \<and> list_all is_ascii_digit ds))"
proof -
  let ?sign = "if positive then [] else ''-''" and ?s = "map digit_char ds"
  have d: "is_ascii_digit c" if "c \<in> set ?s" for c using that assms(2) by auto
  have z: "is_ascii_digit (CHR ''0'')" using digit_char_digit [of 0] by (simp add: zero_char)
  have r: "render_number positive ds dp = ?sign @ render_number True ds dp"
    by (simp add: render_number_def Let_def)
  consider "dp \<le> 0" | "0 < dp" "length ?s \<le> nat dp" | "0 < dp" "nat dp < length ?s" by linarith
  then have "\<exists>ip fp. render_number True ds dp = ip @ fp \<and> ip \<noteq> [] \<and> list_all is_ascii_digit ip
    \<and> (fp = [] \<or> (\<exists>ds. fp = CHR ''.'' # ds \<and> ds \<noteq> [] \<and> list_all is_ascii_digit ds))"
  proof cases
    case 1
    show ?thesis
      by (rule exI [of _ "''0''"], rule exI [of _ "CHR ''.'' # replicate (nat (- dp)) (CHR ''0'') @ ?s"])
        (use 1 assms(1) d z in \<open>auto simp: render_number_def list_all_iff\<close>)
  next
    case 2
    show ?thesis
      by (rule exI [of _ "?s @ replicate (nat dp - length ?s) (CHR ''0'')"], rule exI [of _ "[]"])
        (use 2 assms(1) d z in \<open>auto simp: render_number_def list_all_iff\<close>)
  next
    case 3
    show ?thesis
      by (rule exI [of _ "take (nat dp) ?s"], rule exI [of _ "CHR ''.'' # drop (nat dp) ?s"])
        (use 3 assms(1) d in \<open>auto simp: render_number_def Let_def list_all_iff dest: in_set_takeD in_set_dropD\<close>)
  qed
  then obtain ip fp where "render_number True ds dp = ip @ fp" "ip \<noteq> []" "list_all is_ascii_digit ip"
    "fp = [] \<or> (\<exists>ds. fp = CHR ''.'' # ds \<and> ds \<noteq> [] \<and> list_all is_ascii_digit ds)" by blast
  with r show ?thesis by (intro exI [of _ ?sign] exI [of _ ip] exI [of _ fp]) simp
qed

section \<open>Integers read back\<close>

lemma digit_pairs_eq: "length ds = 2 * k \<Longrightarrow> digit_pairs ds = number_pairs k False ds"
proof (induction k arbitrary: ds)
  case 0
  then show ?case by simp
next
  case (Suc k)
  then obtain h l r where "ds = h # l # r" "length r = 2 * k" by (cases ds; cases "tl ds") auto
  with Suc.IH show ?case by simp
qed

definition padded_decimal :: "nat \<Rightarrow> nat list" where
  "padded_decimal n = map digit_val (let d = show_nat n in if length d mod 2 \<noteq> 0 then CHR ''0'' # d else d)"

lemma decode_integer_pairs:
  assumes n: "0 < n" and ps: "ps = digit_pairs (padded_decimal n)"
  shows "decode_pairs (\<not> neg) (map (wire_pair neg) ps) [] (2 * int (length ps))
      = Inr (chop (map digit_val (show_nat n)), int (length (show_nat n)))"
    and "\<forall>q \<in> set ps. q < 100" and "2 * length ps = length (show_nat n) + length (show_nat n) mod 2"
proof -
  let ?D = "map digit_val (show_nat n)"
  obtain d r where D: "?D = d # r" by (cases "show_nat n") auto
  have nz: "d \<noteq> 0" using show_nat_hd [OF n] D by (metis hd_map list.sel(1) show_nat_nonempty)
  have lt: "\<forall>x \<in> set (d # r). x < 10"
    unfolding D [symmetric] using show_nat_digits [of n] digit_val_bound by (auto simp: list_all_iff)
  have l: "length (show_nat n) = Suc (length r)" using D by (metis length_Cons length_map)
  have z: "digit_val (CHR ''0'') = 0" by (simp add: zero_char)
  have "decode_pairs (\<not> neg) (map (wire_pair neg) ps) [] (2 * int (length ps)) = Inr (chop ?D, int (length (show_nat n)))
    \<and> (\<forall>q \<in> set ps. q < 100) \<and> 2 * length ps = length (show_nat n) + length (show_nat n) mod 2"
  proof (cases "odd (length r)")
    case True
    let ?k = "length ?D div 2"
    have len: "length ?D = 2 * ?k" using True l by simp
    have even: "Suc (length r) mod 2 = 0" using True by presburger
    have "padded_decimal n = ?D" using True l by (simp add: padded_decimal_def)
    then have p: "ps = number_pairs ?k False ?D" using digit_pairs_eq [OF len] ps by simp
    have "\<forall>q \<in> set ps. q < 100" unfolding p using lt D len by (intro number_pairs_bound) auto
    moreover have "length ps = ?k" unfolding p by (rule length_number_pairs)
    ultimately show ?thesis
      using decode_number_pairs [OF len, of "[]" neg "[]" "2 * int ?k"] lt nz D len l p even by simp
  next
    case False
    let ?k = "length r div 2"
    have len: "length r = 2 * ?k" using False by simp
    have odd: "Suc (length r) mod 2 = Suc 0" using False by presburger
    then have "padded_decimal n = 0 # d # r" using l D z by (simp add: padded_decimal_def Let_def)
    then have p: "ps = d # number_pairs ?k False r" using digit_pairs_eq [OF len] ps by simp
    have "\<forall>q \<in> set (number_pairs ?k False r). q < 100" using lt len by (intro number_pairs_bound) auto
    then have "\<forall>q \<in> set ps. q < 100" unfolding p using lt by auto
    moreover have "length ps = Suc ?k" unfolding p by (simp add: length_number_pairs)
    moreover have "chop ?D = d # chop r" unfolding D using nz by (simp add: chop_def)
    ultimately show ?thesis
      using decode_prepended [OF len, of d neg "[]" "2 * int (Suc ?k)"] lt nz len l p odd by simp
  qed
  then show "decode_pairs (\<not> neg) (map (wire_pair neg) ps) [] (2 * int (length ps)) = Inr (chop ?D, int (length (show_nat n)))"
    and "\<forall>q \<in> set ps. q < 100" and "2 * length ps = length (show_nat n) + length (show_nat n) mod 2"
    by auto
qed

lemma sint_u64_bounds: "- (2 ^ 63) \<le> sint (v :: u64)" "sint v < 2 ^ 63"
  using sint_greater_eq [of v] sint_less [of v] by simp_all

lemma render_integer:
  assumes "0 < n"
  shows "render_number pos (chop (map digit_val (show_nat n))) (int (length (show_nat n)))
    = (if pos then show_nat n else CHR ''-'' # show_nat n)"
proof -
  let ?s = "show_nat n" and ?D = "map digit_val (show_nat n)"
  have D: "map digit_char ?D = ?s"
    using show_nat_digits [of n] by (auto simp: list_all_iff digit_char_val intro!: map_idI)
  have "map digit_char (chop ?D) @ replicate (length ?s - length (chop ?D)) (CHR ''0'') = ?s"
  proof (cases "last ?D = 0")
    case True
    then have "?D = chop ?D @ [0]" by (simp add: chop_def) (metis append_butlast_last_id list.map_disc_iff show_nat_nonempty)
    then have "?s = map digit_char (chop ?D) @ [digit_char 0]" "length ?s = Suc (length (chop ?D))"
      using D by (metis list.map(1,2) map_append, metis length_append_singleton length_map)
    then show ?thesis by (simp add: zero_char)
  next
    case False
    then have "chop ?D = ?D" by (simp add: chop_def)
    with D show ?thesis by simp
  qed
  moreover have "length (chop ?D) \<le> length ?s" by (simp add: chop_def)
  ultimately show ?thesis
    by (simp add: render_number_def Let_def)
qed

section \<open>Properties\<close>



text \<open>
  Whatever bytes a client sends as a NUMBER bind, the decoded text is a plain decimal
  literal: an optional minus sign, digits, and at most a dot with more digits.  It can be
  put into SQL text as it is.
\<close>

theorem decoded_number_is_literal:
  assumes "decode_oracle_number raw = Inr t"
  shows "\<exists>sign ip fp. t = sign @ ip @ fp \<and> (sign = [] \<or> sign = ''-'') \<and> ip \<noteq> []
    \<and> list_all is_ascii_digit ip
    \<and> (fp = [] \<or> (\<exists>ds. fp = CHR ''.'' # ds \<and> ds \<noteq> [] \<and> list_all is_ascii_digit ds))"
proof (cases "raw = [0x80]")
  case True
  with assms have "t = [] @ ''0'' @ []" by (simp add: decode_oracle_number_def)
  moreover have "is_ascii_digit (CHR ''0'')" using digit_char_digit [of 0] by (simp add: zero_char)
  ultimately show ?thesis
    by (intro exI [of _ "[]"] exI [of _ "''0''"] conjI disjI1) auto
next
  case False
  with assms obtain p m ds dp0 dp where "decode_pairs p m [] dp0 = Inr (ds, dp)" "ds \<noteq> []"
      "t = render_number p ds dp"
    by (auto simp: decode_oracle_number_def Let_def and_then_Inr_conv split: list.splits if_splits)
  with decode_pairs_digits [of "[]" p m dp0 ds dp] render_literal [of ds p dp] show ?thesis by auto
qed

theorem decoded_number_is_literal_witness:
  "\<exists>sign ip fp. ''-1.25'' = sign @ ip @ fp \<and> (sign = [] \<or> sign = ''-'') \<and> ip \<noteq> []
    \<and> list_all is_ascii_digit ip
    \<and> (fp = [] \<or> (\<exists>ds. fp = CHR ''.'' # ds \<and> ds \<noteq> [] \<and> list_all is_ascii_digit ds))"
proof (rule decoded_number_is_literal)
  have "decode_pairs False [100, 76] [] 2 = Inr ([1, 2, 5], 1)" by simp
  moreover have "render_number False [1, 2, 5] 1 = ''-1.25''" by code_simp
  ultimately show "decode_oracle_number [0x3E, 100, 76, 102] = Inr ''-1.25''"
    by (simp add: decode_oracle_number_def)
qed

text \<open>
  Every 64-bit integer, encoded as a NUMBER, decodes to its decimal text.
\<close>

theorem integer_roundtrip:
  "decode_oracle_number (encode_oracle_number_i64 v) = Inr (fmt_int 0 (sint v))"
proof (cases "v = 0")
  case True
  then show ?thesis
    by (simp add: encode_oracle_number_i64_def decode_oracle_number_def fmt_int_def pad0_def show_nat.simps [of 0])
      (simp add: zero_char)
next
  case False
  let ?n = "nat \<bar>sint v\<bar>" and ?neg = "\<not> 0 < sint v"
  have n: "0 < ?n" "?n < 10 ^ 19" using False sint_u64_bounds [of v] by (auto simp: signed_eq_0_iff)
  define ps where "ps = digit_pairs (padded_decimal ?n)"
  note ip = decode_integer_pairs(1) [OF n(1) ps_def, where neg = ?neg]
    decode_integer_pairs(2,3) [OF n(1) ps_def]
  have "length (show_nat ?n) \<le> 19" using length_show_nat [of ?n 18] n(2) by simp
  then have "length ps \<le> 10" using ip(3) by presburger
  moreover have "ps \<noteq> []" using ip(3) by (cases ps) (auto dest: arg_cong [where f = length])
  ultimately have k: "0 < length ps" "length ps \<le> 10" by simp_all
  define e where "e = (word_of_nat (if ?neg then 0x3F - length ps else 0xC0 + length ps) :: u8)"
  have u: "unat e = (if ?neg then 0x3F - length ps else 0xC0 + length ps)"
    using k by (simp add: e_def unat_of_nat take_bit_nat_eq_self)
  have enc: "encode_oracle_number_i64 v = e # map (wire_pair ?neg) ps @ (if ?neg \<and> True then [102] else [])"
    using False unfolding ps_def e_def
    by (simp add: encode_oracle_number_i64_def padded_decimal_def Let_def wire_pair_def)
  have sign: "e AND 0x80 \<noteq> 0 \<longleftrightarrow> \<not> ?neg"
    unfolding high_bit_u8 u using k by (cases ?neg) simp_all
  have exp: "(int (unat (if ?neg then NOT e else e)) - 193) * 2 + 2 = 2 * int (length ps)"
    using k u by (cases ?neg) (simp_all add: unat_not_u8)
  have ne: "chop (map digit_val (show_nat ?n)) \<noteq> []"
    using show_nat_hd [OF n(1)] by (cases "show_nat ?n") (auto simp: chop_def)
  show ?thesis
    unfolding enc using decode_built [OF _ ip(2) sign exp ip(1) ne, of True] k render_integer [OF n(1)] n(1)
    by (auto simp: fmt_int_def pad0_def)
qed

end
