(* ===== verification/Temporal.thy ===== *)
theory Temporal
  imports Errors
begin

text \<open>
  Oracle's DATE and TIMESTAMP formats: the encoders of \<^verbatim>\<open>src/src/backend.rs\<close>, which take
  a calendar value of the chrono library by its accessors, and the decoder of
  \<^verbatim>\<open>src/src/wire.rs\<close>, which turns the bytes of a bind into a SQL literal.
\<close>

record naive_date_time =
  year :: int
  month :: nat
  day :: nat
  hour :: nat
  minute :: nat
  second :: nat
  nanosecond :: nat

text \<open>What chrono promises of the accessors; a leap second shows in \<open>nanosecond\<close>.\<close>

definition chrono_ok :: "naive_date_time \<Rightarrow> bool" where
  "chrono_ok v \<longleftrightarrow> 1 \<le> month v \<and> month v \<le> 12 \<and> 1 \<le> day v \<and> day v \<le> 31
     \<and> hour v \<le> 23 \<and> minute v \<le> 59 \<and> second v \<le> 59 \<and> nanosecond v < 2000000000"

text \<open>Rust's division and remainder round towards zero.\<close>

definition quot100 :: "int \<Rightarrow> int" where
  "quot100 y = (if y < 0 then - ((- y) div 100) else y div 100)"

definition rem100 :: "int \<Rightarrow> int" where
  "rem100 y = (if y < 0 then - ((- y) mod 100) else y mod 100)"

definition encode_oracle_date :: "naive_date_time \<Rightarrow> bytes" where
  "encode_oracle_date v =
     [word_of_int (quot100 (year v) + 100), word_of_int (rem100 (year v) + 100),
      word_of_nat (month v), word_of_nat (day v),
      word_of_nat (hour v + 1), word_of_nat (minute v + 1), word_of_nat (second v + 1)]"

definition encode_oracle_timestamp :: "naive_date_time \<Rightarrow> (int \<times> int) option \<Rightarrow> bytes" where
  "encode_oracle_timestamp v tz =
     encode_oracle_date v @ be32 (word_of_nat (min (nanosecond v) 999999999)) @
     (case tz of None \<Rightarrow> []
      | Some (tz_hour, tz_minute) \<Rightarrow> [word_of_int (tz_hour + 20), word_of_int (tz_minute + 60)])"

definition encode_oracle_timestamp_tz :: "naive_date_time \<Rightarrow> int \<times> int \<Rightarrow> bool \<Rightarrow> bytes" where
  "encode_oracle_timestamp_tz v tz oci =
     encode_oracle_timestamp v None @
     (let hour_byte = (word_of_int (fst tz + 20) :: u8) in
      [if oci then hour_byte OR 0x40 else hour_byte, word_of_int (snd tz + 60)])"

definition checked_pred :: "u8 \<Rightarrow> nat option" where
  "checked_pred b = (if b = 0 then None else Some (unat b - 1))"

definition time_literal :: "int \<Rightarrow> nat \<Rightarrow> nat \<Rightarrow> nat \<Rightarrow> nat \<Rightarrow> nat \<Rightarrow> nat \<Rightarrow> string" where
  "time_literal y mo d h mi s micros =
     fmt_int 4 y @ ''-'' @ fmt_nat 2 mo @ ''-'' @ fmt_nat 2 d @ '' '' @
     fmt_nat 2 h @ '':'' @ fmt_nat 2 mi @ '':'' @ fmt_nat 2 s @
     (if micros \<noteq> 0 then ''.'' @ fmt_nat 6 micros else [])"

definition tz_literal :: "int \<Rightarrow> int \<Rightarrow> string" where
  "tz_literal tz_hour tz_minute =
     '' '' @ fmt_int_plus 3 tz_hour @ '':'' @ fmt_nat 2 (nat \<bar>tz_minute\<bar>)"

definition quote_mark :: char where "quote_mark = CHR 0x27"

text \<open>The text of the \<open>Temporal\<close> bind value.\<close>

definition decode_oracle_temporal :: "bytes \<Rightarrow> u8 \<Rightarrow> error + string" where
  "decode_oracle_temporal raw oracle_type =
     (if length raw < 7
      then Inl (DataConversionError ''Oracle DATE/TIMESTAMP bind must contain at least 7 bytes'')
      else
        let y = (int (unat (raw ! 0)) - 100) * 100 + int (unat (raw ! 1)) - 100;
            mo = unat (raw ! 2);
            d = unat (raw ! 3)
        in and_then (ok_or (DataConversionError ''Oracle DATE bind has invalid hour'') (checked_pred (raw ! 4))) (\<lambda>h.
           and_then (ok_or (DataConversionError ''Oracle DATE bind has invalid minute'') (checked_pred (raw ! 5))) (\<lambda>mi.
           and_then (ok_or (DataConversionError ''Oracle DATE bind has invalid second'') (checked_pred (raw ! 6))) (\<lambda>s.
             if \<not> (1 \<le> mo \<and> mo \<le> 12) \<or> \<not> (1 \<le> d \<and> d \<le> 31) \<or> 23 < h \<or> 59 < mi \<or> 59 < s
             then Inl (DataConversionError ''Oracle DATE bind has invalid calendar fields'')
             else
               let micros = (if 11 \<le> length raw
                     then nat_of_be [raw ! 7, raw ! 8, raw ! 9, raw ! 10] div 1000 else 0);
                   literal = time_literal y mo d h mi s micros
               in if (oracle_type = 181 \<or> oracle_type = 231) \<and> 13 \<le> length raw
                  then let literal = literal @ tz_literal (int (unat (raw ! 11)) - 20) (int (unat (raw ! 12)) - 60)
                       in Inr (''TIMESTAMPTZ '' @ quote_mark # literal @ [quote_mark])
                  else Inr (''TIMESTAMP '' @ quote_mark # literal @ [quote_mark])))))"

text \<open>The text between the quotes of a decoded literal.\<close>

definition temporal_bind_text :: "string \<Rightarrow> error + string" where
  "temporal_bind_text value =
     ok_or (DataConversionError ''invalid decoded temporal bind'')
       (case split_once value [quote_mark] of
          None \<Rightarrow> None
        | Some (_, rest) \<Rightarrow>
            if ends_with rest [quote_mark] then Some (butlast rest) else None)"

lemma uint_word_of_int_u8: "0 \<le> i \<Longrightarrow> i < 256 \<Longrightarrow> int (unat (word_of_int i :: u8)) = i"
proof -
  assume "0 \<le> i" "i < 256"
  then obtain k where "i = int k" "k < 256" by (metis nat_less_iff nonneg_int_cases numeral_eq_Suc of_nat_less_iff of_nat_numeral)
  then show ?thesis by (simp add: unat_of_nat take_bit_nat_eq_self)
qed

text \<open>The decoder on bytes whose fields are known.\<close>

lemma decode_fields:
  assumes "(int (unat a0) - 100) * 100 + int (unat a1) - 100 = y" "unat a2 = mo" "unat a3 = d"
    and "checked_pred a4 = Some h" "checked_pred a5 = Some mi" "checked_pred a6 = Some s"
    and "1 \<le> mo" "mo \<le> 12" "1 \<le> d" "d \<le> 31" "h \<le> 23" "mi \<le> 59" "s \<le> 59"
    and "nat_of_be [b0, b1, b2, b3] = n"
  shows "decode_oracle_temporal [a0, a1, a2, a3, a4, a5, a6, b0, b1, b2, b3] 180
      = Inr (''TIMESTAMP '' @ quote_mark # time_literal y mo d h mi s (n div 1000) @ [quote_mark])"
    and "decode_oracle_temporal [a0, a1, a2, a3, a4, a5, a6, b0, b1, b2, b3, t0, t1] 181
      = Inr (''TIMESTAMPTZ '' @ quote_mark #
          (time_literal y mo d h mi s (n div 1000) @ tz_literal (int (unat t0) - 20) (int (unat t1) - 60))
          @ [quote_mark])"
  using assms(7-13) unfolding assms(1-3,14) [symmetric]
  by (simp_all add: decode_oracle_temporal_def Let_def assms(4-6) del: of_nat_unat)

section \<open>Properties\<close>

text \<open>
  A timestamp of the years $-9999$ to 9999, encoded and decoded again, comes out as the literal of
  its own fields: the calendar date, the time of day, the microseconds (nanoseconds cut,
  a leap second held at the end of its second) and, for a zoned type, the offset hour with
  its sign and the offset minutes without theirs.
\<close>

theorem timestamp_decodes_to_its_fields:
  assumes "chrono_ok v" "-9999 \<le> year v" "year v \<le> 9999"
    and "-15 \<le> h" "h \<le> 15" "-59 \<le> m" "m \<le> 59"
  shows "decode_oracle_temporal (encode_oracle_timestamp v (Some (h, m))) 181
      = Inr (''TIMESTAMPTZ '' @ quote_mark #
          (time_literal (year v) (month v) (day v) (hour v) (minute v) (second v)
             (min (nanosecond v) 999999999 div 1000) @ tz_literal h m) @ [quote_mark])
    \<and> decode_oracle_temporal (encode_oracle_timestamp v None) 180
      = Inr (''TIMESTAMP '' @ quote_mark #
          time_literal (year v) (month v) (day v) (hour v) (minute v) (second v)
             (min (nanosecond v) 999999999 div 1000) @ [quote_mark])"
proof -
  let ?n = "min (nanosecond v) 999999999"
  have q: "-99 \<le> quot100 (year v)" "quot100 (year v) \<le> 99" "-99 \<le> rem100 (year v)" "rem100 (year v) \<le> 99"
    "quot100 (year v) * 100 + rem100 (year v) = year v"
    using assms(2,3) by (auto simp: quot100_def rem100_def) presburger+
  have "int (unat (word_of_int (quot100 (year v) + 100) :: u8)) = quot100 (year v) + 100"
    "int (unat (word_of_int (rem100 (year v) + 100) :: u8)) = rem100 (year v) + 100"
    using q by (intro uint_word_of_int_u8; simp)+
  with q(5) have y: "(int (unat (word_of_int (quot100 (year v) + 100) :: u8)) - 100) * 100
      + int (unat (word_of_int (rem100 (year v) + 100) :: u8)) - 100 = year v"
    by (simp only:) simp
  obtain b0 b1 b2 b3 where b: "be32 (word_of_nat ?n) = [b0, b1, b2, b3]" by (simp add: be32_def)
  have "nat_of_be (be32 (word_of_nat ?n)) = ?n"
    by (simp add: nat_of_be32 unat_of_nat take_bit_nat_eq_self)
  then have n: "nat_of_be [b0, b1, b2, b3] = ?n" unfolding b .
  have cp: "checked_pred (word_of_nat (k + 1)) = Some k" if "k \<le> 59" for k
    using that unat_word_of_nat_u8 [of "k + 1"] by (auto simp: checked_pred_def simp flip: unat_eq_0)
  have md: "unat (word_of_nat (month v) :: u8) = month v" "unat (word_of_nat (day v) :: u8) = day v"
    using assms(1) by (auto simp: chrono_ok_def unat_word_of_nat_u8)
  have tz: "int (unat (word_of_int (h + 20) :: u8)) - 20 = h" "int (unat (word_of_int (m + 60) :: u8)) - 60 = m"
    using assms(4-7) by (subst uint_word_of_int_u8; simp)+
  have c: "1 \<le> month v" "month v \<le> 12" "1 \<le> day v" "day v \<le> 31" "hour v \<le> 23" "minute v \<le> 59" "second v \<le> 59"
    using assms(1) by (auto simp: chrono_ok_def)
  then have hms: "hour v \<le> 59" "minute v \<le> 59" "second v \<le> 59" by simp_all
  note d = decode_fields [OF y md cp [OF hms(1)] cp [OF hms(2)] cp [OF hms(3)] c n]
  have e1: "encode_oracle_timestamp v None = [word_of_int (quot100 (year v) + 100), word_of_int (rem100 (year v) + 100),
      word_of_nat (month v), word_of_nat (day v),
      word_of_nat (hour v + 1), word_of_nat (minute v + 1), word_of_nat (second v + 1), b0, b1, b2, b3]"
    by (simp only: encode_oracle_timestamp_def encode_oracle_date_def b append.simps option.case)
  have e2: "encode_oracle_timestamp v (Some (h, m)) = [word_of_int (quot100 (year v) + 100), word_of_int (rem100 (year v) + 100),
      word_of_nat (month v), word_of_nat (day v),
      word_of_nat (hour v + 1), word_of_nat (minute v + 1), word_of_nat (second v + 1), b0, b1, b2, b3,
      word_of_int (h + 20), word_of_int (m + 60)]"
    by (simp only: encode_oracle_timestamp_def encode_oracle_date_def b append.simps option.case prod.case)
  show ?thesis
    unfolding e1 e2 using d(1) d(2) [of "word_of_int (h + 20)" "word_of_int (m + 60)"]
    unfolding tz by blast
qed

definition leap_day :: naive_date_time where
  "leap_day = \<lparr>year = 2024, month = 2, day = 29, hour = 13, minute = 14, second = 15, nanosecond = 123456789\<rparr>"

theorem timestamp_decodes_to_its_fields_witness:
  "decode_oracle_temporal [120, 124, 2, 29, 14, 15, 16, 7, 91, 205, 21] 180
     = Inr (''TIMESTAMP '' @ quote_mark # ''2024-02-29 13:14:15.123456'' @ [quote_mark])"
proof -
  have "encode_oracle_timestamp leap_day None = [120, 124, 2, 29, 14, 15, 16, 7, 91, 205, 21]"
    by (simp add: encode_oracle_timestamp_def encode_oracle_date_def leap_day_def be32_def quot100_def rem100_def)
  moreover have "time_literal 2024 2 29 13 14 15 123456 = ''2024-02-29 13:14:15.123456''"
    by (simp add: time_literal_def fmt_int_def fmt_nat_def pad0_def show_nat.simps digit_chars digit_chars(2) [simplified])
  ultimately show ?thesis
    using timestamp_decodes_to_its_fields [of leap_day 0 0]
    by (simp add: leap_day_def chrono_ok_def)
qed

end
