(* ===== verification/Binds.thy ===== *)
theory Binds
  imports Ttc Oracle_Number Temporal
begin

text \<open>
  Bind values and placeholders, from \<^verbatim>\<open>src/src/wire.rs\<close>: decoding the value of a bind by
  its Oracle type, rewriting \<open>:name\<close> placeholders into the backend's parameters, counting
  them, and splitting \<open>RETURNING ... INTO\<close>.

  The source walks a byte index over the text; here the walk is over the text that is
  left.  It copies a whole character where these definitions copy one byte: the bytes of a
  multi-byte character are none of the ASCII bytes tested for, so the two agree.  A double
  is its IEEE-754 bit pattern.
\<close>

datatype bind_value = BNull | BString string | BNumber string | BBytes bytes
  | BTemporal string | BBoolean bool | BBinaryDouble u64

section \<open>Bind values\<close>

text \<open>Widening a single-precision pattern, as \<^verbatim>\<open>f32 as f64\<close> does.\<close>

fun top_bit :: "nat \<Rightarrow> u32 \<Rightarrow> nat" where
  "top_bit 0 m = 0"
| "top_bit (Suc k) m = (if bit m (Suc k) then Suc k else top_bit k m)"

definition widen_float :: "u32 \<Rightarrow> u64" where
  "widen_float w =
     (let sign = push_bit 63 (ucast (drop_bit 31 w)) :: u64;
          e = drop_bit 23 w AND 0xff;
          m = w AND 0x7fffff
      in if e = 255
         then sign OR push_bit 52 0x7ff OR push_bit 29 (ucast m) OR (if m = 0 then 0 else push_bit 51 1)
         else if e = 0
         then (if m = 0 then sign
               else let k = top_bit 22 m in
                 sign OR push_bit 52 (word_of_nat (k + 874)) OR push_bit (52 - k) (ucast m - push_bit k 1))
         else sign OR push_bit 52 (ucast e + 896) OR push_bit 29 (ucast m))"

text \<open>Undoing the order-preserving sign change of Oracle's binary floats.\<close>

definition unflip_float :: "bytes \<Rightarrow> bytes" where
  "unflip_float bs = (case bs of [] \<Rightarrow> []
     | b # r \<Rightarrow> if b AND 0x80 \<noteq> 0 then (b AND 0x7f) # r else map (\<lambda>x. NOT x) (b # r))"

definition decode_bind_value :: "u8 \<Rightarrow> bytes option \<Rightarrow> error + bind_value" where
  "decode_bind_value oracle_type raw_opt = (case raw_opt of
       None \<Rightarrow> Inr BNull
     | Some raw \<Rightarrow>
         if oracle_type \<in> {1, 8, 9, 96}
         then map_ok BString (from_utf8 (\<lambda>e. DataConversionError (''bind string is not UTF-8: '' @ e)) raw)
         else if oracle_type = 2 then map_ok BNumber (decode_oracle_number raw)
         else if oracle_type = 23 then Inr (BBytes raw)
         else if oracle_type \<in> {12, 180, 181, 231}
         then map_ok BTemporal (decode_oracle_temporal raw oracle_type)
         else if oracle_type = 101
         then (if length raw \<noteq> 8 then Inl (DataConversionError ''BINARY_DOUBLE bind must be 8 bytes'')
               else Inr (BBinaryDouble (from_be (unflip_float raw))))
         else if oracle_type = 100
         then (if length raw \<noteq> 4 then Inl (DataConversionError ''BINARY_FLOAT bind must be 4 bytes'')
               else Inr (BBinaryDouble (widen_float (from_be (unflip_float raw)))))
         else if oracle_type = 252
         then Inr (BBoolean (raw \<noteq> [] \<and> last raw \<noteq> 0))
         else Inl (DataConversionError (''unsupported Oracle bind type '' @ show_nat (unat oracle_type))))"

section \<open>Quoted text and comments\<close>

definition DQUOTE :: char where "DQUOTE = CHR 0x22"

text \<open>Bytes of a quoted token after its opening quote, the closing one included.\<close>

fun quoted_len :: "char \<Rightarrow> string \<Rightarrow> nat" where
  "quoted_len q [] = 0"
| "quoted_len q [c] = 1"
| "quoted_len q (c # d # s) =
     (if c = q then (if d = q then 2 + quoted_len q s else 1)
      else 1 + quoted_len q (d # s))"

text \<open>Offset of the first occurrence of a pattern.\<close>

fun find_sub :: "string \<Rightarrow> string \<Rightarrow> nat option" where
  "find_sub [] p = (if p = [] then Some 0 else None)"
| "find_sub (c # s) p = (if starts_with (c # s) p then Some 0 else map_option Suc (find_sub s p))"

text \<open>
  Length of the literal, quoted identifier or comment the text starts with, 0 for none.
\<close>

definition opaque_len :: "string \<Rightarrow> nat" where
  "opaque_len s = (case s of [] \<Rightarrow> 0
     | c # r \<Rightarrow>
       if c = quote_mark \<or> c = DQUOTE then 1 + quoted_len c r
       else if starts_with s ''--'' then unwrap_or (length s) (position (\<lambda>x. x = CHR 0x0A) s)
       else if starts_with s ''/*''
       then (case find_sub (drop 2 s) ''*/'' of None \<Rightarrow> length s | Some off \<Rightarrow> 4 + off)
       else 0)"

definition ident_char :: "char \<Rightarrow> bool" where
  "ident_char c \<longleftrightarrow> is_ascii_alphanumeric c \<or> c = CHR ''_''"

text \<open>The placeholder name the text starts with, after its colon.\<close>

definition placeholder :: "string \<Rightarrow> string option" where
  "placeholder s = (case s of [] \<Rightarrow> None
     | c # r \<Rightarrow>
       if c = CHR '':'' \<and> \<not> starts_with r '':'' \<and> takeWhile ident_char r \<noteq> []
       then Some (takeWhile ident_char r) else None)"

lemma opaque_len_le: "opaque_len s \<le> length s"
proof -
  have q: "quoted_len q r \<le> length r" for q r
    by (induction q r rule: quoted_len.induct) auto
  have f: "find_sub t p = Some i \<Longrightarrow> i + length p \<le> length t" for t p i
    by (induction t p arbitrary: i rule: find_sub.induct) (auto simp: starts_with_iff split: if_splits dest: arg_cong [where f = length])
  have "position P t = Some i \<Longrightarrow> i \<le> length t" for P and t :: string and i
    by (auto simp: position_Some)
  then show ?thesis
    using q f [of "drop 2 s" "''*/''"]
    by (auto simp: opaque_len_def unwrap_or_def starts_with_iff split: list.splits option.splits)
qed

section \<open>Placeholders to parameters\<close>

datatype bind_style = PostgresStyle | MariaDbStyle

record bound_sql =
  bsql :: string
  bbinds :: "bind_value list"

record bind_state =
  oracle_names :: "string \<rightharpoonup> nat"
  next_named :: nat
  parameter_for_bind :: "nat \<rightharpoonup> nat"
  ordered :: "bind_value list"
  out :: string

definition mariadb_placeholder :: "bind_value \<Rightarrow> string" where
  "mariadb_placeholder v = (case v of
       BBytes _ \<Rightarrow> ''CAST(? AS BINARY)''
     | BNull \<Rightarrow> ''CAST(? AS CHAR(4000))''
     | BString _ \<Rightarrow> ''CAST(? AS CHAR(4000))''
     | _ \<Rightarrow> ''?'')"

definition postgres_parameter :: "nat \<Rightarrow> bind_value \<Rightarrow> string" where
  "postgres_parameter n v =
     (let param = ''$'' @ show_nat n in
      case v of
        BNull \<Rightarrow> param @ ''::text''
      | BString _ \<Rightarrow> param @ ''::text''
      | BNumber _ \<Rightarrow> param @ ''::text::numeric''
      | BBytes _ \<Rightarrow> param @ ''::bytea''
      | BTemporal s \<Rightarrow>
          if starts_with s (''TIMESTAMPTZ '' @ [quote_mark]) then param @ ''::text::timestamptz''
          else param @ ''::text::timestamp''
      | BBoolean _ \<Rightarrow> param @ ''::boolean''
      | BBinaryDouble _ \<Rightarrow> param @ ''::text::double precision'')"

text \<open>The index of the value a name stands for; \<open>None\<close> for a number that is none.\<close>

definition bind_index :: "string \<Rightarrow> bind_state \<Rightarrow> nat option \<times> bind_state" where
  "bind_index name st =
     (if list_all is_ascii_digit name
      then (case parse_usize name of
          Some (Suc i) \<Rightarrow> (Some i, st\<lparr>next_named := max (next_named st) (i + 1)\<rparr>)
        | _ \<Rightarrow> (None, st))
      else (case oracle_names st (to_ascii_uppercase name) of
          Some i \<Rightarrow> (Some i, st)
        | None \<Rightarrow> (Some (next_named st),
            st\<lparr>oracle_names := (oracle_names st)(to_ascii_uppercase name \<mapsto> next_named st),
               next_named := next_named st + 1\<rparr>)))"

definition put_parameter :: "bind_style \<Rightarrow> nat \<Rightarrow> bind_value \<Rightarrow> bind_state \<Rightarrow> bind_state" where
  "put_parameter style i v st = (case style of
       MariaDbStyle \<Rightarrow> st\<lparr>ordered := ordered st @ [v], out := out st @ mariadb_placeholder v\<rparr>
     | PostgresStyle \<Rightarrow>
         (case parameter_for_bind st i of
            Some n \<Rightarrow> st\<lparr>out := out st @ postgres_parameter n v\<rparr>
          | None \<Rightarrow>
              let n = length (ordered st) + 1 in
              st\<lparr>parameter_for_bind := (parameter_for_bind st)(i \<mapsto> n),
                 ordered := ordered st @ [v], out := out st @ postgres_parameter n v\<rparr>))"

definition bind_step :: "bind_style \<Rightarrow> bind_value list \<Rightarrow> string \<Rightarrow> bind_state \<Rightarrow> error + bind_state" where
  "bind_step style binds name st =
     (let (index, st) = bind_index name st in
      and_then (ok_or (DataConversionError (''invalid bind placeholder :'' @ name)) index) (\<lambda>i.
      and_then (ok_or (DataConversionError (''missing value for bind :'' @ name)) (get_at binds i)) (\<lambda>v.
        Inr (put_parameter style i v st))))"

function bind_loop :: "bind_style \<Rightarrow> bind_value list \<Rightarrow> string \<Rightarrow> bind_state \<Rightarrow> error + bind_state" where
  "bind_loop style binds s st =
     (if s = [] then Inr st
      else if 0 < opaque_len s
      then bind_loop style binds (drop (opaque_len s) s) (st\<lparr>out := out st @ take (opaque_len s) s\<rparr>)
      else (case placeholder s of
          Some name \<Rightarrow> and_then (bind_step style binds name st)
            (\<lambda>st. bind_loop style binds (drop (1 + length name) s) st)
        | None \<Rightarrow> bind_loop style binds (tl s) (st\<lparr>out := out st @ [hd s]\<rparr>)))"
  by pat_completeness auto
termination
  by (relation "measure (\<lambda>(style, binds, s, st). length s)") auto

declare bind_loop.simps [simp del]

definition initial_bind_state :: bind_state where
  "initial_bind_state = \<lparr>oracle_names = Map.empty, next_named = 0, parameter_for_bind = Map.empty,
     ordered = [], out = []\<rparr>"

text \<open>PL/SQL definitions and blocks pass through untouched.\<close>

definition is_plsql_defn :: "string \<Rightarrow> bool" where
  "is_plsql_defn sql =
     (let words = map to_ascii_uppercase (take 5 (split_whitespace (trim_start sql))) in
      case words of
        [] \<Rightarrow> False
      | w # ws \<Rightarrow>
          if w = ''CREATE''
          then (let n = length (takeWhile (\<lambda>x. x \<in> {''OR'', ''REPLACE'', ''EDITIONABLE'', ''NONEDITIONABLE''}) ws)
            in case get_at words (n + 1) of
                None \<Rightarrow> False
              | Some k \<Rightarrow> k \<in> {''TRIGGER'', ''FUNCTION'', ''PROCEDURE'', ''PACKAGE''})
          else w = ''BEGIN'' \<or> w = ''DECLARE'')"

definition bind_parameters :: "string \<Rightarrow> bind_value list \<Rightarrow> bind_style \<Rightarrow> error + bound_sql" where
  "bind_parameters sql binds style =
     (if is_plsql_defn sql then Inr \<lparr>bsql = sql, bbinds = []\<rparr>
      else map_ok (\<lambda>st. \<lparr>bsql = out st, bbinds = ordered st\<rparr>)
        (bind_loop style binds sql initial_bind_state))"

definition bind_postgres_parameters :: "string \<Rightarrow> bind_value list \<Rightarrow> error + bound_sql" where
  "bind_postgres_parameters sql binds = bind_parameters sql binds PostgresStyle"

section \<open>What the rewriting depends on\<close>

text \<open>The part of a value that shows in the text: which kind it is.\<close>

datatype shape = TextShape | NumberShape | BytesShape | ZonedShape | TimeShape | BoolShape | DoubleShape

definition shape :: "bind_value \<Rightarrow> shape" where
  "shape v = (case v of
       BNull \<Rightarrow> TextShape
     | BString _ \<Rightarrow> TextShape
     | BNumber _ \<Rightarrow> NumberShape
     | BBytes _ \<Rightarrow> BytesShape
     | BTemporal s \<Rightarrow> if starts_with s (''TIMESTAMPTZ '' @ [quote_mark]) then ZonedShape else TimeShape
     | BBoolean _ \<Rightarrow> BoolShape
     | BBinaryDouble _ \<Rightarrow> DoubleShape)"

lemma shape_placeholders:
  assumes "shape v = shape w"
  shows "postgres_parameter n v = postgres_parameter n w" "mariadb_placeholder v = mariadb_placeholder w"
  using assms
  by (auto simp: shape_def postgres_parameter_def mariadb_placeholder_def Let_def
      split: bind_value.splits if_splits)

definition same_shape :: "bind_state \<Rightarrow> bind_state \<Rightarrow> bool" where
  "same_shape a b \<longleftrightarrow> oracle_names a = oracle_names b \<and> next_named a = next_named b
     \<and> parameter_for_bind a = parameter_for_bind b \<and> out a = out b \<and> length (ordered a) = length (ordered b)"

definition same_result :: "error + bind_state \<Rightarrow> error + bind_state \<Rightarrow> bool" where
  "same_result r q \<longleftrightarrow> (case (r, q) of
       (Inl e, Inl f) \<Rightarrow> e = f
     | (Inr a, Inr b) \<Rightarrow> same_shape a b
     | _ \<Rightarrow> False)"

lemma same_result_simps [simp]:
  "same_result (Inl e) (Inl f) \<longleftrightarrow> e = f"
  "same_result (Inr a) (Inr b) \<longleftrightarrow> same_shape a b"
  "\<not> same_result (Inl e) (Inr b)" "\<not> same_result (Inr a) (Inl f)"
  by (simp_all add: same_result_def)

lemma bind_index_same:
  "same_shape a b \<Longrightarrow> fst (bind_index name a) = fst (bind_index name b)
     \<and> same_shape (snd (bind_index name a)) (snd (bind_index name b))"
  by (auto simp: bind_index_def same_shape_def split: option.splits nat.splits)

lemma put_parameter_same:
  "same_shape a b \<Longrightarrow> shape v = shape w \<Longrightarrow>
     same_shape (put_parameter style i v a) (put_parameter style i w b)"
  using shape_placeholders [of v w]
  by (auto simp: put_parameter_def same_shape_def Let_def split: bind_style.splits option.splits)

lemma bind_step_same:
  assumes "same_shape a b" "map shape vs = map shape ws"
  shows "same_result (bind_step style vs name a) (bind_step style ws name b)"
proof -
  obtain i a' where a: "bind_index name a = (i, a')" by force
  obtain j b' where b: "bind_index name b = (j, b')" by force
  have ij: "i = j" "same_shape a' b'" using bind_index_same [OF assms(1), of name] a b by simp_all
  have len: "length vs = length ws" using assms(2) by (metis length_map)
  have nth: "shape (vs ! k) = shape (ws ! k)" if "k < length vs" for k
    using assms(2) len that by (metis nth_map)
  show ?thesis
    using ij len nth put_parameter_same
    by (cases j) (auto simp: bind_step_def a b get_at_def)
qed

lemma bind_loop_same:
  "same_shape a b \<Longrightarrow> map shape vs = map shape ws \<Longrightarrow>
     same_result (bind_loop style vs s a) (bind_loop style ws s b)"
proof (induction "length s" arbitrary: s a b rule: less_induct)
  case less
  consider "s = []" | "s \<noteq> []" "0 < opaque_len s" | "s \<noteq> []" "opaque_len s = 0" "placeholder s = None"
    | name where "s \<noteq> []" "opaque_len s = 0" "placeholder s = Some name" by fastforce
  then show ?case
  proof cases
    case 1
    with less.prems show ?thesis by (simp add: bind_loop.simps)
  next
    case 2
    let ?u = "\<lambda>st. st\<lparr>out := out st @ take (opaque_len s) s\<rparr>"
    have "same_shape (?u a) (?u b)" using less.prems(1) by (simp add: same_shape_def)
    with less.hyps [of "drop (opaque_len s) s" "?u a" "?u b"] 2 less.prems(2) show ?thesis
      by (simp add: bind_loop.simps [of _ _ s])
  next
    case 3
    let ?u = "\<lambda>st. st\<lparr>out := out st @ [hd s]\<rparr>"
    have "same_shape (?u a) (?u b)" using less.prems(1) by (simp add: same_shape_def)
    with less.hyps [of "tl s" "?u a" "?u b"] 3 less.prems(2) show ?thesis
      by (simp add: bind_loop.simps [of _ _ s])
  next
    case 4
    from bind_step_same [OF less.prems, of style name] 4 less.hyps less.prems(2) show ?thesis
      by (cases "bind_step style vs name a"; cases "bind_step style ws name b")
        (simp_all add: bind_loop.simps [of _ _ s])
  qed
qed

text \<open>What every step keeps holds at the end of the walk.\<close>

lemma bind_loop_keeps:
  assumes out: "\<And>st t. P st \<Longrightarrow> P (st\<lparr>out := t\<rparr>)"
    and step: "\<And>st name st'. P st \<Longrightarrow> bind_step style vs name st = Inr st' \<Longrightarrow> P st'"
  shows "P st \<Longrightarrow> bind_loop style vs s st = Inr st' \<Longrightarrow> P st'"
proof (induction "length s" arbitrary: s st rule: less_induct)
  case less
  consider "s = []" | "s \<noteq> []" "0 < opaque_len s" | "s \<noteq> []" "opaque_len s = 0" "placeholder s = None"
    | name where "s \<noteq> []" "opaque_len s = 0" "placeholder s = Some name" by fastforce
  then show ?case
  proof cases
    case 1
    with less.prems show ?thesis by (simp add: bind_loop.simps)
  next
    case 2
    with less.hyps [of "drop (opaque_len s) s"] less.prems out show ?thesis
      by (auto simp: bind_loop.simps [of _ _ s])
  next
    case 3
    with less.hyps [of "tl s"] less.prems out show ?thesis
      by (auto simp: bind_loop.simps [of _ _ s])
  next
    case 4
    with less.hyps [of "drop (1 + length name) s"] less.prems step show ?thesis
      by (auto simp: bind_loop.simps [of _ _ s] and_then_Inr_conv)
  qed
qed

text \<open>Postgres parameter \<open>n\<close> is the value at the \<open>n\<close>-th index of a list without repetition.\<close>

definition numbered :: "bind_value list \<Rightarrow> bind_state \<Rightarrow> bool" where
  "numbered vs st \<longleftrightarrow> (\<exists>js. distinct js \<and> set js \<subseteq> {..<length vs} \<and> ordered st = map (\<lambda>i. vs ! i) js
     \<and> (\<forall>i. parameter_for_bind st i = map_option Suc (position (\<lambda>j. j = i) js)))"

lemma position_snoc:
  "position P (xs @ [x]) = (case position P xs of Some i \<Rightarrow> Some i | None \<Rightarrow> if P x then Some (length xs) else None)"
  by (induction xs) (auto split: option.splits)

lemma bind_index_frame:
  "ordered (snd (bind_index name st)) = ordered st"
  "parameter_for_bind (snd (bind_index name st)) = parameter_for_bind st"
  by (auto simp: bind_index_def split: option.splits nat.splits)

lemma numbered_step:
  assumes "numbered vs st" "bind_step PostgresStyle vs name st = Inr st'"
  shows "numbered vs st'"
proof -
  obtain i v t where t: "bind_index name st = (Some i, t)" "i < length vs" "v = vs ! i"
    "st' = put_parameter PostgresStyle i v t"
    using assms(2)
    by (cases "bind_index name st"; cases "fst (bind_index name st)")
      (auto simp: bind_step_def and_then_Inr_conv get_at_def ok_or_def split: if_splits option.splits)
  from t(1) have f: "ordered t = ordered st" "parameter_for_bind t = parameter_for_bind st"
    using bind_index_frame [of name st] by simp_all
  from assms(1) obtain js where js: "distinct js" "set js \<subseteq> {..<length vs}" "ordered st = map (\<lambda>i. vs ! i) js"
    "\<forall>i. parameter_for_bind st i = map_option Suc (position (\<lambda>j. j = i) js)"
    by (auto simp: numbered_def)
  show ?thesis
  proof (cases "parameter_for_bind st i")
    case None
    with js(4) have "i \<notin> set js" by (auto simp: position_None)
    with js t f None show ?thesis
      unfolding numbered_def
      by (intro exI [of _ "js @ [i]"])
        (auto simp: put_parameter_def Let_def position_snoc split: option.splits)
  next
    case (Some n)
    with js t f show ?thesis
      unfolding numbered_def by (intro exI [of _ js]) (auto simp: put_parameter_def)
  qed
qed

lemma no_placeholder_passes:
  "CHR '':'' \<notin> set s \<Longrightarrow> bind_loop style vs s st = Inr (st\<lparr>out := out st @ s\<rparr>)"
proof (induction "length s" arbitrary: s st rule: less_induct)
  case less
  consider "s = []" | "s \<noteq> []" "0 < opaque_len s" | "s \<noteq> []" "opaque_len s = 0" by fastforce
  then show ?case
  proof cases
    case 1
    then show ?thesis by (simp add: bind_loop.simps)
  next
    case 2
    have "CHR '':'' \<notin> set (drop (opaque_len s) s)" using less.prems by (auto dest: in_set_dropD)
    with 2 less.hyps [of "drop (opaque_len s) s"] show ?thesis
      by (simp add: bind_loop.simps [of _ _ s])
  next
    case 3
    have "placeholder s = None" using less.prems by (auto simp: placeholder_def split: list.splits)
    moreover have "CHR '':'' \<notin> set (tl s)" using less.prems by (cases s) auto
    ultimately show ?thesis
      using 3 less.hyps [of "tl s"] by (simp add: bind_loop.simps [of _ _ s])
  qed
qed

section \<open>Counting placeholders\<close>

text \<open>
  The number of distinct names, compared exactly; the quotes and comments are skipped
  without the doubled-quote rule, and trigger pseudo-records do not count.
\<close>

definition trigger_pseudo :: "string \<Rightarrow> bool" where
  "trigger_pseudo name \<longleftrightarrow> eq_ignore_ascii_case name ''NEW'' \<or> eq_ignore_ascii_case name ''OLD''
     \<or> eq_ignore_ascii_case name ''PARENT''"

definition past_quote :: "char \<Rightarrow> string \<Rightarrow> string" where
  "past_quote q s = drop 1 (dropWhile (\<lambda>c. c \<noteq> q) s)"

definition past_block :: "string \<Rightarrow> string" where
  "past_block s = (case find_sub s ''*/'' of None \<Rightarrow> [] | Some off \<Rightarrow> drop (off + 2) s)"

function named_binds :: "string list \<Rightarrow> string \<Rightarrow> string list" where
  "named_binds seen s =
     (case s of [] \<Rightarrow> seen
      | c # r \<Rightarrow>
        if c = quote_mark \<or> c = DQUOTE then named_binds seen (past_quote c r)
        else if starts_with s ''--'' then named_binds seen (dropWhile (\<lambda>x. x \<noteq> CHR 0x0A) s)
        else if starts_with s ''/*'' then named_binds seen (past_block (drop 2 s))
        else if c = CHR '':'' then
          let name = takeWhile ident_char r in
          named_binds
            (if name \<noteq> [] \<and> \<not> trigger_pseudo name \<and> name \<notin> set seen then seen @ [name] else seen)
            (drop (length name) r)
        else named_binds seen r)"
  by pat_completeness auto
termination
proof -
  have d: "length (dropWhile P xs) \<le> length xs" for P and xs :: string
    by (rule length_dropWhile_le)
  show ?thesis
    by (relation "measure (\<lambda>(seen, s). length s)")
      (auto simp: past_quote_def past_block_def starts_with_iff less_Suc_eq_le
        intro: le_SucI d order_trans [OF diff_le_self d] split: option.split)
qed

declare named_binds.simps [simp del]

definition count_named_binds :: "string \<Rightarrow> nat" where
  "count_named_binds sql = length (named_binds [] sql)"

section \<open>RETURNING ... INTO\<close>

record returning_into =
  sql_without_into :: string
  out_bind_count :: nat
  returning_expr_count :: nat

text \<open>Length of a quoted token after its opening quote, without the doubled-quote rule.\<close>

definition skip_quote :: "char \<Rightarrow> string \<Rightarrow> nat" where
  "skip_quote q s = (let n = length (takeWhile (\<lambda>c. c \<noteq> q) s) in if n < length s then n + 1 else n)"

definition word_at :: "string \<Rightarrow> string \<Rightarrow> bool" where
  "word_at w s \<longleftrightarrow> length w \<le> length s \<and> eq_ignore_ascii_case (take (length w) s) w"

text \<open>
  The last \<open>RETURNING\<close> outside quotes that is a word of its own; \<open>prev\<close> is the byte before
  the text left, \<open>i\<close> its offset.
\<close>

function find_returning :: "char option \<Rightarrow> nat \<Rightarrow> string \<Rightarrow> nat option \<Rightarrow> nat option" where
  "find_returning prev i s found =
     (case s of [] \<Rightarrow> found
      | c # r \<Rightarrow>
        if c = quote_mark \<or> c = DQUOTE
        then (let n = skip_quote c r in
          find_returning (Some (last (c # take n r))) (i + 1 + n) (drop n r) found)
        else
          find_returning (Some c) (i + 1) r
            (if word_at ''RETURNING'' s \<and> (case prev of None \<Rightarrow> True | Some p \<Rightarrow> \<not> ident_char p)
                \<and> (case get_at s 9 of None \<Rightarrow> True | Some x \<Rightarrow> \<not> ident_char x)
             then Some i else found))"
  by pat_completeness auto
termination
  by (relation "measure (\<lambda>(prev, i, s, found). length s)") auto

text \<open>The first \<open>INTO\<close> outside quotes with white space around it.\<close>

function find_into :: "char option \<Rightarrow> nat \<Rightarrow> string \<Rightarrow> nat option" where
  "find_into prev j s =
     (if length s < 4 then None
      else case s of [] \<Rightarrow> None
      | c # r \<Rightarrow>
        if c = quote_mark \<or> c = DQUOTE
        then (let n = skip_quote c r in find_into (Some (last (c # take n r))) (j + 1 + n) (drop n r))
        else if word_at ''INTO'' s \<and> (case prev of None \<Rightarrow> True | Some p \<Rightarrow> is_ascii_whitespace p)
            \<and> (case get_at s 4 of None \<Rightarrow> False | Some x \<Rightarrow> is_ascii_whitespace x)
        then Some j
        else find_into (Some c) (j + 1) r)"
  by pat_completeness auto
termination
  by (relation "measure (\<lambda>(prev, j, s). length s)") auto

declare find_returning.simps [simp del] find_into.simps [simp del]

text \<open>The pieces between top-level commas; \<open>cur\<close> is the current piece, reversed.\<close>

function split_commas :: "int \<Rightarrow> string \<Rightarrow> string \<Rightarrow> string list" where
  "split_commas depth cur s =
     (case s of [] \<Rightarrow> (let last = trim (rev cur) in if last = [] then [] else [last])
      | c # r \<Rightarrow>
        if c = quote_mark \<or> c = DQUOTE
        then (let n = skip_quote c r in split_commas depth (rev (take n r) @ c # cur) (drop n r))
        else if c = CHR ''('' then split_commas (depth + 1) (c # cur) r
        else if c = CHR '')'' then split_commas (depth - 1) (c # cur) r
        else if c = CHR '','' \<and> depth = 0 then trim (rev cur) # split_commas depth [] r
        else split_commas depth (c # cur) r)"
  by pat_completeness auto
termination
  by (relation "measure (\<lambda>(depth, cur, s). length s)") auto

declare split_commas.simps [simp del]

definition split_top_level_commas :: "string \<Rightarrow> string list" where
  "split_top_level_commas s = split_commas 0 [] s"

definition split_returning_into :: "string \<Rightarrow> returning_into option" where
  "split_returning_into sql = (case find_returning None 0 sql None of
       None \<Rightarrow> None
     | Some r_at \<Rightarrow>
         let after_returning = drop (r_at + 9) sql in
         (case find_into None 0 after_returning of
            None \<Rightarrow> None
          | Some into_rel \<Rightarrow>
              let exprs = trim (take into_rel after_returning);
                  bind_list = drop (into_rel + 4) after_returning;
                  out_binds = length (filter (\<lambda>c. c = CHR '':'') bind_list)
              in if out_binds = 0 then None
                 else Some \<lparr>sql_without_into = take r_at sql @ ''RETURNING '' @ exprs,
                   out_bind_count = out_binds,
                   returning_expr_count = max (length (split_top_level_commas exprs)) 1\<rparr>))"

section \<open>Properties\<close>

text \<open>
  C33.  The text sent to the backend does not depend on the values bound: two lists of
  values of the same kinds give the same text (or the same error).  No byte of a value
  reaches the SQL.
\<close>

theorem bound_text_ignores_values:
  assumes "map shape vs = map shape ws"
  shows "map_ok bsql (bind_parameters sql vs style) = map_ok bsql (bind_parameters sql ws style)"
proof -
  have "same_result (bind_loop style vs sql initial_bind_state) (bind_loop style ws sql initial_bind_state)"
    by (rule bind_loop_same [OF _ assms]) (simp add: same_shape_def)
  then show ?thesis
    by (cases "bind_loop style vs sql initial_bind_state"; cases "bind_loop style ws sql initial_bind_state")
      (auto simp: bind_parameters_def same_shape_def)
qed

theorem bound_text_ignores_values_witness:
  "map_ok bsql (bind_parameters ''UPDATE t SET a = :a'' [BString ''x''] PostgresStyle)
     = map_ok bsql (bind_parameters ''UPDATE t SET a = :a'' [BString ''0; DROP TABLE t''] PostgresStyle)"
  by (rule bound_text_ignores_values) (simp add: shape_def)

text \<open>
  C34.  The parameters sent to PostgreSQL are supplied values picked by pairwise different
  indices: none is sent twice, none is made up.
\<close>

theorem postgres_parameters_distinct:
  assumes "bind_parameters sql vs PostgresStyle = Inr r"
  shows "\<exists>js. distinct js \<and> set js \<subseteq> {..<length vs} \<and> bbinds r = map (\<lambda>i. vs ! i) js"
proof (cases "is_plsql_defn sql")
  case True
  with assms show ?thesis by (intro exI [of _ "[]"]) (auto simp: bind_parameters_def)
next
  case False
  with assms obtain st where st: "bind_loop PostgresStyle vs sql initial_bind_state = Inr st" "bbinds r = ordered st"
    by (auto simp: bind_parameters_def map_ok_Inr_conv)
  have "numbered vs st"
    by (rule bind_loop_keeps [where P = "numbered vs", OF _ numbered_step _ st(1)])
      (auto simp: numbered_def initial_bind_state_def)
  with st(2) show ?thesis by (auto simp: numbered_def)
qed

theorem postgres_parameters_distinct_witness:
  "\<exists>js. distinct js \<and> set js \<subseteq> {..<2} \<and> [BNull, BNumber ''4''] = map (\<lambda>i. [BNull, BNumber ''4''] ! i) js"
proof -
  have "bind_parameters ''SELECT :a, :A, :b'' [BNull, BNumber ''4''] PostgresStyle
      = Inr \<lparr>bsql = ''SELECT $1::text, $1::text, $2::text::numeric'', bbinds = [BNull, BNumber ''4'']\<rparr>"
    by code_simp
  from postgres_parameters_distinct [OF this] show ?thesis by (simp add: numeral_2_eq_2)
qed

text \<open>
  SQL without a colon is sent exactly as it came, without parameters, in either
  dialect, whatever values the client supplied.
\<close>

theorem sql_without_colon_unchanged:
  assumes "CHR '':'' \<notin> set sql"
  shows "bind_parameters sql vs style = Inr \<lparr>bsql = sql, bbinds = []\<rparr>"
  using no_placeholder_passes [OF assms] by (simp add: bind_parameters_def initial_bind_state_def)

theorem sql_without_colon_unchanged_witness:
  "bind_parameters ''SELECT 1 FROM dual'' [BNull] MariaDbStyle
     = Inr \<lparr>bsql = ''SELECT 1 FROM dual'', bbinds = []\<rparr>"
  by (rule sql_without_colon_unchanged) simp

text \<open>The second colon of a cast is taken for a placeholder.\<close>

lemma cast_is_taken_for_placeholder:
  "bind_parameters ''SELECT 1::text'' [] PostgresStyle
     = Inl (DataConversionError ''missing value for bind :text'')"
  by code_simp

end
