(* ===== verification/Execute_Request.thy ===== *)
theory Execute_Request
  imports Message_Fields Binds
begin

text \<open>
  The requests that run statements, from \<^verbatim>\<open>src/src/wire.rs\<close>: Execute in its fixed layout, in
  the scanned layout of ojdbc and in the OCI layout, Reexecute, Fetch.
\<close>

record execute_request =
  sql :: string
  binds :: "bind_value list"
  bind_types :: "u8 list"
  prefetch :: u32
  num_iters :: u32
  bind_rows :: "bind_value list list"

definition empty_request :: execute_request where
  "empty_request = \<lparr>sql = [], binds = [], bind_types = [], prefetch = 0, num_iters = 0, bind_rows = []\<rparr>"

text \<open>Data flags, message type, function, sequence.\<close>

definition call_header :: "field list" where
  "call_header = [U16, U8, U8, U8]"

definition execute_frame_has_no_sql :: "bytes \<Rightarrow> bool" where
  "execute_frame_has_no_sql payload =
     (case run_reader
        (let_ok (skip_fields (call_header @ [UB4, UB4])) (\<lambda>_.
         let_ok read_u8 (\<lambda>sql_ptr.
         let_ok read_ub4 (\<lambda>sql_len. ok (sql_ptr, sql_len))))) payload of
        Inr (sql_ptr, sql_len) \<Rightarrow> sql_ptr = 0 \<or> sql_len = 0 \<or> length payload < unat sql_len
      | Inl _ \<Rightarrow> True)"

definition parse_execute_cursor_id :: "bytes \<Rightarrow> u16 option" where
  "parse_execute_cursor_id payload =
     (case run_reader
        (let_ok (skip_fields (call_header @ [UB4])) (\<lambda>_.
         let_ok read_ub4 (\<lambda>c. ok (ucast c :: u16)))) payload of
        Inr c \<Rightarrow> if c \<noteq> 0 then Some c else None
      | Inl _ \<Rightarrow> None)"

section \<open>Bind descriptors and values\<close>

definition descriptor_fields :: "unit reader" where
  "descriptor_fields =
     let_ok (skip_fields [U8, U8, U8, UB4, UB4, UB8]) (\<lambda>_.
     let_ok read_ub4 (\<lambda>oid_len.
     let_ok (skip_fields (if 0 < oid_len then [CLR, UB4] else [UB2])) (\<lambda>_.
       skip_fields [UB2, U8, UB4, UB4])))"

lemma forward_descriptor_fields [forward_intros]: "forward descriptor_fields"
  unfolding descriptor_fields_def by (intro forward_intros)

text \<open>
  The loop over bind descriptors: their types, and whether the marker of the value row
  was found in place of a descriptor.  With \<open>zero_ends\<close> a zero type byte ends them.
\<close>

function read_descriptors :: "bool \<Rightarrow> u8 list \<Rightarrow> (u8 list \<times> bool) reader" where
  "read_descriptors zero_ends types b = (case read_u8 b of
       (Inl e, b1) \<Rightarrow> if is_underflow e then (Inr (types, False), b1) else (Inl e, b1)
     | (Inr t, b1) \<Rightarrow>
         if zero_ends \<and> t = 0 then (Inr (types, False), b1)
         else if t = 0x07 then (Inr (types, True), b1)
         else if 1024 \<le> length types then (Inl (Protocol ''too many bind descriptors''), b1)
         else (case descriptor_fields b1 of
             (Inl e, b2) \<Rightarrow> (Inl e, b2)
           | (Inr _, b2) \<Rightarrow> read_descriptors zero_ends (types @ [t]) b2))"
  by pat_completeness auto
termination
proof -
  have d: "remaining b2 < remaining b"
    if "(Inr t, b1) = read_u8 b" "(x, b2) = descriptor_fields b1" for b t b1 x b2
    using read_u8_consumes [of b t b1] forward_remaining [OF forward_descriptor_fields, of b1 x b2] that
    by (metis order.strict_trans1)
  show ?thesis
    by (relation "measure (\<lambda>(z, ts, b). remaining b)") (auto dest: d)
qed

declare read_descriptors.simps [simp del]

text \<open>One value per type; a short read ends the row without an error.\<close>

fun read_values :: "u8 list \<Rightarrow> bind_value list reader" where
  "read_values [] b = ok [] b"
| "read_values (t # ts) b = (case read_bytes_with_length b of
       (Inr raw, b1) \<Rightarrow>
         (case decode_bind_value t raw of
            Inl e \<Rightarrow> (Inl e, b1)
          | Inr v \<Rightarrow> let_ok (read_values ts) (\<lambda>vs. ok (v # vs)) b1)
     | (Inl e, b1) \<Rightarrow> if is_underflow e then (Inr [], b1) else (Inl e, b1))"

text \<open>The rows of an array bind after the first, each behind its marker.\<close>

fun read_rows :: "bool \<Rightarrow> u8 list \<Rightarrow> nat \<Rightarrow> bind_value list list reader" where
  "read_rows strict types 0 b = ok [] b"
| "read_rows strict types (Suc n) b = (case read_u8 b of
       (Inr m, b1) \<Rightarrow>
         if m = 0x07
         then let_ok (read_values types) (\<lambda>row.
              let_ok (read_rows strict types n) (\<lambda>rows. ok (row # rows))) b1
         else if strict
         then (Inl (Protocol (''expected array-bind RowData marker, got '' @ show_nat (unat m))), b1)
         else (Inr [], b1)
     | (Inl e, b1) \<Rightarrow> if is_underflow e \<or> \<not> strict then (Inr [], b1) else (Inl e, b1))"

text \<open>The value block: the first row, and for an array bind all of them.\<close>

definition read_value_block :: "bool \<Rightarrow> u8 list \<Rightarrow> u32 \<Rightarrow> (bind_value list \<times> bind_value list list) reader" where
  "read_value_block strict types iters =
     let_ok (read_values types) (\<lambda>first.
     let_ok (if 1 < iters
             then let_ok (read_rows strict types (unat iters - 1)) (\<lambda>rows. ok (first # rows))
             else ok []) (\<lambda>rows b.
       let_ok (skip (remaining b)) (\<lambda>_. ok (first, rows)) b))"

text \<open>The thirteen option words after the SQL; the second is the iteration count.\<close>

fun read_options :: "nat \<Rightarrow> nat \<Rightarrow> u32 \<Rightarrow> u32 reader" where
  "read_options i 0 iters = ok iters"
| "read_options i (Suc n) iters =
     let_ok read_ub4 (\<lambda>v. read_options (i + 1) n (if i = 1 then v else iters))"

section \<open>The fixed layout\<close>

definition preamble_mid :: "field list" where
  "preamble_mid = replicate 5 U8 @ [U8, UB4, UB4] @ replicate 3 U8 @
     [UB4, U8, UB4, UB4, U8, UB4, U8, UB4, U8, UB4, U8, UB4, U8, UB4]"

definition parse_execute_strict_r :: "execute_request reader" where
  "parse_execute_strict_r =
     let_ok (skip_fields (call_header @ [UB4, UB4])) (\<lambda>_.
     let_ok read_u8 (\<lambda>sql_ptr.
     let_ok read_ub4 (\<lambda>sql_len.
     if sql_ptr = 0 \<or> sql_len = 0 then ok empty_request
     else
     let_ok (skip_fields [U8, UB4, U8, U8, UB4]) (\<lambda>_.
     let_ok read_ub4 (\<lambda>prefetch.
     let_ok (skip_fields [UB4]) (\<lambda>_.
     let_ok read_u8 (\<lambda>binds_ptr.
     let_ok read_ub4 (\<lambda>num_binds.
     let_ok (skip_fields preamble_mid) (\<lambda>_.
     let_ok read_bytes_with_length (\<lambda>raw_text.
     case raw_text of None \<Rightarrow> fail (Protocol ''execute request omitted SQL text'')
     | Some raw \<Rightarrow>
     if length raw \<noteq> unat sql_len then fail (Protocol ''execute SQL length does not match header'')
     else (case from_utf8 (\<lambda>e. Protocol (''execute SQL is not UTF-8: '' @ e)) raw of
       Inl e \<Rightarrow> fail e
     | Inr text \<Rightarrow>
     let_ok (read_options 0 13 1) (\<lambda>num_iters.
     let_ok (if binds_ptr \<noteq> 0 then read_descriptors False [] else ok ([], False)) (\<lambda>(types, marker_read).
     let request = (\<lambda>(binds, rows). \<lparr>sql = text, binds = binds, bind_types = types,
       prefetch = prefetch, num_iters = num_iters, bind_rows = rows\<rparr>) in
     if num_binds = 0 then ok (request ([], []))
     else
     let_ok (if marker_read then ok (Some 0x07)
             else (\<lambda>b. case read_u8 b of
                 (Inr m, b1) \<Rightarrow> (Inr (Some m), b1)
               | (Inl e, b1) \<Rightarrow> if is_underflow e then (Inr None, b1) else (Inl e, b1))) (\<lambda>row_marker.
     case row_marker of
       None \<Rightarrow> ok (request ([], []))
     | Some m \<Rightarrow>
       if m \<noteq> 0x07
       then fail (Protocol (''expected bind RowData marker, got '' @ show_nat (unat m)))
       else let_ok (read_value_block True types num_iters) (\<lambda>vs. ok (request vs))))))))))))))))"

definition parse_execute_strict :: "bytes \<Rightarrow> error + execute_request" where
  "parse_execute_strict = run_reader parse_execute_strict_r"

section \<open>The scanned layout\<close>

definition sql_byte :: "u8 \<Rightarrow> bool" where
  "sql_byte b \<longleftrightarrow> b = 9 \<or> b = 10 \<or> b = 13 \<or> (0x20 \<le> b \<and> b < 0x7f) \<or> 0x80 \<le> b"

definition sql_body_at :: "bytes \<Rightarrow> nat \<Rightarrow> nat \<Rightarrow> bool" where
  "sql_body_at tail sql_len i \<longleftrightarrow>
     (i = 0 \<or> tail ! (i - 1) \<in> {0x00, 0x01, 0xFE} \<or> tail ! (i - 1) = word_of_nat sql_len)
     \<and> (let text = take sql_len (drop i tail) in
         utf8_valid text \<and>
         (case trim_start (bytes_str text) of [] \<Rightarrow> False
          | c # r \<Rightarrow> (is_ascii_alphabetic c \<or> c = CHR ''('') \<and> list_all sql_byte (str_bytes (c # r))))"

definition locate_sql_body :: "bytes \<Rightarrow> nat \<Rightarrow> nat option" where
  "locate_sql_body tail sql_len =
     (if sql_len = 0 \<or> length tail < sql_len then None
      else find (sql_body_at tail sql_len) [0 ..< Suc (length tail - sql_len)])"

definition parse_execute_scan_r :: "execute_request reader" where
  "parse_execute_scan_r =
     let_ok (skip_fields (call_header @ [UB4, UB4])) (\<lambda>_.
     let_ok read_u8 (\<lambda>sql_ptr.
     let_ok read_ub4 (\<lambda>sql_len.
     if sql_ptr = 0 \<or> sql_len = 0 then ok empty_request
     else
     let_ok (skip_fields [U8, UB4, U8, U8, UB4]) (\<lambda>_.
     let_ok read_ub4 (\<lambda>prefetch.
     (\<lambda>b. case locate_sql_body (remaining_slice b) (unat sql_len) of
       None \<Rightarrow> fail (Protocol ''could not locate SQL text in execute request'') b
     | Some rel \<Rightarrow>
     let_ok (skip rel) (\<lambda>_.
     let_ok (read_bytes_vec (unat sql_len)) (\<lambda>raw.
     (case from_utf8 (\<lambda>e. Protocol (''execute SQL is not UTF-8: '' @ e)) raw of
       Inl e \<Rightarrow> fail e
     | Inr text \<Rightarrow>
     let_ok (read_options 0 13 1) (\<lambda>num_iters.
     let_ok (read_descriptors True []) (\<lambda>(types, marker_read).
     let request = (\<lambda>(binds, rows). \<lparr>sql = text, binds = binds, bind_types = types,
       prefetch = prefetch, num_iters = num_iters, bind_rows = rows\<rparr>) in
     if types = [] then ok (request ([], []))
     else
     let_ok (if marker_read then ok () else (\<lambda>b. (Inr (), snd (read_u8 b)))) (\<lambda>_.
     let_ok (read_value_block False types num_iters) (\<lambda>vs. ok (request vs)))))))) b))))))"

definition parse_execute_scan :: "bytes \<Rightarrow> error + execute_request" where
  "parse_execute_scan = run_reader parse_execute_scan_r"

text \<open>The scan runs when the fixed layout does not fit; the first error is reported.\<close>

definition parse_execute_request :: "bytes \<Rightarrow> error + execute_request" where
  "parse_execute_request payload = (case parse_execute_strict payload of
       Inr request \<Rightarrow> Inr request
     | Inl strict_err \<Rightarrow>
         (case parse_execute_scan payload of
            Inr request \<Rightarrow> Inr request
          | Inl _ \<Rightarrow> Inl strict_err))"

section \<open>Reexecute and Fetch\<close>

text \<open>At most 24 bytes are looked at for the marker of the value row.\<close>

fun find_row_marker :: "nat \<Rightarrow> bool reader" where
  "find_row_marker 0 b = ok False b"
| "find_row_marker (Suc n) b = (case read_u8 b of
       (Inr m, b1) \<Rightarrow> if m = 0x07 then (Inr True, b1) else find_row_marker n b1
     | (Inl e, b1) \<Rightarrow> (Inr False, b1))"

definition parse_reexecute_request :: "bytes \<Rightarrow> string \<Rightarrow> u8 list \<Rightarrow> error + execute_request" where
  "parse_reexecute_request payload text types0 = run_reader
     (let_ok (skip_fields (call_header @ [UB4])) (\<lambda>_.
      let_ok read_ub4 (\<lambda>prefetch.
      let_ok (if types0 = [] then ok []
              else let_ok (find_row_marker 24) (\<lambda>found.
                if found then read_values types0
                else fail (Protocol ''reexecute: no bind RowData marker''))) (\<lambda>binds.
      ok \<lparr>sql = text, binds = binds, bind_types = types0, prefetch = prefetch,
          num_iters = 1, bind_rows = []\<rparr>)))) payload"

definition parse_fetch_request :: "bytes \<Rightarrow> error + u16 \<times> u32" where
  "parse_fetch_request payload = run_reader
     (let_ok (skip_fields call_header) (\<lambda>_.
      let_ok read_ub4 (\<lambda>c.
      let_ok read_ub4 (\<lambda>num_rows. ok (ucast c, num_rows))))) payload"

definition parse_fetch_request_oci :: "bytes \<Rightarrow> error + u16 \<times> u32" where
  "parse_fetch_request_oci payload =
     (if length payload < 13 then Inl (Protocol ''OCI fetch request too short'')
      else Inr (ucast (from_le (take 4 (drop 5 payload)) :: u32), from_le (take 4 (drop 9 payload))))"

section \<open>The OCI layout\<close>

definition oci_keywords :: "string list" where
  "oci_keywords = [''SELECT'', ''INSERT'', ''UPDATE'', ''DELETE'', ''WITH '', ''MERGE '', ''BEGIN'',
     ''DECLARE'', ''ALTER'', ''CREATE'', ''DROP '', ''TRUNCATE'', ''COMMENT'', ''GRANT '', ''REVOKE'',
     ''RENAME'', ''CALL '', ''COMMIT'', ''ROLLBACK'', ''SAVEPOINT'', ''SET '', ''LOCK '', ''REFRESH'',
     ''ANALYZE'']"

definition run_byte :: "u8 \<Rightarrow> bool" where
  "run_byte b \<longleftrightarrow> (33 \<le> b \<and> b \<le> 126) \<or> b = 32 \<or> b = 10 \<or> b = 9 \<or> b = 13 \<or> 0x80 \<le> b"

definition graphic_run :: "bytes \<Rightarrow> nat \<Rightarrow> nat" where
  "graphic_run p i = length (takeWhile run_byte (drop i p))"

definition is_kw_at :: "bytes \<Rightarrow> nat \<Rightarrow> bool" where
  "is_kw_at p i \<longleftrightarrow> list_ex (\<lambda>kw. word_at kw (bytes_str (drop i p))) oci_keywords"

text \<open>The run without trailing blanks and line feeds.\<close>

fun run_trimmed :: "bytes \<Rightarrow> nat \<Rightarrow> nat \<Rightarrow> nat" where
  "run_trimmed p i 0 = 0"
| "run_trimmed p i (Suc r) = (if p ! (i + r) = 32 \<or> p ! (i + r) = 10 then run_trimmed p i r else Suc r)"

text \<open>The two length prefixes a text at \<open>i\<close> may have: one byte, or four.\<close>

definition prefix_one :: "bytes \<Rightarrow> nat \<Rightarrow> nat" where
  "prefix_one p i = unat (p ! (i - 1))"

definition prefix_four :: "bytes \<Rightarrow> nat \<Rightarrow> nat" where
  "prefix_four p i = nat_of_be [p ! (i - 4), p ! (i - 3), p ! (i - 2), p ! (i - 1)]"

definition prefixed_run :: "bytes \<Rightarrow> nat \<Rightarrow> bool" where
  "prefixed_run p i \<longleftrightarrow>
     (let run = graphic_run p i; trimmed = run_trimmed p i run in
      (prefix_one p i = trimmed \<or> prefix_one p i = run \<or> prefix_four p i = trimmed \<or> prefix_four p i = run)
      \<and> 0 < trimmed)"

text \<open>Back over opening parentheses and blanks.\<close>

fun back_over :: "bytes \<Rightarrow> nat \<Rightarrow> nat" where
  "back_over p 0 = 0"
| "back_over p (Suc i) =
     (if 4 < Suc i \<and> (p ! i = 40 \<or> p ! i = 32) then back_over p i else Suc i)"

definition oci_fallback_end :: "bytes \<Rightarrow> nat \<Rightarrow> nat" where
  "oci_fallback_end p i =
     (let one = prefix_one p i; four = prefix_four p i; trimmed = run_trimmed p i (graphic_run p i) in
      if (1 \<le> one \<and> one \<le> length p - i) \<and> one \<le> max trimmed one then i + one
      else if 1 \<le> four \<and> four \<le> length p - i then i + four
      else i + max trimmed 1)"

text \<open>
  The first keyword whose length prefix fits wins; failing that, the first keyword.
\<close>

fun oci_sql_span :: "bytes \<Rightarrow> nat list \<Rightarrow> (nat \<times> nat) option \<Rightarrow> (nat \<times> nat) option" where
  "oci_sql_span p [] first = first"
| "oci_sql_span p (i # is) first =
     (if \<not> is_kw_at p i then oci_sql_span p is first
      else if prefixed_run p i then Some (i, i + run_trimmed p i (graphic_run p i))
      else
        let q = back_over p i in
        if q < i \<and> p ! q = 40 \<and> prefixed_run p q
        then Some (q, q + run_trimmed p q (graphic_run p q))
        else oci_sql_span p is (if first = None then Some (i, oci_fallback_end p i) else first))"

definition oci_bind_types :: "u8 set" where
  "oci_bind_types = {1, 2, 8, 9, 11, 12, 23, 96, 100, 101, 180, 181, 182, 183, 231}"

text \<open>The type codes found in a descriptor region, and the offset after the last one.\<close>

function scan_types :: "bytes \<Rightarrow> nat \<Rightarrow> nat \<Rightarrow> u8 list \<Rightarrow> nat \<Rightarrow> u8 list \<times> nat" where
  "scan_types region want i found last_end =
     (if i + 4 \<le> length region \<and> length found < want
      then
        let dty = region ! i; flag = region ! (i + 1) in
        if dty \<in> oci_bind_types \<and> region ! (i + 2) = 0 \<and> region ! (i + 3) = 0
          \<and> flag \<in> {0x01, 0x03, 0x07, 0x21, 0x23}
        then scan_types region want (i + 4) (found @ [dty]) (i + 4)
        else scan_types region want (i + 1) found last_end
      else (found, last_end))"
  by pat_completeness auto
termination
  by (relation "measure (\<lambda>(region, want, i, found, last_end). length region - i)") auto

declare scan_types.simps [simp del]

definition scan_oci_bind_types :: "bytes \<Rightarrow> nat \<Rightarrow> u8 list \<times> nat" where
  "scan_oci_bind_types region want =
     (let (found, last_end) = scan_types region want 0 [] 0
      in (found @ replicate (want - length found) 1, last_end))"

text \<open>The values of an OCI row from offset \<open>p\<close> on, for the types left.\<close>

fun oci_values :: "bytes \<Rightarrow> nat \<Rightarrow> u8 list \<Rightarrow> error + bind_value list" where
  "oci_values region p [] = Inr []"
| "oci_values region p (t # ts) =
     (if length region \<le> p then Inr []
      else
        let len = unat (region ! p); p = p + 1;
            (raw, p) =
              (if len = 0 \<or> len = 0xff then (None, p)
               else if len = 0xfd then (None, p + 1)
               else if p + len \<le> length region then (Some (take len (drop p region)), p + len)
               else (None, p))
        in and_then (decode_bind_value t raw) (\<lambda>v.
           map_ok (\<lambda>vs. v # vs) (oci_values region p ts)))"

definition parse_execute_request_oci :: "bytes \<Rightarrow> error + execute_request" where
  "parse_execute_request_oci payload =
     (case oci_sql_span payload [4 ..< length payload] None of
        None \<Rightarrow> Inl (Protocol ''OCI execute request: no SQL text found'')
      | Some (start, stop) \<Rightarrow>
          let sql = trim_end (from_utf8_lossy (take (min stop (length payload) - start) (drop start payload)));
              nbinds = count_named_binds sql
          in map_ok (\<lambda>(types, binds). \<lparr>sql = sql, binds = binds, bind_types = types,
                prefetch = 0, num_iters = 1, bind_rows = []\<rparr>)
             (if nbinds = 0 then Inr ([], [])
              else
                let region = drop stop payload;
                    (types, after_desc) = scan_oci_bind_types region nbinds
                in map_ok (\<lambda>binds. (types, binds))
                  (case position (\<lambda>b. b = 0x07) (drop after_desc region) of
                     None \<Rightarrow> Inr []
                   | Some p \<Rightarrow> oci_values region (after_desc + p + 1)
                       (map (\<lambda>i. unwrap_or 1 (get_at types i)) [0 ..< nbinds]))))"

definition small_id :: "u32 \<Rightarrow> u16 option" where
  "small_id c = (if c = 0 \<or> 65535 < c then None else Some (ucast c))"

definition parse_reexecute_cursor_id_oci :: "bytes \<Rightarrow> u8 \<Rightarrow> u16 option" where
  "parse_reexecute_cursor_id_oci payload func_code =
     (if func_code \<noteq> 0x4E \<and> func_code \<noteq> 0x04 then None
      else if length payload < 9 then None
      else small_id (from_le (take 4 (drop 5 payload))))"

definition parse_reparse_cursor_id_oci :: "bytes \<Rightarrow> u16 option" where
  "parse_reparse_cursor_id_oci payload =
     (if length payload < 13 then None else small_id (from_le (take 4 (drop 9 payload))))"

text \<open>Whether \<open>n\<close> length-prefixed values from \<open>p\<close> on reach almost the end.\<close>

fun value_row_ok :: "bytes \<Rightarrow> nat \<Rightarrow> nat \<Rightarrow> bool" where
  "value_row_ok p pos 0 \<longleftrightarrow> length p - pos \<le> 3"
| "value_row_ok p pos (Suc n) \<longleftrightarrow>
     (if length p \<le> pos then False
      else
        let len = unat (p ! pos); pos = pos + 1 in
        if len = 0 \<or> len = 0xff then value_row_ok p pos n
        else if len = 0xfd then value_row_ok p (pos + 1) n
        else if pos + len \<le> length p then value_row_ok p (pos + len) n
        else False)"

definition parse_reexecute_request_oci_ex ::
    "bytes \<Rightarrow> string \<Rightarrow> u8 list \<Rightarrow> bool \<Rightarrow> error + execute_request" where
  "parse_reexecute_request_oci_ex payload text types0 rescan_types =
     (let nbinds = max (count_named_binds text) (length types0) in
      if nbinds = 0
      then Inr \<lparr>sql = text, binds = [], bind_types = [], prefetch = 0, num_iters = 1, bind_rows = []\<rparr>
      else
        let val_at = find (\<lambda>pos. payload ! pos = 0x07 \<and> value_row_ok payload (pos + 1) nbinds)
              (rev [0 ..< length payload]);
            types = (case val_at of
                None \<Rightarrow> types0
              | Some vr \<Rightarrow>
                  if rescan_types \<or> length types0 \<noteq> nbinds
                  then let start = vr - (64 + 8 * nbinds)
                    in fst (scan_oci_bind_types (take (vr - start) (drop start payload)) nbinds)
                  else types0)
        in map_ok (\<lambda>binds. \<lparr>sql = text, binds = binds, bind_types = types, prefetch = 0,
              num_iters = 1, bind_rows = []\<rparr>)
            (case val_at of None \<Rightarrow> Inr [] | Some pos \<Rightarrow> oci_values payload (pos + 1) types))"

definition parse_reexecute_request_oci :: "bytes \<Rightarrow> string \<Rightarrow> u8 list \<Rightarrow> error + execute_request" where
  "parse_reexecute_request_oci payload text types0 =
     parse_reexecute_request_oci_ex payload text types0 False"

end
