(* ===== verification/End_Of_Call.thy ===== *)
theory End_Of_Call
  imports Message_Fields
begin

text \<open>
  The end-of-call messages of \<^verbatim>\<open>src/src/wire.rs\<close> in their four layouts (lenient, strict,
  Fetch continuation, JDBC), and what a client that steps over the fields of its layout
  finds in them.
\<close>

definition TTC_MSG_PARAMETER :: u8 where "TTC_MSG_PARAMETER = 0x08"
definition TTC_MSG_STATUS :: u8 where "TTC_MSG_STATUS = 0x09"
definition TTC_MSG_END_OF_RESPONSE :: u8 where "TTC_MSG_END_OF_RESPONSE = 0x1d"

section \<open>The writers\<close>

definition write_end_of_call ::
    "u32 \<Rightarrow> string option \<Rightarrow> u64 \<Rightarrow> bool \<Rightarrow> u16 \<Rightarrow> write_buffer \<Rightarrow> write_buffer" where
  "write_end_of_call error_code message row_count has_more error_pos = emit [
     write_u8 0x04,
     write_ub4 0, write_ub2 0, write_ub4 0, write_ub2 0, write_ub2 0, write_ub2 0,
     write_ub2 (if has_more then 1 else 0),
     write_sb2 error_pos,
     write_zeros 5,
     write_u8 (if has_more then 0x20 else 0),
     write_zeros 6,
     write_u8 0, write_u8 0,
     write_ub2 0, write_ub4 0, write_ub4 0, write_ub2 0, write_ub4 0, write_ub2 0,
     write_ub4 error_code,
     write_ub8 row_count,
     write_ub4 0, write_ub4 0,
     if error_code \<noteq> 0 then write_string_with_length message else emit []]"

definition write_end_of_call_ext ::
    "u32 \<Rightarrow> string option \<Rightarrow> u64 \<Rightarrow> bool \<Rightarrow> bool \<Rightarrow> u16 \<Rightarrow> write_buffer \<Rightarrow> write_buffer" where
  "write_end_of_call_ext error_code message row_count has_more strict error_pos =
     (if \<not> strict then write_end_of_call error_code message row_count has_more error_pos
      else emit [
     write_u8 0x04,
     write_ub4 0, write_ub2 0, write_ub4 0, write_ub2 0, write_ub2 0, write_ub2 0,
     write_ub2 (if has_more then 1 else 0),
     write_sb2 error_pos,
     write_zeros 5,
     write_u8 (if has_more then 0x20 else 0),
     write_zeros 5,
     write_ub4 0,
     write_u8 0, write_u8 0,
     write_ub2 0, write_ub4 0,
     write_u8 0,
     write_ub2 0, write_ub4 0, write_ub2 0,
     write_ub4 error_code,
     write_ub8 row_count,
     if error_code \<noteq> 0 then write_string_with_length message else emit []])"

definition write_fetch_end_of_call ::
    "u32 \<Rightarrow> string option \<Rightarrow> u64 \<Rightarrow> bool \<Rightarrow> write_buffer \<Rightarrow> write_buffer" where
  "write_fetch_end_of_call error_code message row_count has_more = emit [
     write_u8 0x04,
     write_ub4 0, write_ub2 0, write_ub4 0, write_ub2 0, write_ub2 0, write_ub2 0,
     write_ub2 (if has_more then 1 else 0),
     write_sb2 0,
     write_zeros 5,
     write_u8 (if has_more then 0x20 else 0),
     write_zeros 10,
     write_ub4 0,
     write_u8 0, write_u8 0,
     write_ub2 0, write_ub4 0, write_ub4 0, write_ub2 0, write_ub4 0, write_ub2 0,
     write_ub4 error_code,
     write_ub8 row_count,
     if error_code \<noteq> 0 then write_string_with_length message else emit []]"

definition write_end_of_call_jdbc ::
    "u32 \<Rightarrow> string option \<Rightarrow> u64 \<Rightarrow> bool \<Rightarrow> u8 \<Rightarrow> u16 \<Rightarrow> u16 \<Rightarrow> write_buffer \<Rightarrow> write_buffer" where
  "write_end_of_call_jdbc error_code message row_count has_more req_seq cursor_id error_pos = emit [
     write_u8 0x04,
     write_ub4 0, write_ub2 0,
     write_ub4 (ucast row_count),
     write_ub2 (ucast error_code),
     write_ub2 0, write_ub2 0,
     write_ub2 (if has_more then max cursor_id 1 else 0),
     write_sb2 error_pos,
     write_u8 0, write_u8 0,
     write_ub2 (if has_more then 0x20 else 0),
     write_u8 0, write_u8 0, write_u8 0,
     write_ub4 0, write_ub2 0, write_u8 0, write_ub4 0, write_ub2 0, write_ub4 0,
     write_u8 0,
     write_u8 req_seq,
     write_ub2 0, write_ub4 0, write_ub4 0, write_ub4 0, write_ub4 0, write_ub4 0,
     write_ub4 error_code,
     write_ub8 row_count,
     if error_code \<noteq> 0 then write_string_with_length message else emit []]"

definition row_count_field :: "bool \<Rightarrow> u64" where
  "row_count_field has_more = (if has_more then 1 else 0)"

section \<open>The client's side\<close>

text \<open>
  Where a client of each layout finds the cursor id, the error number, the row count and
  the message: the fields it steps over before the cursor id, between that and the error
  number, and after the row count.
\<close>

record layout =
  before_cursor :: "field list"
  before_code :: "field list"
  after_rows :: "field list"

record call_end =
  ce_cursor :: u16
  ce_code :: u32
  ce_rows :: u64
  ce_message :: "string option"

definition read_call_end :: "layout \<Rightarrow> call_end reader" where
  "read_call_end l =
     let_ok (skip_fields (before_cursor l)) (\<lambda>_.
     let_ok read_ub2 (\<lambda>cursor.
     let_ok (skip_fields (before_code l)) (\<lambda>_.
     let_ok read_ub4 (\<lambda>errno.
     let_ok read_ub8 (\<lambda>rows.
     let_ok (skip_fields (after_rows l)) (\<lambda>_.
     let_ok (if errno \<noteq> 0 then read_string_with_length else ok None) (\<lambda>msg.
       ok \<lparr>ce_cursor = cursor, ce_code = errno, ce_rows = rows, ce_message = msg\<rparr>)))))))"

text \<open>What a writer puts around the four values: three runs of items.\<close>

lemma read_call_end_items:
  assumes l: "before_cursor l = map kind a" "before_code l = map kind b" "after_rows l = map kind c"
    and m: "errno \<noteq> 0 \<Longrightarrow> utf8_opt msg"
  shows "read_call_end l (buf_at pre (put_items (a @ [IB2 cursor] @ b @ [IB4 errno, IB8 rows] @ c) []
            @ (if errno \<noteq> 0 then write_string_with_length msg [] else []) @ rest))
      = (Inr \<lparr>ce_cursor = cursor, ce_code = errno, ce_rows = rows,
               ce_message = (if errno \<noteq> 0 then msg else None)\<rparr>,
         buf_at (pre @ put_items (a @ [IB2 cursor] @ b @ [IB4 errno, IB8 rows] @ c) []
            @ (if errno \<noteq> 0 then write_string_with_length msg [] else [])) rest)"
proof -
  have e: "put_items (a @ [IB2 cursor] @ b @ [IB4 errno, IB8 rows] @ c) []
      = put_items a [] @ write_ub2 cursor [] @ put_items b [] @ write_ub4 errno [] @ write_ub8 rows []
        @ put_items c []"
    by (simp only: put_items_append put_items_Cons put_item.simps put_items_simps(1) append_Nil2 append_assoc)
  have s: "read_string_with_length (buf_at p (write_string_with_length msg [] @ rest))
      = (Inr msg, buf_at (p @ write_string_with_length msg []) rest)" if "errno \<noteq> 0" for p
    using m [OF that] by (rule str.get_put)
  show ?thesis
    unfolding e append_assoc
    by (simp add: read_call_end_def l skip_items ub2.get_put ub4.get_put ub8.get_put s)
qed

definition common_head :: "field list" where
  "common_head = [U8, UB4, UB2, UB4, UB2, UB2, UB2]"

definition lenient_layout :: layout where
  "lenient_layout = \<lparr>before_cursor = common_head,
     before_code = SB2 # replicate 14 U8 @ [UB2, UB4, UB4, UB2, UB4, UB2],
     after_rows = [UB4, UB4]\<rparr>"

definition strict_layout :: layout where
  "strict_layout = \<lparr>before_cursor = common_head,
     before_code = SB2 # replicate 11 U8 @ [UB4, U8, U8, UB2, UB4, U8, UB2, UB4, UB2],
     after_rows = []\<rparr>"

definition fetch_layout :: layout where
  "fetch_layout = \<lparr>before_cursor = common_head,
     before_code = SB2 # replicate 16 U8 @ [UB4, U8, U8, UB2, UB4, UB4, UB2, UB4, UB2],
     after_rows = []\<rparr>"

definition jdbc_layout :: layout where
  "jdbc_layout = \<lparr>before_cursor = common_head,
     before_code = [SB2, U8, U8, UB2, U8, U8, U8, UB4, UB2, U8, UB4, UB2, UB4, U8, U8, UB2]
       @ replicate 5 UB4,
     after_rows = []\<rparr>"

lemmas layout_defs = common_head_def lenient_layout_def strict_layout_def fetch_layout_def jdbc_layout_def

text \<open>The items each writer consists of.\<close>

definition head_items :: "u32 \<Rightarrow> u16 \<Rightarrow> item list" where
  "head_items row short_errno =
     [I8 0x04, IB4 0, IB2 0, IB4 row, IB2 short_errno, IB2 0, IB2 0]"

definition zeros :: "nat \<Rightarrow> item list" where
  "zeros n = replicate n (I8 0)"

definition flag_items :: "bool \<Rightarrow> item list" where
  "flag_items has_more = zeros 5 @ [I8 (if has_more then 0x20 else 0)]"

definition lenient_mid :: "bool \<Rightarrow> u16 \<Rightarrow> item list" where
  "lenient_mid has_more pos = [IS2 pos] @ flag_items has_more @ zeros 6 @ [I8 0, I8 0,
     IB2 0, IB4 0, IB4 0, IB2 0, IB4 0, IB2 0]"

definition strict_mid :: "bool \<Rightarrow> u16 \<Rightarrow> item list" where
  "strict_mid has_more pos = [IS2 pos] @ flag_items has_more @ zeros 5 @ [IB4 0, I8 0, I8 0,
     IB2 0, IB4 0, I8 0, IB2 0, IB4 0, IB2 0]"

definition fetch_mid :: "bool \<Rightarrow> item list" where
  "fetch_mid has_more = [IS2 0] @ flag_items has_more @ zeros 10 @ [IB4 0, I8 0, I8 0,
     IB2 0, IB4 0, IB4 0, IB2 0, IB4 0, IB2 0]"

definition jdbc_mid :: "bool \<Rightarrow> u16 \<Rightarrow> u8 \<Rightarrow> item list" where
  "jdbc_mid has_more pos req_seq = [IS2 pos, I8 0, I8 0, IB2 (if has_more then 0x20 else 0)]
     @ [I8 0, I8 0, I8 0, IB4 0, IB2 0, I8 0, IB4 0, IB2 0, IB4 0, I8 0, I8 req_seq, IB2 0]
     @ [IB4 0, IB4 0, IB4 0, IB4 0, IB4 0]"

lemma put_zeros: "put_items (zeros n) b = write_zeros n b"
  by (induction n arbitrary: b)
    (simp_all add: zeros_def write_zeros_def funpow_swap1)

text \<open>A writer that lays down a block of items and then the message, if there is an error.\<close>

definition call_items :: "u32 \<Rightarrow> u16 \<Rightarrow> u16 \<Rightarrow> item list \<Rightarrow> u32 \<Rightarrow> u64 \<Rightarrow> item list \<Rightarrow> item list" where
  "call_items row short_errno cursor mid errno rows tail =
     head_items row short_errno @ [IB2 cursor] @ mid @ [IB4 errno, IB8 rows] @ tail"

definition message_part :: "u32 \<Rightarrow> string option \<Rightarrow> bytes" where
  "message_part errno msg = (if errno \<noteq> 0 then write_string_with_length msg [] else [])"

lemma message_tail:
  "(if errno \<noteq> 0 then write_string_with_length msg else emit []) b = b @ message_part errno msg"
  by (simp add: message_part_def flip: write_string_with_length_app)

lemmas end_of_call_defs = write_end_of_call_def write_end_of_call_ext_def
  write_fetch_end_of_call_def write_end_of_call_jdbc_def

lemmas mid_defs = head_items_def flag_items_def lenient_mid_def strict_mid_def fetch_mid_def
  jdbc_mid_def call_items_def

lemmas emit_items = end_of_call_defs mid_defs emit_simps put_items_simps put_item.simps append_assoc
  append_Cons append_Nil put_zeros message_tail

lemma emitted_items: "put_items ms b @ m = w \<Longrightarrow> w = b @ put_items ms [] @ m"
  by (subst (asm) items.put_appends) simp

lemma lenient_items: "write_end_of_call errno msg rows has_more pos b = b @
    put_items (call_items 0 0 (if has_more then 1 else 0) (lenient_mid has_more pos) errno rows
      [IB4 0, IB4 0]) [] @ message_part errno msg"
  by (rule emitted_items) (simp only: emit_items)

lemma strict_items: "write_end_of_call_ext errno msg rows has_more True pos b = b @
    put_items (call_items 0 0 (if has_more then 1 else 0) (strict_mid has_more pos) errno rows []) []
    @ message_part errno msg"
  by (rule emitted_items) (simp only: emit_items not_True_eq_False if_False)

lemma fetch_items: "write_fetch_end_of_call errno msg rows has_more b = b @
    put_items (call_items 0 0 (if has_more then 1 else 0) (fetch_mid has_more) errno rows []) []
    @ message_part errno msg"
  by (rule emitted_items) (simp only: emit_items)

lemma jdbc_items: "write_end_of_call_jdbc errno msg rows has_more req_seq cursor pos b = b @
    put_items (call_items (ucast rows) (ucast errno) (if has_more then max cursor 1 else 0)
      (jdbc_mid has_more pos req_seq) errno rows []) []
    @ message_part errno msg"
  by (rule emitted_items) (simp only: emit_items)

text \<open>The kinds of those items are the layouts.\<close>

lemma map_kind_zeros: "map kind (zeros n) = replicate n U8"
  by (simp add: zeros_def)

lemma layout_kinds:
  "map kind (head_items r e) = common_head"
  "map kind (lenient_mid m p) = before_code lenient_layout"
  "map kind (strict_mid m p) = before_code strict_layout"
  "map kind (fetch_mid m) = before_code fetch_layout"
  "map kind (jdbc_mid m p q) = before_code jdbc_layout"
  by (simp_all add: mid_defs layout_defs map_kind_zeros numeral_eq_Suc)

text \<open>
  One theorem for the four writers: a writer that puts a block of items and the message
  is read back by the layout that has the kinds of the items.
\<close>

lemma read_call_items:
  assumes "before_cursor l = common_head" "before_code l = map kind mid" "after_rows l = map kind tail"
    and "errno \<noteq> 0 \<Longrightarrow> utf8_opt msg"
  shows "read_call_end l (buf_at pre (put_items (call_items r e cursor mid errno rows tail) []
            @ message_part errno msg @ rest))
      = (Inr \<lparr>ce_cursor = cursor, ce_code = errno, ce_rows = rows,
               ce_message = (if errno \<noteq> 0 then msg else None)\<rparr>,
         buf_at (pre @ put_items (call_items r e cursor mid errno rows tail) []
            @ message_part errno msg) rest)"
  unfolding call_items_def message_part_def
  using assms by (intro read_call_end_items) (simp_all add: layout_kinds(1))

lemma read_lenient:
  "(errno \<noteq> 0 \<Longrightarrow> utf8_opt msg) \<Longrightarrow>
   read_call_end lenient_layout (buf_at pre (write_end_of_call errno msg rows has_more pos [] @ rest))
     = (Inr \<lparr>ce_cursor = (if has_more then 1 else 0), ce_code = errno, ce_rows = rows,
              ce_message = (if errno \<noteq> 0 then msg else None)\<rparr>,
        buf_at (pre @ write_end_of_call errno msg rows has_more pos []) rest)"
  unfolding lenient_items append_Nil append_assoc
  by (rule read_call_items) (simp_all add: layout_kinds lenient_layout_def)

lemma read_strict:
  "(errno \<noteq> 0 \<Longrightarrow> utf8_opt msg) \<Longrightarrow>
   read_call_end strict_layout (buf_at pre (write_end_of_call_ext errno msg rows has_more True pos [] @ rest))
     = (Inr \<lparr>ce_cursor = (if has_more then 1 else 0), ce_code = errno, ce_rows = rows,
              ce_message = (if errno \<noteq> 0 then msg else None)\<rparr>,
        buf_at (pre @ write_end_of_call_ext errno msg rows has_more True pos []) rest)"
  unfolding strict_items append_Nil append_assoc
  by (rule read_call_items) (simp_all add: layout_kinds strict_layout_def)

lemma read_fetch_end:
  "(errno \<noteq> 0 \<Longrightarrow> utf8_opt msg) \<Longrightarrow>
   read_call_end fetch_layout (buf_at pre (write_fetch_end_of_call errno msg rows has_more [] @ rest))
     = (Inr \<lparr>ce_cursor = (if has_more then 1 else 0), ce_code = errno, ce_rows = rows,
              ce_message = (if errno \<noteq> 0 then msg else None)\<rparr>,
        buf_at (pre @ write_fetch_end_of_call errno msg rows has_more []) rest)"
  unfolding fetch_items append_Nil append_assoc
  by (rule read_call_items) (simp_all add: layout_kinds fetch_layout_def)

lemma read_jdbc:
  "(errno \<noteq> 0 \<Longrightarrow> utf8_opt msg) \<Longrightarrow>
   read_call_end jdbc_layout (buf_at pre (write_end_of_call_jdbc errno msg rows has_more q cursor pos [] @ rest))
     = (Inr \<lparr>ce_cursor = (if has_more then max cursor 1 else 0), ce_code = errno, ce_rows = rows,
              ce_message = (if errno \<noteq> 0 then msg else None)\<rparr>,
        buf_at (pre @ write_end_of_call_jdbc errno msg rows has_more q cursor pos []) rest)"
  unfolding jdbc_items append_Nil append_assoc
  by (rule read_call_items) (simp_all add: layout_kinds jdbc_layout_def)

end
