(* ===== verification/Response.thy ===== *)
theory Response
  imports End_Of_Call
begin

text \<open>
  The responses of \<^verbatim>\<open>src/src/wire.rs\<close> to the thin clients (python-oracledb, oracle-rs, ojdbc,
  ODP.NET): column descriptions, rows, acknowledgements of DML, errors.  The client's side
  of a result (columns, rows, end of call) is read back at the end.
\<close>

section \<open>Column descriptions\<close>

text \<open>\<open>precision\<close> and \<open>scale\<close> are signed bytes.\<close>

record column_meta =
  col_name :: string
  col_type :: u8
  col_flags :: u8
  precision :: u8
  scale :: u8
  buffer_size :: u32
  max_size :: u32
  charset_id :: u16
  charset_form :: u8
  nullable :: bool
  schema :: "string option"
  type_name :: "string option"
  col_position :: u16

definition CHARSET_UTF8 :: u16 where "CHARSET_UTF8 = 873"

definition number_column :: "string \<Rightarrow> u8 \<Rightarrow> u8 \<Rightarrow> column_meta" where
  "number_column n p s = \<lparr>col_name = n, col_type = 2, col_flags = 0, precision = p, scale = s,
     buffer_size = 22, max_size = 22, charset_id = 0, charset_form = 0, nullable = True,
     schema = None, type_name = None, col_position = 1\<rparr>"

definition raw_column :: "string \<Rightarrow> u32 \<Rightarrow> column_meta" where
  "raw_column n sz = \<lparr>col_name = n, col_type = 23, col_flags = 0, precision = 0, scale = 0,
     buffer_size = sz, max_size = sz, charset_id = 0, charset_form = 0, nullable = True,
     schema = None, type_name = None, col_position = 1\<rparr>"

definition varchar_column :: "string \<Rightarrow> u32 \<Rightarrow> column_meta" where
  "varchar_column n sz = \<lparr>col_name = n, col_type = 1, col_flags = 0, precision = 0, scale = 0,
     buffer_size = sz, max_size = sz, charset_id = CHARSET_UTF8, charset_form = 1,
     nullable = True, schema = None, type_name = None, col_position = 1\<rparr>"

definition date_column :: "string \<Rightarrow> column_meta" where
  "date_column n = \<lparr>col_name = n, col_type = 12, col_flags = 0, precision = 0, scale = 0,
     buffer_size = 7, max_size = 7, charset_id = 0, charset_form = 0, nullable = True,
     schema = None, type_name = None, col_position = 1\<rparr>"

definition timestamp_column :: "string \<Rightarrow> u8 \<Rightarrow> column_meta" where
  "timestamp_column n s = \<lparr>col_name = n, col_type = 180, col_flags = 0, precision = 0, scale = s,
     buffer_size = 11, max_size = 11, charset_id = 0, charset_form = 0, nullable = True,
     schema = None, type_name = None, col_position = 1\<rparr>"

text \<open>Metadata strings: an outer length as presence mark, then the string itself.\<close>

definition write_string_with_ub4_length :: "string option \<Rightarrow> write_buffer \<Rightarrow> write_buffer" where
  "write_string_with_ub4_length v = (case v of
       Some s \<Rightarrow> emit [write_ub4 (word_of_nat (length s)), write_string_with_length (Some s)]
     | None \<Rightarrow> write_ub4 0)"

text \<open>The assertion on the length holds in debug builds only; a release build truncates.\<close>

definition write_dalc :: "bytes \<Rightarrow> write_buffer \<Rightarrow> write_buffer" where
  "write_dalc bs = emit [
     write_ub4 (word_of_nat (length bs)),
     if bs \<noteq> [] then emit [write_u8 (word_of_nat (length bs)), write_bytes bs] else emit []]"

definition write_column :: "column_meta \<Rightarrow> write_buffer \<Rightarrow> write_buffer" where
  "write_column c = emit [
     write_u8 (col_type c), write_u8 (col_flags c), write_u8 (precision c), write_u8 (scale c),
     write_ub4 (buffer_size c), write_ub4 0, write_ub8 0,
     write_bytes_with_length (Some []),
     write_ub2 1, write_ub2 (charset_id c), write_u8 (charset_form c), write_ub4 (max_size c),
     write_ub4 0,
     write_u8 (if nullable c then 1 else 0), write_u8 0,
     write_string_with_ub4_length (Some (col_name c)),
     write_string_with_ub4_length (schema c),
     write_string_with_ub4_length (type_name c),
     write_ub2 (col_position c), write_ub4 0]"

definition write_describe :: "bool \<Rightarrow> column_meta list \<Rightarrow> write_buffer \<Rightarrow> write_buffer" where
  "write_describe oci_dialect columns = emit ([
     if oci_dialect then emit [write_u8 23, write_u32_be 0x17, write_bytes (replicate 19 0)]
     else write_u8 0,
     write_ub4 0, write_ub4 (word_of_nat (length columns)), write_u8 0]
     @ map write_column columns
     @ [write_ub4 0, write_ub4 0, write_ub4 0, write_ub4 0, write_ub4 0, write_ub4 0])"

definition opt_text :: "string option \<Rightarrow> string" where
  "opt_text s = (case s of Some t \<Rightarrow> t | None \<Rightarrow> [])"

definition write_column_jdbc :: "bool \<Rightarrow> column_meta \<Rightarrow> write_buffer \<Rightarrow> write_buffer" where
  "write_column_jdbc compact_scale c = emit [
     write_u8 (col_type c), write_u8 (col_flags c), write_u8 (precision c),
     if compact_scale then write_sb1 (scale c) else write_u8 (scale c),
     write_ub4 (max (max_size c) (buffer_size c)), write_ub4 0, write_ub8 0,
     write_dalc [],
     write_ub2 1, write_ub2 (charset_id c), write_u8 (charset_form c), write_ub4 (max_size c),
     write_ub4 0,
     write_u8 (if nullable c then 1 else 0),
     write_u8 (word_of_nat (min (length (col_name c)) 255)),
     write_dalc (str_bytes (col_name c)),
     write_dalc (str_bytes (opt_text (schema c))),
     write_dalc (str_bytes (opt_text (type_name c))),
     write_ub2 (col_position c), write_ub4 0]"

definition write_describe_jdbc_ex :: "column_meta list \<Rightarrow> bool \<Rightarrow> write_buffer \<Rightarrow> write_buffer" where
  "write_describe_jdbc_ex columns compact_scale = emit ([
     write_u8 0, write_ub4 0, write_ub4 (word_of_nat (length columns)),
     if columns \<noteq> [] then write_u8 0 else emit []]
     @ map (write_column_jdbc compact_scale) columns
     @ [write_dalc [], write_ub4 0, write_ub4 0, write_ub4 0, write_ub4 0, write_dalc []])"

definition write_describe_jdbc :: "column_meta list \<Rightarrow> write_buffer \<Rightarrow> write_buffer" where
  "write_describe_jdbc columns = write_describe_jdbc_ex columns False"

section \<open>Rows\<close>

type_synonym cells = "bytes option list"

text \<open>\<^verbatim>\<open>row.get(i).cloned().flatten()\<close>: a missing cell is a NULL.\<close>

definition cell :: "cells \<Rightarrow> nat \<Rightarrow> bytes option" where
  "cell row i = (case get_at row i of Some v \<Rightarrow> v | None \<Rightarrow> None)"

definition write_row_header :: "write_buffer \<Rightarrow> write_buffer" where
  "write_row_header = emit [write_u8 0x06, write_ub1 0, write_ub2 0, write_ub4 0, write_ub4 0,
     write_ub2 0, write_ub4 0, write_ub4 0]"

definition write_row_header_jdbc :: "nat \<Rightarrow> write_buffer \<Rightarrow> write_buffer" where
  "write_row_header_jdbc n = emit [write_u8 0x06, write_u8 0,
     write_ub2 (word_of_nat n), write_ub2 0, write_ub2 (word_of_nat n), write_ub2 0,
     write_dalc [], write_dalc []]"

definition write_row :: "cells \<Rightarrow> write_buffer \<Rightarrow> write_buffer" where
  "write_row row = emit (write_u8 0x07 # map write_bytes_with_length row)"

definition end_of_fetch :: "bool \<Rightarrow> u32 \<times> string option" where
  "end_of_fetch has_more =
     (if has_more then (0, None) else (1403, Some ''ORA-01403: no data found''))"

section \<open>Queries and fetches\<close>

definition build_query_response_inner ::
    "column_meta list \<Rightarrow> cells list \<Rightarrow> u16 \<Rightarrow> bool \<Rightarrow> bool \<Rightarrow> bool \<Rightarrow> bool \<Rightarrow> u8 \<Rightarrow> bytes" where
  "build_query_response_inner columns rows cursor_id has_more response_completion
      newer_describe_framing oci_dialect req_seq =
     (let (errno, msg) = end_of_fetch has_more in emit [
        write_u16_be (if response_completion \<and> \<not> newer_describe_framing \<and> \<not> oci_dialect \<and> \<not> has_more
          then 0x2000 else 0),
        write_u8 0x10,
        if newer_describe_framing then write_describe_jdbc_ex columns True
        else write_describe oci_dialect columns,
        if newer_describe_framing \<and> rows \<noteq> [] then write_row_header_jdbc (length rows) else emit [],
        emit (map (\<lambda>row. write_row (map (cell row) [0..<length columns])) rows),
        if response_completion then
          (if newer_describe_framing
           then write_end_of_call_jdbc errno msg (row_count_field has_more) has_more req_seq cursor_id 0
           else emit [
             write_end_of_call_ext errno msg (row_count_field has_more) has_more True 0,
             if \<not> oci_dialect then write_u8 TTC_MSG_END_OF_RESPONSE else emit []])
        else write_end_of_call 0 None (row_count_field has_more) has_more 0] [])"

definition build_query_response_ex ::
    "column_meta list \<Rightarrow> cells list \<Rightarrow> u16 \<Rightarrow> bool \<Rightarrow> bool \<Rightarrow> bool \<Rightarrow> u8 \<Rightarrow> bool \<Rightarrow> bytes" where
  "build_query_response_ex columns rows cursor_id has_more response_completion
      newer_describe_framing req_seq compact_describe_scale =
     build_query_response_inner columns rows cursor_id has_more response_completion
       newer_describe_framing False req_seq"

definition build_query_response ::
    "column_meta list \<Rightarrow> cells list \<Rightarrow> u16 \<Rightarrow> bool \<Rightarrow> bool \<Rightarrow> bool \<Rightarrow> u8 \<Rightarrow> bytes" where
  "build_query_response columns rows cursor_id has_more response_completion
      newer_describe_framing req_seq =
     build_query_response_ex columns rows cursor_id has_more response_completion
       newer_describe_framing req_seq False"

definition build_fetch_response :: "cells list \<Rightarrow> u16 \<Rightarrow> bool \<Rightarrow> bool \<Rightarrow> bytes" where
  "build_fetch_response rows cursor_id has_more response_completion =
     (let (errno, msg) = end_of_fetch has_more in emit [
        write_u16_be (if response_completion \<and> \<not> has_more then 0x2000 else 0),
        emit (map (\<lambda>row. emit [write_row_header, write_row row]) rows),
        if response_completion then emit [
          write_end_of_call_ext errno msg (row_count_field has_more) has_more True 0,
          write_u8 TTC_MSG_END_OF_RESPONSE]
        else write_fetch_end_of_call errno msg (row_count_field has_more) has_more] [])"

definition build_fetch_response_jdbc :: "cells list \<Rightarrow> u16 \<Rightarrow> bool \<Rightarrow> u8 \<Rightarrow> bytes" where
  "build_fetch_response_jdbc rows cursor_id has_more req_seq =
     (let (errno, msg) = end_of_fetch has_more in emit [
        write_u16_be 0,
        if rows \<noteq> [] then write_row_header_jdbc (length rows) else emit [],
        emit (map write_row rows),
        write_end_of_call_jdbc errno msg (row_count_field has_more) has_more req_seq cursor_id 0] [])"

section \<open>Statements without rows, errors\<close>

definition build_dml_response :: "u64 \<Rightarrow> bytes" where
  "build_dml_response rows_affected =
     emit [write_u16_be 0, write_end_of_call 0 None rows_affected False 0] []"

definition build_dml_response_jdbc :: "u64 \<Rightarrow> u8 \<Rightarrow> bytes" where
  "build_dml_response_jdbc rows_affected req_seq =
     emit [write_u16_be 0, write_end_of_call_jdbc 0 None rows_affected False req_seq 0 0] []"

definition TNS_MSG_TYPE_IO_VECTOR :: u8 where "TNS_MSG_TYPE_IO_VECTOR = 11"
definition TNS_MSG_TYPE_ROW_DATA :: u8 where "TNS_MSG_TYPE_ROW_DATA = 7"
definition TNS_BIND_DIR_INPUT :: u8 where "TNS_BIND_DIR_INPUT = 32"
definition TNS_BIND_DIR_OUTPUT :: u8 where "TNS_BIND_DIR_OUTPUT = 16"

definition write_out_values :: "cells \<Rightarrow> write_buffer \<Rightarrow> write_buffer" where
  "write_out_values vs = emit (write_ub4 (word_of_nat (length vs))
     # map (\<lambda>v. emit [write_bytes_with_length v, write_ub4 0]) vs)"

definition build_returning_response :: "nat \<Rightarrow> cells list \<Rightarrow> u64 \<Rightarrow> bytes" where
  "build_returning_response input_bind_count out_values rows_affected =
     (let num_binds = input_bind_count + length out_values in emit ([
        write_u16_be 0x2000,
        write_u8 TNS_MSG_TYPE_IO_VECTOR, write_u8 0,
        write_ub2 (word_of_nat num_binds), write_ub4 0, write_ub4 0, write_ub2 0, write_ub2 0, write_ub2 0]
        @ map (\<lambda>k. write_u8 (if k < input_bind_count then TNS_BIND_DIR_INPUT else TNS_BIND_DIR_OUTPUT))
            [0..<num_binds]
        @ [write_u8 TNS_MSG_TYPE_ROW_DATA]
        @ map write_out_values out_values
        @ [write_u8 TTC_MSG_PARAMETER, write_ub2 0, write_ub2 0, write_ub2 0, write_ub2 0,
           write_end_of_call_ext 0 None rows_affected False True 0,
           write_u8 TTC_MSG_END_OF_RESPONSE]) [])"

section \<open>The columns a client reads\<close>

definition read_column :: "column_meta reader" where
  "read_column =
     let_ok read_u8 (\<lambda>ty. let_ok read_u8 (\<lambda>fl. let_ok read_u8 (\<lambda>pr. let_ok read_u8 (\<lambda>sc.
     let_ok read_ub4 (\<lambda>bufsize.
     let_ok (skip_fields [UB4, UB8, CLR, UB2]) (\<lambda>_.
     let_ok read_ub2 (\<lambda>cs. let_ok read_u8 (\<lambda>cf. let_ok read_ub4 (\<lambda>ms.
     let_ok (skip_fields [UB4]) (\<lambda>_.
     let_ok read_u8 (\<lambda>nu.
     let_ok (skip_fields [U8]) (\<lambda>_.
     let_ok read_string_with_ub4_length (\<lambda>nm.
     let_ok read_string_with_ub4_length (\<lambda>sch.
     let_ok read_string_with_ub4_length (\<lambda>tn.
     let_ok read_ub2 (\<lambda>po.
     let_ok (skip_fields [UB4]) (\<lambda>_.
       ok \<lparr>col_name = opt_text nm, col_type = ty, col_flags = fl, precision = pr, scale = sc,
          buffer_size = bufsize, max_size = ms, charset_id = cs, charset_form = cf,
          nullable = (nu \<noteq> 0), schema = sch, type_name = tn,
          col_position = po\<rparr>)))))))))))))))))"

text \<open>An absent string or a short, non-empty one survives; an empty one would not.\<close>

definition meta_string :: "string option \<Rightarrow> bool" where
  "meta_string s \<longleftrightarrow> s \<noteq> Some [] \<and> utf8_opt s \<and> (\<forall>t. s = Some t \<longrightarrow> length t < 2 ^ 32)"

lemma write_string_with_ub4_length_app:
  "write_string_with_ub4_length v b = b @ write_string_with_ub4_length v []"
proof -
  have "write_string_with_length x (write_ub4 w b)
      = b @ write_string_with_length x (write_ub4 w [])" for x w
    by (subst (1 2) write_string_with_length_app, subst write_ub4_app) simp
  then show ?thesis
    by (simp add: write_string_with_ub4_length_def flip: write_ub4_app split: option.split)
qed

interpretation meta: codec write_string_with_ub4_length read_string_with_ub4_length meta_string
proof
  show "write_string_with_ub4_length v b = b @ write_string_with_ub4_length v []" for v b
    by (rule write_string_with_ub4_length_app)
next
  fix v pre rest
  assume m: "meta_string v"
  show "read_string_with_ub4_length (buf_at pre (write_string_with_ub4_length v [] @ rest))
      = (Inr v, buf_at (pre @ write_string_with_ub4_length v []) rest)"
  proof (cases v)
    case None
    then show ?thesis
      using ub4.get_put [where v = 0 and pre = pre and rest = rest]
      by (simp add: read_string_with_ub4_length_def write_string_with_ub4_length_def)
  next
    case (Some s)
    have "unat (word_of_nat (length s) :: u32) = length s"
      using m Some by (simp add: meta_string_def unat_of_nat take_bit_nat_eq_self)
    moreover have "length s \<noteq> 0" using m Some by (simp add: meta_string_def)
    ultimately have nz: "(word_of_nat (length s) :: u32) \<noteq> 0" by (metis unat_0)
    have w: "write_string_with_ub4_length v []
        = write_ub4 (word_of_nat (length s)) [] @ write_string_with_length v []"
      using Some by (simp add: write_string_with_ub4_length_def flip: write_string_with_length_app)
    have "utf8_opt v" using m by (simp add: meta_string_def)
    then show ?thesis
      using nz by (simp add: w read_string_with_ub4_length_def ub4.get_put str.get_put)
  qed
qed

lemma write_meta_out [appends]:
  "b \<noteq> [] \<Longrightarrow> write_string_with_ub4_length v b = b @ write_string_with_ub4_length v []"
  by (rule write_string_with_ub4_length_app)

definition column_ok :: "column_meta \<Rightarrow> bool" where
  "column_ok c \<longleftrightarrow> meta_string (Some (col_name c)) \<and> meta_string (schema c) \<and> meta_string (type_name c)"

lemma write_column_pieces: "write_column c b = b @ write_column c []"
  by (cases "b = []") (simp_all add: write_column_def appends)

lemmas get_puts = u8.get_put u16.get_put ub2.get_put ub4.get_put ub8.get_put clr.get_put meta.get_put

interpretation column: codec write_column read_column column_ok
proof
  show "write_column c b = b @ write_column c []" for c b
    by (rule write_column_pieces)
next
  fix c pre rest
  assume "column_ok c"
  then show "read_column (buf_at pre (write_column c [] @ rest)) = (Inr c, buf_at (pre @ write_column c []) rest)"
    by (simp add: column_ok_def read_column_def write_column_def appends discard_def get_puts
        read_u8_Cons opt_text_def)
qed

end
