(* ===== verification/Response_Oci.thy ===== *)
theory Response_Oci
  imports Response
begin

text \<open>
  The responses of \<^verbatim>\<open>src/src/wire.rs\<close> to the OCI (thick) clients, whose wire format has fixed
  little-endian integers and fields at fixed offsets, and the error responses of all
  dialects.  The random row identifier depends on the clock, which is the argument \<open>now\<close>.
\<close>

section \<open>Row identifiers\<close>

definition alphabet :: string where
  "alphabet = ''abcdefghijklmnopqrstuvwxyz0123456789''"

fun rowid_chars :: "nat \<Rightarrow> u64 \<Rightarrow> bytes" where
  "rowid_chars 0 seed = []"
| "rowid_chars (Suc n) seed =
     (let seed = seed * 6364136223846793005 + 1442695040888963407
      in byte_of (alphabet ! (unat (drop_bit 33 seed) mod length alphabet)) # rowid_chars n seed)"

definition oci_random_rowid :: "u64 \<Rightarrow> bytes" where
  "oci_random_rowid now = rowid_chars 13 now"

definition write_rowid :: "u64 \<Rightarrow> write_buffer \<Rightarrow> write_buffer" where
  "write_rowid now = emit [
     write_u32_be (word_of_nat (length (oci_random_rowid now))),
     write_bytes (oci_random_rowid now)]"

section \<open>Queries\<close>

definition saturating_mul16 :: "u16 \<Rightarrow> u16" where
  "saturating_mul16 v = (if 65536 \<le> unat v * 16 then 0xFFFF else v * 16)"

definition write_oci_column :: "nat \<Rightarrow> column_meta \<Rightarrow> write_buffer \<Rightarrow> write_buffer" where
  "write_oci_column i c =
     (let bs = str_bytes (col_name c); nlen = min (length bs) 255 in emit [
        write_u8 (col_type c), write_u8 (col_flags c), write_u8 (precision c), write_u8 (scale c),
        write_u32_le (buffer_size c), write_zeros 11,
        write_u16_le (charset_id c), write_u8 (charset_form c),
        write_u16_le (ucast (max_size c)), write_u16_le 0,
        write_u16_le (if charset_id c \<noteq> 0 then 0x3ffe else 0), write_u16_le 0,
        write_bytes [0x01, word_of_nat nlen, word_of_nat nlen],
        write_u32_be (word_of_nat nlen), write_bytes (take nlen bs),
        write_u32_le 0, write_u32_le 0, write_u16_le (word_of_nat i), write_u32_le 0])"

definition max_row_size :: "column_meta list \<Rightarrow> u32" where
  "max_row_size columns = sum_list (map (\<lambda>c. max (max (buffer_size c) (max_size c)) 1) columns)"

definition write_oci_describe_body :: "column_meta list \<Rightarrow> write_buffer \<Rightarrow> write_buffer" where
  "write_oci_describe_body columns = emit ([
     write_u8 23, write_zeros 23, write_bytes [0x03, 0x05, 0x2c],
     write_u32_le (max_row_size columns), write_u32_le (word_of_nat (length columns)), write_u8 0x5c]
     @ map (\<lambda>(i, c). write_oci_column i c) (enumerate 0 columns)
     @ [write_u32_le 7, write_u8 7, write_bytes [0x78, 0x7e, 0x08, 0x1e, 0x03, 0x05, 0x33],
        write_u32_le 0, write_u32_le 0x1fe8, write_u32_le 2, write_u32_le 2, write_u32_le 0])"

definition write_oci_cell :: "bytes option \<Rightarrow> write_buffer \<Rightarrow> write_buffer" where
  "write_oci_cell v = (case v of
       Some bs \<Rightarrow> emit [write_u8 (word_of_nat (length bs)), write_bytes bs]
     | None \<Rightarrow> write_u8 0x00)"

definition write_oci_row :: "nat \<Rightarrow> cells \<Rightarrow> write_buffer \<Rightarrow> write_buffer" where
  "write_oci_row n row = emit (write_u8 0x07 # map (\<lambda>i. write_oci_cell (cell row i)) [0..<n])"

definition no_data :: bytes where
  "no_data = str_bytes ''ORA-01403: no data found'' @ [0x0A]"

definition write_no_data :: "write_buffer \<Rightarrow> write_buffer" where
  "write_no_data = emit [write_u8 (word_of_nat (length no_data)), write_bytes no_data]"

text \<open>The four ends of call: all rows sent or not, after Execute or after Reexecute.\<close>

definition oci_query_end :: "nat \<Rightarrow> nat \<Rightarrow> u16 \<Rightarrow> bool \<Rightarrow> bool \<Rightarrow> write_buffer \<Rightarrow> write_buffer" where
  "oci_query_end ncols nrows cursor_id complete with_describe =
     (let rows_this = (word_of_nat (min nrows 255) :: u8) in
      if complete \<and> with_describe then
        (let ctr = (ucast (cursor_id + 6) :: u8) in emit [
           write_u8 0x04, write_u32_le 1, write_u8 ctr,
           write_bytes [0x00, rows_this, 0x00, 0x00, 0x00],
           write_u16_le 1403, write_zeros 4, write_u16_le cursor_id,
           write_u16_le (saturating_mul16 (word_of_nat ncols) - 2), write_u16_le 3, write_zeros 22,
           write_bytes [ctr - 2, 0x00, 0x00, 0x01], write_zeros 17,
           write_u16_le 1403, write_u16_le 0, write_bytes [0x01, 0x01], write_no_data])
      else if complete then
        (let ctr = (ucast (cursor_id + 0xd8) :: u8) in emit [
           write_u8 0x04, write_u32_le 1, write_u8 ctr,
           write_bytes [0x00, rows_this, 0x00, 0x00, 0x00],
           write_u16_le 1403, write_zeros 4, write_u32_le 2, write_u32_le 3, write_zeros 20,
           write_u8 0x07, write_zeros 2, write_u8 0x01, write_zeros 17,
           write_u16_le 1403, write_u16_le 0, write_bytes [0x01, 0x01], write_no_data])
      else if with_describe then
        (let ctr = (ucast (cursor_id * 2 + 21) :: u8); mystery = (ucast (cursor_id * 10 + 1) :: u8) in emit [
           write_u8 0x04, write_u32_le 1, write_u8 ctr, write_bytes [0x00, rows_this], write_zeros 8,
           write_bytes [0x00, ucast cursor_id], write_bytes [0x00, mystery], write_bytes [0x00, 0x03],
           write_zeros 23, write_u8 (ctr - 0x13), write_zeros 2, write_u8 0x01, write_zeros 21,
           write_bytes [0x01, 0x02]])
      else
        (let ctr = (ucast (cursor_id + 0x86) :: u8) in emit [
           write_u8 0x04, write_u32_le 1, write_u8 ctr, write_bytes [0x00, rows_this], write_zeros 4,
           write_u8 0x00, write_zeros 4, write_u32_le (ucast cursor_id), write_u32_le 3, write_zeros 20,
           write_u8 (ctr - 0x81), write_bytes [0x00, 0x00, 0x01], write_zeros 21,
           write_bytes [0x01, 0x02]]))"

definition build_query_response_oci_ex ::
    "u64 \<Rightarrow> column_meta list \<Rightarrow> cells list \<Rightarrow> u16 \<Rightarrow> bool \<Rightarrow> bool \<Rightarrow> bytes" where
  "build_query_response_oci_ex now columns rows cursor_id has_more with_describe = emit ([
     write_u16_be 0, write_u8 0x10, write_oci_describe_body columns,
     write_u8 0x06, write_u8 0x22, write_u32_le (word_of_nat (length columns)), write_u16_le 0,
     write_u32_le 2, write_zeros 10]
     @ map (write_oci_row (length columns)) rows
     @ [if with_describe then emit [
          write_u8 0x08, write_u8 0x06, write_bytes [0x00, 0xab, 0x6d, 0x2d], write_zeros 5,
          write_u32_le (ucast cursor_id), write_zeros 20, write_u8 0x0d, write_rowid now]
        else emit [],
        oci_query_end (length columns) (length rows) cursor_id (\<not> has_more) with_describe]) []"

definition build_query_response_oci ::
    "u64 \<Rightarrow> column_meta list \<Rightarrow> cells list \<Rightarrow> u16 \<Rightarrow> bool \<Rightarrow> u8 \<Rightarrow> bytes" where
  "build_query_response_oci now columns rows cursor_id has_more req_seq =
     build_query_response_oci_ex now columns rows cursor_id has_more True"

definition build_fetch_response_oci ::
    "column_meta list \<Rightarrow> cells list \<Rightarrow> u32 \<Rightarrow> u16 \<Rightarrow> bool \<Rightarrow> u64 \<Rightarrow> bytes" where
  "build_fetch_response_oci columns rows req_count cursor_id has_more rows_total =
     (let ncol = length columns; complete = \<not> has_more;
          ctr = (ucast (cursor_id + 0x86) :: u8);
          total = (ucast (rows_total AND 0xff) :: u8)
      in emit [
        write_u16_be 0,
        if rows \<noteq> [] then emit ([
          write_u8 0x06, write_u8 0x02, write_u32_le (word_of_nat ncol), write_u16_le 0,
          write_u32_le req_count, write_u16_le 0, write_u32_le 0, write_u32_le 0]
          @ map (write_oci_row ncol) rows)
        else emit [],
        write_u8 0x04, write_u32_le 1, write_u8 ctr, write_bytes [0x00, total], write_zeros 3,
        write_u16_le (if complete then 1403 else 0), write_zeros 4,
        if rows = [] then emit [write_bytes [0x01, 0x00, 0x00, 0x00, 0x03], write_zeros 23]
        else emit [write_u32_le (ucast cursor_id), write_u32_le 3, write_zeros 20],
        write_u8 (ctr - 0x81), write_zeros 20,
        write_u16_le (if complete then 1403 else 0), write_u16_le 0,
        if complete then emit [write_bytes [0x01, if rows = [] then 0x02 else total], write_no_data]
        else write_bytes [0x01, 0x02]] [])"

section \<open>Statements without rows\<close>

datatype dml_kind = DmlInsert | DmlUpdate | DmlDelete | DmlMerge | DmlOther

definition dml_kind_of :: "string \<Rightarrow> dml_kind" where
  "dml_kind_of sql =
     (let w = (case split_ascii_whitespace (trim_start sql) of [] \<Rightarrow> [] | v # _ \<Rightarrow> to_ascii_uppercase v) in
      if w = ''INSERT'' then DmlInsert else if w = ''UPDATE'' then DmlUpdate
      else if w = ''DELETE'' then DmlDelete else if w = ''MERGE'' then DmlMerge else DmlOther)"

definition op_codes :: "dml_kind \<Rightarrow> u8 \<times> u8" where
  "op_codes k = (case k of DmlInsert \<Rightarrow> (0x0c, 0x02) | DmlUpdate \<Rightarrow> (0x07, 0x06)
     | DmlDelete \<Rightarrow> (0x0c, 0x07) | DmlMerge \<Rightarrow> (0x0b, 0xbd) | DmlOther \<Rightarrow> (0x0c, 0x02))"

definition build_dml_response_oci :: "u64 \<Rightarrow> u64 \<Rightarrow> u16 \<Rightarrow> u8 \<Rightarrow> dml_kind \<Rightarrow> bytes" where
  "build_dml_response_oci now rows_affected cursor_id req_seq stmt_kind =
     (let rows = (ucast (rows_affected AND 0xff) :: u8); (k74, k76) = op_codes stmt_kind in emit [
        write_u16_be 0, write_u8 0x08, write_u8 0x06, write_u32_le 0, write_zeros 5,
        write_u32_le (ucast cursor_id), write_u32_le (ucast rows_affected), write_zeros 16,
        write_u8 0x0d, write_rowid now,
        write_u8 0x04, write_u32_le 2, write_u8 (req_seq + 0x8b), write_zeros 11,
        write_u16_le cursor_id, write_u8 k74, write_u8 0x00, write_u8 k76, write_zeros 4,
        write_zeros 10, write_zeros 2, write_bytes [0x02, 0x00, 0x00, 0x00], write_zeros 3,
        write_u8 req_seq, write_zeros 2, write_u8 0x01, write_zeros 3, write_u8 0x0d, write_u8 0x00,
        write_u8 0x0d, write_bytes [0x01, 0x00, 0x01, 0x28], write_zeros 7, write_zeros 18,
        write_bytes [0x01, rows]] [])"

definition build_ddl_response_oci :: "u64 \<Rightarrow> u16 \<Rightarrow> u8 \<Rightarrow> bytes" where
  "build_ddl_response_oci now cursor_id req_seq = emit [
     write_u16_be 0, write_u8 0x08, write_u8 0x06, write_u32_le 0, write_zeros 5,
     write_u32_le (ucast cursor_id), write_zeros 20, write_u8 0x0d, write_rowid now,
     write_u8 0x04, write_u32_le 1, write_u8 (req_seq + 0x8b), write_zeros 11,
     write_u16_le cursor_id, write_zeros 2, write_u8 0x01, write_zeros 23, write_u8 req_seq,
     write_bytes [0x00, 0x00, 0x01], write_zeros 22] []"

definition build_reexecute_response_oci :: "u64 \<Rightarrow> u8 \<Rightarrow> bytes" where
  "build_reexecute_response_oci rows_affected req_seq =
     (let rows = (ucast (rows_affected AND 0xff) :: u8); ctr = req_seq + 0x58 in emit [
        write_u16_be 0, write_u8 0x04, write_u32_le 2, write_u8 ctr, write_u8 0x00, write_u8 rows,
        write_zeros 9, write_bytes [0x02, 0x00, 0x00, 0x00], write_bytes [0x02, 0x00, 0x00, 0x00],
        write_zeros 2, write_bytes [0xc2, 0x28, 0x01, 0x00, 0x01, 0x00, 0x00], write_zeros 4,
        write_u8 0x01, write_zeros 6, write_u8 req_seq, write_zeros 2,
        write_bytes [0x01, 0x00, 0x00, 0x00], write_bytes [0x0d, 0x00, 0x0d, 0x01, 0x00, 0x01, 0x28],
        write_u8 0xc2, write_bytes [0x00, 0x01, 0x00, 0x00], write_zeros 2, write_u8 0x00,
        write_u8 0x01, write_zeros 16, write_bytes [0x01, rows]] [])"

section \<open>Errors\<close>

text \<open>The source's \<^verbatim>\<open>{error_code:05}\<close>: at least five digits.\<close>

definition oci_error_text :: "u32 \<Rightarrow> string \<Rightarrow> string" where
  "oci_error_text error_code message =
     (if starts_with message ''ORA-'' then message
      else ''ORA-'' @ fmt_nat 5 (unat error_code) @ '': '' @ message @ [CHR 0x0A])"

definition build_error_response_oci :: "u32 \<Rightarrow> string \<Rightarrow> u16 \<Rightarrow> u8 \<Rightarrow> bytes" where
  "build_error_response_oci error_code message error_pos req_seq =
     (let msg = str_bytes (oci_error_text error_code message);
          mlen = min (length msg) 255;
          code16 = (ucast (error_code AND 0xffff) :: u16);
          pos = (if error_pos = 0 then 14 else error_pos)
      in emit [
        write_u16_be 0, write_u8 0x04, write_u32_le 1, write_u8 (req_seq + 0x9d), write_zeros 5,
        write_u16_le code16, write_zeros 4, write_u8 0x03, write_u8 0x00, write_u16_le pos,
        write_u8 0x03, write_zeros 23, write_u8 0x07, write_zeros 20, write_u16_le code16,
        write_zeros 3, write_u8 (word_of_nat mlen), write_bytes (take mlen msg)] [])"

definition timeout_head :: bytes where
  "timeout_head = [
     0x00, 0x00, 0x04, 0x01, 0x00, 0x00, 0x00, 0x21, 0x01, 0x00, 0x00, 0x00, 0x00, 0xf5, 0x03,
     0x00, 0x00, 0x00, 0x00, 0x04, 0x00, 0x00, 0x00, 0x03, 0x00, 0x00, 0x00, 0x00, 0x00, 0x00,
     0x00, 0x00, 0x00, 0x00, 0x00, 0x00, 0x00, 0x00, 0x00, 0x00, 0x00, 0x00, 0x00, 0x00, 0x00,
     0x00, 0x00, 0x08, 0x00, 0x00, 0x01, 0x00, 0x00, 0x00, 0x00, 0x00, 0x00, 0x00, 0x00, 0x00,
     0x00, 0x00, 0x00, 0x00, 0x00, 0x00, 0x00, 0x00, 0xf5, 0x03, 0x00, 0x00, 0x00]"

definition timeout_text :: bytes where
  "timeout_text = str_bytes ''ORA-01013: user requested cancel of current operation'' @ [0x0A]"

definition build_timeout_error_response_oci :: "u8 \<Rightarrow> bytes" where
  "build_timeout_error_response_oci req_seq =
     (let head = timeout_head[19 := req_seq - 4, 47 := req_seq, 7 := 0xb7 + (req_seq - 8) * 9]
      in emit [write_bytes head, write_u8 (word_of_nat (length timeout_text)),
           write_bytes timeout_text] [])"

definition build_error_response_at ::
    "bool \<Rightarrow> bool \<Rightarrow> bool \<Rightarrow> u32 \<Rightarrow> string \<Rightarrow> u16 \<Rightarrow> bytes" where
  "build_error_response_at response_completion newer_describe_framing oci error_code message error_pos =
     (if oci then build_error_response_oci error_code message error_pos 0
      else if newer_describe_framing then emit [
        write_u16_be 0,
        write_end_of_call_jdbc error_code (Some message) 0 False 0 0 error_pos] []
      else if response_completion then emit [
        write_u16_be 0x2000,
        write_end_of_call_ext error_code (Some message) 0 False True error_pos,
        write_u8 TTC_MSG_END_OF_RESPONSE] []
      else emit [
        write_u16_be 0,
        write_end_of_call error_code (Some message) 0 False error_pos] [])"

definition build_error_response :: "bool \<Rightarrow> bool \<Rightarrow> bool \<Rightarrow> u32 \<Rightarrow> string \<Rightarrow> bytes" where
  "build_error_response response_completion newer_describe_framing oci error_code message =
     build_error_response_at response_completion newer_describe_framing oci error_code message 0"

section \<open>Row identifiers and error numbers\<close>

lemma length_rowid: "length (oci_random_rowid now) = 13"
proof -
  have "length (rowid_chars n s) = n" for n s
    by (induction n arbitrary: s) (simp_all add: Let_def)
  then show ?thesis by (simp add: oci_random_rowid_def)
qed

lemma low16: "(ucast (w AND 0xffff :: u32) :: u16) = ucast w"
proof -
  have "(w AND 0xffff) = take_bit 16 w" by (simp add: take_bit_eq_mask mask_eq_exp_minus_1)
  then show ?thesis by (auto intro!: bit_word_eqI simp: bit_simps)
qed

lemma rowid_alphabet: "set (oci_random_rowid now) \<subseteq> byte_of ` set alphabet"
proof -
  have "alphabet \<noteq> []" by (simp add: alphabet_def)
  then have "alphabet ! (k mod length alphabet) \<in> set alphabet" for k
    by (intro nth_mem mod_less_divisor) simp
  then have "set (rowid_chars n s) \<subseteq> byte_of ` set alphabet" for n s
    by (induction n arbitrary: s) (auto simp: Let_def)
  then show ?thesis by (simp add: oci_random_rowid_def)
qed

section \<open>Cells\<close>

text \<open>A client reads a length byte and that many bytes, none of them for NULL.\<close>

definition read_oci_cell :: "bytes option reader" where
  "read_oci_cell = let_ok read_u8 (\<lambda>n.
     if n = 0 then ok None else let_ok (read_bytes_vec (unat n)) (\<lambda>bs. ok (Some bs)))"

definition oci_cell_ok :: "bytes option \<Rightarrow> bool" where
  "oci_cell_ok v \<longleftrightarrow> v \<noteq> Some [] \<and> (\<forall>bs. v = Some bs \<longrightarrow> length bs < 256)"

interpretation oci_cell: codec write_oci_cell read_oci_cell oci_cell_ok
proof
  show "write_oci_cell v b = b @ write_oci_cell v []" for v b
    by (simp add: write_oci_cell_def write_prims split: option.split)
next
  fix v pre rest
  assume v: "oci_cell_ok v"
  show "read_oci_cell (buf_at pre (write_oci_cell v [] @ rest))
      = (Inr v, buf_at (pre @ write_oci_cell v []) rest)"
  proof (cases v)
    case None
    then show ?thesis by (simp add: write_oci_cell_def read_oci_cell_def write_prims read_simps)
  next
    case (Some bs)
    then have n: "length bs < 256" "length bs \<noteq> 0" using v by (auto simp: oci_cell_ok_def)
    then have u: "unat (word_of_nat (length bs) :: u8) = length bs"
      by (simp add: unat_of_nat take_bit_nat_eq_self)
    with n have "(word_of_nat (length bs) :: u8) \<noteq> 0" by (metis unat_0)
    with Some u show ?thesis
      by (simp add: write_oci_cell_def read_oci_cell_def write_prims read_simps)
  qed
qed

definition read_oci_row :: "nat \<Rightarrow> cells reader" where
  "read_oci_row n = let_ok read_u8 (\<lambda>t.
     if t = 0x07 then oci_cell.get_n n else fail (Protocol ''expected row data''))"

definition oci_row_ok :: "nat \<Rightarrow> cells \<Rightarrow> bool" where
  "oci_row_ok n row \<longleftrightarrow> length row = n \<and> list_all oci_cell_ok row"

lemma cells_id: "length row = n \<Longrightarrow> map (cell row) [0..<n] = row"
  by (auto simp: cell_def get_at_def intro: nth_equalityI)

lemma write_oci_row_eq:
  "write_oci_row n row b = b @ 0x07 # fold write_oci_cell (map (cell row) [0..<n]) []"
proof -
  have "write_oci_row n row b = emit (map write_oci_cell (map (cell row) [0..<n])) (b @ [0x07])"
    by (simp add: write_oci_row_def write_prims comp_def)
  also have "\<dots> = (b @ [0x07]) @ fold write_oci_cell (map (cell row) [0..<n]) []"
    unfolding emit_map_fold by (simp only: oci_cell.fold_put append_Nil)
  finally show ?thesis by simp
qed

interpretation oci_row: codec "write_oci_row n" "read_oci_row n" "oci_row_ok n" for n
proof
  show "write_oci_row n row b = b @ write_oci_row n row []" for row b
    by (subst (1 2) write_oci_row_eq) simp
next
  fix row pre rest
  assume r: "oci_row_ok n row"
  then have "oci_cell.get_n n (buf_at (pre @ [0x07]) (fold write_oci_cell row [] @ rest))
      = (Inr row, buf_at ((pre @ [0x07]) @ fold write_oci_cell row []) rest)"
    using oci_cell.get_n_put [of row "pre @ [0x07]" rest] by (simp add: oci_row_ok_def)
  with r show "read_oci_row n (buf_at pre (write_oci_row n row [] @ rest))
      = (Inr row, buf_at (pre @ write_oci_row n row []) rest)"
    by (simp add: write_oci_row_eq [of _ _ "[]"] cells_id oci_row_ok_def read_oci_row_def read_u8_Cons)
qed

lemma oci_rows_written:
  "list_all (oci_row_ok n) rows \<Longrightarrow>
     emit (map (write_oci_row n) rows) b = b @ fold (write_oci_row n) rows []"
  unfolding emit_map_fold by (simp only: oci_row.fold_put append_Nil)

definition client_fetch_oci :: "nat \<Rightarrow> nat \<Rightarrow> bytes \<Rightarrow> error + cells list \<times> u8" where
  "client_fetch_oci n count = run_reader
     (let_ok (skip 24) (\<lambda>_.
      let_ok (oci_row.get_n n count) (\<lambda>rows.
      let_ok read_u8 (\<lambda>t. ok (rows, t)))))"

section \<open>Properties\<close>



text \<open>
  The acknowledgements of DML and DDL to a thick client have their fixed lengths and
  carry, at the offsets the client looks at, the server cursor id twice, the call number
  and the sequence number of the request, and for DML the number of rows.
\<close>

theorem dml_ack_oci_layout:
  "let r = build_dml_response_oci now rows_affected cursor_id req_seq k;
       d = build_ddl_response_oci now cursor_id req_seq
   in length r = 141 \<and> length d = 126 \<and>
     take 4 (drop 13 r) = le32 (ucast cursor_id) \<and> take 4 (drop 13 d) = le32 (ucast cursor_id) \<and>
     take 2 (drop 72 r) = le16 cursor_id \<and> take 2 (drop 72 d) = le16 cursor_id \<and>
     r ! 60 = req_seq + 0x8b \<and> d ! 60 = req_seq + 0x8b \<and> r ! 100 = req_seq \<and> d ! 100 = req_seq \<and>
     take 4 (drop 17 r) = le32 (ucast rows_affected)"
  unfolding build_dml_response_oci_def build_ddl_response_oci_def Let_def write_rowid_def
  by (cases "op_codes k") (simp add: write_prims write_zeros_eq length_rowid nth_append)

text \<open>
  The error reply to a thick client carries the low half of the error number twice, the
  position of the error (14 when unknown), the call number derived from the request, and
  at the end the text with a matching length byte, cut at 255 bytes.
\<close>

theorem error_reply_oci_layout:
  "let r = build_error_response_oci error_code message error_pos req_seq;
       t = str_bytes (oci_error_text error_code message)
   in r ! 7 = req_seq + 0x9d \<and> take 2 (drop 13 r) = le16 (ucast error_code) \<and>
     take 2 (drop 68 r) = le16 (ucast error_code) \<and>
     take 2 (drop 21 r) = le16 (if error_pos = 0 then 14 else error_pos) \<and>
     drop 74 r = take 255 t \<and> unat (r ! 73) = length (drop 74 r)"
  unfolding build_error_response_oci_def Let_def
  by (simp add: write_prims write_zeros_eq nth_append low16 unat_of_nat take_bit_nat_eq_self min_def)

end
