(* ===== verification/Result_Stream.thy ===== *)
theory Result_Stream
  imports Response_Oci
begin

text \<open>
  The results a client takes out of the responses of \<open>Response\<close>: column descriptions, rows
  and the end of call.  \<open>end_format\<close> is the interface of an end-of-call layout; the loop of
  the client over row headers, rows and the end of call is verified once inside it and used
  for the query and the Fetch responses of each dialect.
\<close>

section \<open>The client's loop\<close>

fun read_rows_end :: "field list \<Rightarrow> nat \<Rightarrow> layout \<Rightarrow> nat \<Rightarrow> (cells list \<times> call_end) reader" where
  "read_rows_end hdr n l 0 = fail (Protocol ''no end of call'')"
| "read_rows_end hdr n l (Suc k) = let_ok peek_u8 (\<lambda>t.
     if t = 0x06 then let_ok (skip_fields hdr) (\<lambda>_. read_rows_end hdr n l k)
     else if t = 0x07 then
       let_ok (skip_fields [U8]) (\<lambda>_.
       let_ok (clr.get_n n) (\<lambda>row.
       let_ok (read_rows_end hdr n l k) (\<lambda>(rows, e). ok (row # rows, e))))
     else if t = 0x04 then let_ok (read_call_end l) (\<lambda>e. ok ([], e))
     else fail (Protocol ''unexpected message''))"

datatype part = Header "item list" | Row cells

fun put_part :: "part \<Rightarrow> write_buffer \<Rightarrow> write_buffer" where
  "put_part (Header ms) = put_items (I8 0x06 # ms)"
| "put_part (Row row) = write_row row"

fun part_ok :: "field list \<Rightarrow> nat \<Rightarrow> part \<Rightarrow> bool" where
  "part_ok hdr n (Header ms) \<longleftrightarrow> hdr = U8 # map kind ms"
| "part_ok hdr n (Row row) \<longleftrightarrow> length row = n"

fun part_rows :: "part list \<Rightarrow> cells list" where
  "part_rows [] = []"
| "part_rows (Header ms # ps) = part_rows ps"
| "part_rows (Row row # ps) = row # part_rows ps"

lemma write_row_eq: "write_row row b = b @ 0x07 # fold write_bytes_with_length row []"
  unfolding write_row_def emit_simps emit_map_fold
  by (subst clr.fold_put) (simp add: clr.fold_put [of _ "[]"] appends)

interpretation part: writer put_part
proof
  show "put_part p b = b @ put_part p []" for p b
  proof (cases p)
    case (Header ms)
    show ?thesis unfolding Header put_part.simps by (rule items.put_appends)
  next
    case (Row row)
    show ?thesis unfolding Row put_part.simps by (subst (1 2) write_row_eq) simp
  qed
qed

definition parts_bytes :: "part list \<Rightarrow> bytes" where
  "parts_bytes ps = concat (map (\<lambda>p. put_part p []) ps)"

lemma fold_parts: "fold put_part ps b = b @ parts_bytes ps"
  by (simp add: parts_bytes_def part.fold_put)

lemma peek_u8_Cons [read_simps]: "peek_u8 (buf_at pre (x # rest)) = (Inr x, buf_at pre (x # rest))"
  by (simp add: peek_u8_def buf_at_def ensure_remaining_def remaining_def let_ok_apply)

locale end_format =
  fixes put_end :: "u32 \<Rightarrow> string option \<Rightarrow> u64 \<Rightarrow> bool \<Rightarrow> write_buffer \<Rightarrow> write_buffer"
    and end_layout :: layout
    and cursor :: "bool \<Rightarrow> u16"
  assumes end_appends: "put_end errno msg rows hm b = b @ put_end errno msg rows hm []"
    and end_marker: "\<exists>t. put_end errno msg rows hm [] = 0x04 # t"
    and end_read: "(errno \<noteq> 0 \<Longrightarrow> utf8_opt msg) \<Longrightarrow>
      read_call_end end_layout (buf_at pre (put_end errno msg rows hm [] @ rest))
        = (Inr \<lparr>ce_cursor = cursor hm, ce_code = errno, ce_rows = rows,
                ce_message = (if errno \<noteq> 0 then msg else None)\<rparr>,
           buf_at (pre @ put_end errno msg rows hm []) rest)"
begin

lemma read_end_step:
  assumes "errno \<noteq> 0 \<Longrightarrow> utf8_opt msg" "0 < k"
  shows "read_rows_end hdr n end_layout k (buf_at pre (put_end errno msg rows hm [] @ rest))
    = (Inr ([], \<lparr>ce_cursor = cursor hm, ce_code = errno, ce_rows = rows,
                ce_message = (if errno \<noteq> 0 then msg else None)\<rparr>),
       buf_at (pre @ put_end errno msg rows hm []) rest)"
proof -
  obtain t where t: "put_end errno msg rows hm [] = 0x04 # t" using end_marker by blast
  obtain j where k: "k = Suc j" using assms(2) by (cases k) auto
  have "peek_u8 (buf_at pre (put_end errno msg rows hm [] @ rest))
      = (Inr 0x04, buf_at pre (put_end errno msg rows hm [] @ rest))"
    by (simp add: t peek_u8_Cons)
  then show ?thesis
    by (simp add: k end_read [OF assms(1)])
qed

lemma read_parts:
  assumes "list_all (part_ok hdr n) ps" "length ps < k" "errno \<noteq> 0 \<Longrightarrow> utf8_opt msg"
  shows "read_rows_end hdr n end_layout k
      (buf_at pre (parts_bytes ps @ put_end errno msg rows hm [] @ rest))
    = (Inr (part_rows ps, \<lparr>ce_cursor = cursor hm, ce_code = errno, ce_rows = rows,
                ce_message = (if errno \<noteq> 0 then msg else None)\<rparr>),
       buf_at (pre @ parts_bytes ps @ put_end errno msg rows hm []) rest)"
  using assms(1,2)
proof (induction ps arbitrary: pre k)
  case Nil
  then show ?case using assms(3) by (simp add: parts_bytes_def read_end_step)
next
  case (Cons p ps)
  let ?r = "parts_bytes ps @ put_end errno msg rows hm [] @ rest"
  let ?e = "\<lparr>ce_cursor = cursor hm, ce_code = errno, ce_rows = rows,
      ce_message = (if errno \<noteq> 0 then msg else None)\<rparr>"
  obtain j where k: "k = Suc j" "length ps < j" using Cons.prems(2) by (cases k) auto
  have ih: "read_rows_end hdr n end_layout j (buf_at q ?r)
      = (Inr (part_rows ps, ?e), buf_at (q @ parts_bytes ps @ put_end errno msg rows hm []) rest)" for q
    using Cons.IH [OF _ k(2)] Cons.prems(1) by simp
  have split: "parts_bytes (q # ps) = put_part q [] @ parts_bytes ps" for q
    by (simp add: parts_bytes_def)
  show ?case
  proof (cases p)
    case (Header ms)
    let ?h = "put_items (I8 0x06 # ms) []"
    have h: "hdr = map kind (I8 0x06 # ms)" using Cons.prems(1) Header by simp
    obtain t where t: "?h = 0x06 # t"
      unfolding put_items_Cons by (simp add: appends)
    have "skip_fields hdr (buf_at pre (?h @ ?r)) = (Inr (), buf_at (pre @ ?h) ?r)"
      unfolding h by (rule skip_items)
    moreover have "peek_u8 (buf_at pre (?h @ ?r)) = (Inr 0x06, buf_at pre (?h @ ?r))"
      unfolding t append_Cons by (rule peek_u8_Cons)
    ultimately show ?thesis
      using ih [of "pre @ ?h"] unfolding split Header put_part.simps append_assoc part_rows.simps k(1)
      by (simp del: put_items_simps)
  next
    case (Row row)
    then have n: "n = length row" using Cons.prems(1) by simp
    let ?w = "fold write_bytes_with_length row []"
    have "clr.get_n n (buf_at (pre @ [0x07]) (?w @ ?r)) = (Inr row, buf_at ((pre @ [0x07]) @ ?w) ?r)"
      unfolding n by (rule clr.get_n_put) (simp add: list_all_iff)
    then show ?thesis
      using ih [of "(pre @ [0x07]) @ ?w"]
      unfolding split Row put_part.simps write_row_eq [of _ "[]"] append_assoc part_rows.simps k(1)
      by (simp add: peek_u8_Cons read_u8_Cons discard_def)
  qed
qed

end

section \<open>The formats\<close>

lemma starts_with_mark: "\<exists>t. put_items (call_items r e c mid errno rows tail) [] @ m = 0x04 # t"
  unfolding call_items_def head_items_def append_Cons put_items_Cons by (simp add: appends)

interpretation lenient: end_format "\<lambda>e m r h. write_end_of_call e m r h pos" lenient_layout
    "\<lambda>hm. if hm then 1 else 0" for pos
  by unfold_locales (use lenient_items in \<open>simp add: starts_with_mark\<close>,
      use lenient_items in \<open>simp add: starts_with_mark\<close>, rule read_lenient)

interpretation strict: end_format "\<lambda>e m r h. write_end_of_call_ext e m r h True pos" strict_layout
    "\<lambda>hm. if hm then 1 else 0" for pos
  by unfold_locales (use strict_items in \<open>simp add: starts_with_mark\<close>,
      use strict_items in \<open>simp add: starts_with_mark\<close>, rule read_strict)

interpretation fetch: end_format write_fetch_end_of_call fetch_layout
    "\<lambda>hm. if hm then 1 else 0"
  by unfold_locales (use fetch_items in \<open>simp add: starts_with_mark\<close>,
      use fetch_items in \<open>simp add: starts_with_mark\<close>, rule read_fetch_end)

interpretation jdbc: end_format
    "\<lambda>e m r h. write_end_of_call_jdbc e m r h req_seq cursor_id pos" jdbc_layout
    "\<lambda>hm. if hm then max cursor_id 1 else 0" for req_seq cursor_id pos
  by unfold_locales (use jdbc_items in \<open>simp add: starts_with_mark\<close>,
      use jdbc_items in \<open>simp add: starts_with_mark\<close>, rule read_jdbc)

section \<open>Responses as streams of parts\<close>

definition row_header_layout :: "field list" where
  "row_header_layout = [U8, U8, UB2, UB4, UB4, UB2, UB4, UB4]"

definition row_header_layout_jdbc :: "field list" where
  "row_header_layout_jdbc = [U8, U8, UB2, UB2, UB2, UB2, UB4, UB4]"

definition thin_header :: part where
  "thin_header = Header [I8 0, IB2 0, IB4 0, IB4 0, IB2 0, IB4 0, IB4 0]"

definition jdbc_header :: "nat \<Rightarrow> part" where
  "jdbc_header n = Header [I8 0, IB2 (word_of_nat n), IB2 0, IB2 (word_of_nat n), IB2 0, IB4 0, IB4 0]"

lemma write_headers:
  "write_row_header = put_part thin_header"
  "write_row_header_jdbc n = put_part (jdbc_header n)"
  by (simp_all add: fun_eq_iff write_row_header_def write_row_header_jdbc_def thin_header_def
      jdbc_header_def write_ub1_def write_dalc_def)

lemma header_ok:
  "part_ok row_header_layout n thin_header" "part_ok row_header_layout_jdbc n (jdbc_header m)"
  by (simp_all add: row_header_layout_def thin_header_def row_header_layout_jdbc_def jdbc_header_def)

text \<open>The parts of the three kinds of responses with rows.\<close>

definition thin_parts :: "cells list \<Rightarrow> part list" where
  "thin_parts rows = concat (map (\<lambda>row. [thin_header, Row row]) rows)"

definition jdbc_parts :: "cells list \<Rightarrow> part list" where
  "jdbc_parts rows = (if rows \<noteq> [] then [jdbc_header (length rows)] else []) @ map Row rows"

lemma parts_written:
  "emit (map (\<lambda>row. emit [write_row_header, write_row row]) rows) b = b @ parts_bytes (thin_parts rows)"
  "emit (map write_row rows) b = b @ parts_bytes (map Row rows)"
  "emit (map write_row rows) ((if rows \<noteq> [] then write_row_header_jdbc (length rows) else emit []) b)
     = b @ parts_bytes (jdbc_parts rows)"
proof -
  show "emit (map (\<lambda>row. emit [write_row_header, write_row row]) rows) b = b @ parts_bytes (thin_parts rows)" for b
    by (induction rows arbitrary: b) (simp_all add: thin_parts_def write_headers flip: fold_parts)
  have r: "emit (map write_row rows) b = b @ parts_bytes (map Row rows)" for b
    by (induction rows arbitrary: b) (simp_all flip: fold_parts)
  then show "emit (map write_row rows) b = b @ parts_bytes (map Row rows)" .
  show "emit (map write_row rows) ((if rows \<noteq> [] then write_row_header_jdbc (length rows) else emit []) b)
     = b @ parts_bytes (jdbc_parts rows)"
    unfolding r by (simp add: jdbc_parts_def write_headers part.put_appends [of _ b] parts_bytes_def)
qed

lemma part_rows_simps:
  "part_rows (thin_parts rows) = rows" "part_rows (map Row rows) = rows"
  "part_rows (jdbc_parts rows) = rows"
proof -
  show "part_rows (thin_parts rows) = rows"
    by (induction rows) (simp_all add: thin_parts_def thin_header_def)
  show "part_rows (map Row rows) = rows" by (induction rows) simp_all
  then show "part_rows (jdbc_parts rows) = rows" by (simp add: jdbc_parts_def jdbc_header_def)
qed

lemma parts_ok:
  assumes "list_all (\<lambda>row. length row = n) rows"
  shows "list_all (part_ok row_header_layout n) (thin_parts rows)"
    "list_all (part_ok row_header_layout_jdbc n) (jdbc_parts rows)"
    "list_all (part_ok hdr n) (map Row rows)"
  using assms by (auto simp: list_all_iff thin_parts_def jdbc_parts_def header_ok)

lemma parts_length:
  "length (thin_parts rows) = 2 * length rows" "length (jdbc_parts rows) \<le> Suc (length rows)"
  by (induction rows) (simp_all add: thin_parts_def jdbc_parts_def)

section \<open>What the client gets\<close>

definition client_fetch ::
    "field list \<Rightarrow> nat \<Rightarrow> layout \<Rightarrow> nat \<Rightarrow> bytes \<Rightarrow> error + cells list \<times> call_end" where
  "client_fetch hdr n l k = run_reader (let_ok (skip_fields [U16]) (\<lambda>_. read_rows_end hdr n l k))"

definition client_query ::
    "layout \<Rightarrow> nat \<Rightarrow> bytes \<Rightarrow> error + column_meta list \<times> cells list \<times> call_end" where
  "client_query l k = run_reader
     (let_ok (skip_fields [U16, U8, U8, UB4]) (\<lambda>_.
      let_ok read_ub4 (\<lambda>n.
      let_ok (skip_fields [U8]) (\<lambda>_.
      let_ok (column.get_n (unat n)) (\<lambda>columns.
      let_ok (skip_fields [UB4, UB4, UB4, UB4, UB4, UB4]) (\<lambda>_.
      let_ok (read_rows_end row_header_layout (unat n) l k) (\<lambda>(rows, e). ok (columns, rows, e))))))))"

definition fetch_end :: "bool \<Rightarrow> u16 \<Rightarrow> call_end" where
  "fetch_end has_more cursor_id = \<lparr>
     ce_cursor = (if has_more then cursor_id else 0),
     ce_code = (if has_more then 0 else 1403),
     ce_rows = (if has_more then 1 else 0),
     ce_message = (if has_more then None else Some ''ORA-01403: no data found'')\<rparr>"

lemma end_of_fetch_utf8: "end_of_fetch has_more = (errno, msg) \<Longrightarrow> utf8_opt msg"
proof -
  have "utf8_opt (Some ''ORA-01403: no data found'')" "utf8_opt None" by code_simp+
  moreover assume "end_of_fetch has_more = (errno, msg)"
  ultimately show ?thesis by (cases has_more) (auto simp: end_of_fetch_def simp del: not_None_eq)
qed

lemma fetch_end_eq:
  "end_of_fetch has_more = (errno, msg) \<Longrightarrow>
   \<lparr>ce_cursor = (if has_more then c else 0), ce_code = errno, ce_rows = row_count_field has_more,
    ce_message = (if errno \<noteq> 0 then msg else None)\<rparr> = fetch_end has_more c"
  by (cases has_more) (simp_all add: end_of_fetch_def fetch_end_def row_count_field_def)

lemma client_fetch_stream:
  "client_fetch hdr n l k (be16 f @ stream) = fst (read_rows_end hdr n l k (buf_at (be16 f) stream))"
  by (simp add: client_fetch_def run_reader_def from_slice_buf_at discard_def read_simps)

text \<open>The three Fetch responses: flags, parts, end of call, trailing mark.\<close>

lemma fetch_responses:
  assumes "end_of_fetch has_more = (errno, msg)"
  shows "build_fetch_response rows cursor_id has_more True =
      be16 (if has_more then 0 else 0x2000) @ parts_bytes (thin_parts rows)
      @ write_end_of_call_ext errno msg (row_count_field has_more) has_more True 0 []
      @ [TTC_MSG_END_OF_RESPONSE]"
    and "build_fetch_response rows cursor_id has_more False =
      be16 0 @ parts_bytes (thin_parts rows)
      @ write_fetch_end_of_call errno msg (row_count_field has_more) has_more [] @ []"
    and "build_fetch_response_jdbc rows cursor_id has_more req_seq =
      be16 0 @ parts_bytes (jdbc_parts rows)
      @ write_end_of_call_jdbc errno msg (row_count_field has_more) has_more req_seq cursor_id 0 [] @ []"
proof -
  show "build_fetch_response rows cursor_id has_more True =
      be16 (if has_more then 0 else 0x2000) @ parts_bytes (thin_parts rows)
      @ write_end_of_call_ext errno msg (row_count_field has_more) has_more True 0 []
      @ [TTC_MSG_END_OF_RESPONSE]"
    unfolding build_fetch_response_def assms prod.case if_True emit_simps(1,2) parts_written write_prims
    by (simp add: strict.end_appends [of _ _ _ _ _ "_ @ _"])
  show "build_fetch_response rows cursor_id has_more False =
      be16 0 @ parts_bytes (thin_parts rows)
      @ write_fetch_end_of_call errno msg (row_count_field has_more) has_more [] @ []"
    unfolding build_fetch_response_def assms prod.case if_False emit_simps(1,2) parts_written write_prims
    by (simp add: fetch.end_appends [of _ _ _ _ "_ @ _"])
  show "build_fetch_response_jdbc rows cursor_id has_more req_seq =
      be16 0 @ parts_bytes (jdbc_parts rows)
      @ write_end_of_call_jdbc errno msg (row_count_field has_more) has_more req_seq cursor_id 0 [] @ []"
    unfolding build_fetch_response_jdbc_def assms prod.case emit_simps(2) parts_written(3) write_prims
    by (simp add: jdbc.end_appends [of _ _ _ _ _ _ _ "_ @ _"])
qed

text \<open>The query response of the thin clients: describe information, rows, end of call.\<close>

definition padded_rows :: "nat \<Rightarrow> cells list \<Rightarrow> cells list" where
  "padded_rows n rows = map (\<lambda>row. map (cell row) [0..<n]) rows"

definition describe_end :: "item list" where
  "describe_end = [IB4 0, IB4 0, IB4 0, IB4 0, IB4 0, IB4 0]"

lemma describe_written:
  "write_describe False columns b = b @ put_items [I8 0, IB4 0] []
     @ write_ub4 (word_of_nat (length columns)) [] @ [0] @ fold write_column columns []
     @ put_items describe_end []"
proof -
  have e: "emit (map write_column columns) c = c @ fold write_column columns []" for c
    unfolding emit_map_fold by (simp add: column.fold_put)
  have i: "put_items ms (c @ [x]) = (c @ [x]) @ put_items ms []" for ms c x
    by (rule items.put_appends)
  have d: "emit [write_ub4 0, write_ub4 0, write_ub4 0, write_ub4 0, write_ub4 0, write_ub4 0]
      = put_items describe_end"
    by (simp add: describe_end_def fun_eq_iff)
  have "put_items [I8 0, IB4 0] [] = [0] @ write_ub4 0 []"
    unfolding put_items_Cons by (simp add: write_u8_def)
  then have h: "write_ub4 n (write_ub4 0 (b @ [0])) = b @ put_items [I8 0, IB4 0] [] @ write_ub4 n []" for n
    by (simp add: write_ub4_app [of _ "b @ _"])
  show ?thesis
    unfolding write_describe_def if_False emit_simps(3) e d emit_simps(1,2) write_u8_def h
    by (subst items.put_appends) simp
qed

lemma query_written:
  assumes "end_of_fetch has_more = (errno, msg)"
  shows "build_query_response columns rows cursor_id has_more completion False req_seq =
      put_items [I16 (if completion \<and> \<not> has_more then 0x2000 else 0), I8 0x10, I8 0, IB4 0] []
      @ write_ub4 (word_of_nat (length columns)) [] @ [0] @ fold write_column columns []
      @ put_items describe_end [] @ parts_bytes (map Row (padded_rows (length columns) rows))
      @ (if completion
         then write_end_of_call_ext errno msg (row_count_field has_more) has_more True 0 []
           @ [TTC_MSG_END_OF_RESPONSE]
         else write_end_of_call 0 None (row_count_field has_more) has_more 0 [])"
proof -
  have m: "map (\<lambda>row. write_row (map (cell row) [0..<length columns])) rows
      = map write_row (padded_rows (length columns) rows)"
    by (simp add: padded_rows_def)
  have "put_items [I16 f, I8 0x10, I8 0, IB4 0] [] = be16 f @ [0x10] @ put_items [I8 0, IB4 0] []" for f
    unfolding put_items_Cons by (simp add: write_prims)
  then show ?thesis
    unfolding build_query_response_def build_query_response_ex_def build_query_response_inner_def
      assms prod.case if_False if_True simp_thms emit_simps(1,2) m parts_written describe_written write_prims
    by (cases completion) (simp_all add: write_prims lenient.end_appends [of _ _ _ _ _ "_ # _"] strict.end_appends [of _ _ _ _ _ "_ # _"]
        lenient.end_appends [of _ _ _ _ _ "_ @ _"] strict.end_appends [of _ _ _ _ _ "_ @ _"])
qed

definition client_ack :: "layout \<Rightarrow> bytes \<Rightarrow> error + call_end" where
  "client_ack l = run_reader (let_ok (skip_fields [U16]) (\<lambda>_. read_call_end l))"

lemma client_ack_stream: "client_ack l (be16 f @ stream) = fst (read_call_end l (buf_at (be16 f) stream))"
  by (simp add: client_ack_def run_reader_def from_slice_buf_at discard_def read_simps)

lemma client_ack_end: "client_ack l (be16 f @ stream) = fst (read_call_end l (buf_at (be16 f) (stream @ [])))"
  by (simp add: client_ack_stream)

section \<open>Returned values\<close>

interpretation out_value: codec_pair write_bytes_with_length read_bytes_with_length "\<lambda>_. True"
  write_ub4 read_ub4 "\<lambda>_. True" ..

definition read_out_values :: "cells reader" where
  "read_out_values = let_ok read_ub4 (\<lambda>n.
     let_ok (out_value.pair.get_n (unat n)) (\<lambda>vs. ok (map fst vs)))"

lemma write_out_values_eq:
  "write_out_values vs b = b @ write_ub4 (word_of_nat (length vs)) []
     @ fold out_value.put_pair (map (\<lambda>v. (v, 0)) vs) []"
proof -
  have "write_out_values vs b
      = fold out_value.put_pair (map (\<lambda>v. (v, 0)) vs) (write_ub4 (word_of_nat (length vs)) b)"
    by (simp add: write_out_values_def emit_map_fold fold_map comp_def out_value.put_pair_def)
  also have "\<dots> = write_ub4 (word_of_nat (length vs)) b @ fold out_value.put_pair (map (\<lambda>v. (v, 0)) vs) []"
    by (simp only: out_value.pair.fold_put append_Nil)
  finally show ?thesis by (subst (asm) write_ub4_app) simp
qed

interpretation out_values: codec write_out_values read_out_values "\<lambda>vs. length vs < 2 ^ 32"
proof
  show "write_out_values vs b = b @ write_out_values vs []" for vs b
    by (subst (1 2) write_out_values_eq) simp
next
  fix vs :: cells and pre rest
  assume "length vs < 2 ^ 32"
  then have n: "unat (word_of_nat (length vs) :: u32) = length vs"
    by (simp add: unat_of_nat take_bit_nat_eq_self)
  let ?ps = "map (\<lambda>v. (v, 0)) vs :: (bytes option \<times> u32) list"
  have "out_value.pair.get_n (length ?ps) (buf_at p (fold out_value.put_pair ?ps [] @ rest))
      = (Inr ?ps, buf_at (p @ fold out_value.put_pair ?ps []) rest)" for p
    by (rule out_value.pair.get_n_put) (simp add: list_all_iff)
  then show "read_out_values (buf_at pre (write_out_values vs [] @ rest))
      = (Inr vs, buf_at (pre @ write_out_values vs []) rest)"
    by (simp add: write_out_values_eq [of _ "[]"] read_out_values_def ub4.get_put n comp_def)
qed

definition client_returning ::
    "nat \<Rightarrow> nat \<Rightarrow> bytes \<Rightarrow> error + bytes \<times> cells list \<times> call_end" where
  "client_returning binds outs = run_reader
     (let_ok (skip_fields [U16, U8, U8, UB2, UB4, UB4, UB2, UB2, UB2]) (\<lambda>_.
      let_ok (read_bytes_vec binds) (\<lambda>directions.
      let_ok (skip_fields [U8]) (\<lambda>_.
      let_ok (out_values.get_n outs) (\<lambda>values.
      let_ok (skip_fields [U8, UB2, UB2, UB2, UB2]) (\<lambda>_.
      let_ok (read_call_end strict_layout) (\<lambda>e. ok (directions, values, e))))))))"

definition io_vector :: "nat \<Rightarrow> item list" where
  "io_vector n = [I16 0x2000, I8 11, I8 0, IB2 (word_of_nat n), IB4 0, IB4 0, IB2 0, IB2 0, IB2 0]"

definition return_parameters :: "item list" where
  "return_parameters = [I8 8, IB2 0, IB2 0, IB2 0, IB2 0]"

lemma directions_written:
  "emit (map (\<lambda>k. write_u8 (if k < i then TNS_BIND_DIR_INPUT else TNS_BIND_DIR_OUTPUT)) [0..<i + n]) b
     = b @ replicate i 32 @ replicate n 16"
proof -
  have m: "emit (map (\<lambda>k. write_u8 (f k)) ks) b = b @ map f ks" for f ks b
    by (induction ks arbitrary: b) (simp_all add: write_prims)
  have "map (\<lambda>k. if k < i then TNS_BIND_DIR_INPUT else TNS_BIND_DIR_OUTPUT) [0..<i + n]
      = replicate i 32 @ replicate n 16"
    by (rule nth_equalityI)
      (simp_all add: nth_append TNS_BIND_DIR_INPUT_def TNS_BIND_DIR_OUTPUT_def)
  then show ?thesis unfolding m by simp
qed

lemma returning_written:
  assumes "list_all (\<lambda>vs. length vs < 2 ^ 32) out_values"
  shows "build_returning_response i out_values rows =
      put_items (io_vector (i + length out_values)) [] @ (replicate i 32 @ replicate (length out_values) 16)
      @ [0x07] @ fold write_out_values out_values [] @ put_items return_parameters []
      @ write_end_of_call_ext 0 None rows False True 0 [] @ [TTC_MSG_END_OF_RESPONSE]"
proof -
  have v: "emit (map write_out_values out_values) b = b @ fold write_out_values out_values []" for b
    unfolding emit_map_fold by (simp only: out_values.fold_put append_Nil)
  have io: "write_ub2 0 (write_ub2 0 (write_ub2 0 (write_ub4 0 (write_ub4 0 (write_ub2 (word_of_nat n)
      (write_u8 0 (write_u8 TNS_MSG_TYPE_IO_VECTOR (write_u16_be 0x2000 [])))))))) = put_items (io_vector n) []" for n
    by (simp add: io_vector_def TNS_MSG_TYPE_IO_VECTOR_def)
  have rp: "write_ub2 0 (write_ub2 0 (write_ub2 0 (write_ub2 0 (write_u8 TTC_MSG_PARAMETER b))))
      = b @ put_items return_parameters []" for b
    by (subst items.put_appends [symmetric]) (simp add: return_parameters_def TTC_MSG_PARAMETER_def)
  show ?thesis
    unfolding build_returning_response_def Let_def emit_simps(3) emit_simps(1,2) io v directions_written rp
    by (simp add: write_u8_def TNS_MSG_TYPE_ROW_DATA_def strict.end_appends [of _ _ _ _ _ "_ @ _"])
qed

lemma fetch_responses_read:
  assumes "list_all (\<lambda>row. length row = n) rows" and "2 * length rows + 1 < k"
  shows "client_fetch row_header_layout n (if completion then strict_layout else fetch_layout) k
      (build_fetch_response rows cursor_id has_more completion) = Inr (rows, fetch_end has_more 1) \<and>
    client_fetch row_header_layout_jdbc n jdbc_layout k
      (build_fetch_response_jdbc rows cursor_id has_more req_seq)
      = Inr (rows, fetch_end has_more (max cursor_id 1))"
proof
  obtain errno msg where e: "end_of_fetch has_more = (errno, msg)" by force
  have k: "length (thin_parts rows) < k" "length (jdbc_parts rows) < k"
    using assms(2) parts_length [of rows] by linarith+
  note read = fetch_end_eq [OF e] end_of_fetch_utf8 [OF e] part_rows_simps
  show "client_fetch row_header_layout n (if completion then strict_layout else fetch_layout) k
      (build_fetch_response rows cursor_id has_more completion) = Inr (rows, fetch_end has_more 1)"
    by (cases completion) (simp_all only: fetch_responses [OF e] client_fetch_stream read if_True if_False
        strict.read_parts [OF parts_ok(1) [OF assms(1)] k(1)]
        fetch.read_parts [OF parts_ok(1) [OF assms(1)] k(1)] fst_conv)
  show "client_fetch row_header_layout_jdbc n jdbc_layout k
      (build_fetch_response_jdbc rows cursor_id has_more req_seq)
      = Inr (rows, fetch_end has_more (max cursor_id 1))"
    by (simp only: fetch_responses [OF e] client_fetch_stream read
        jdbc.read_parts [OF parts_ok(2) [OF assms(1)] k(2)] fst_conv)
qed

section \<open>Properties\<close>

text \<open>
  C31.  A client that steps over a Fetch response in its own layout (strict thin, lenient
  thin or JDBC) gets exactly the rows the server put in, and an end of call that says
  no data found when the cursor is drained and names an open cursor when it is not.
\<close>

theorem fetch_response_read_back:
  assumes "list_all (\<lambda>row. length row = n) rows" and "2 * length rows + 1 < k"
  shows "client_fetch row_header_layout n (if completion then strict_layout else fetch_layout) k
      (build_fetch_response rows cursor_id has_more completion) = Inr (rows, fetch_end has_more 1) \<and>
    client_fetch row_header_layout_jdbc n jdbc_layout k
      (build_fetch_response_jdbc rows cursor_id has_more req_seq)
      = Inr (rows, fetch_end has_more (max cursor_id 1))"
  using fetch_responses_read [OF assms] .

theorem fetch_response_read_back_witness:
  "client_fetch row_header_layout 1 strict_layout 6
     (build_fetch_response [[Some [0x41]], [None]] 7 False True)
     = Inr ([[Some [0x41]], [None]], fetch_end False 1) \<and>
   client_fetch row_header_layout_jdbc 1 jdbc_layout 6
     (build_fetch_response_jdbc [[Some [0x41]], [None]] 7 False 3)
     = Inr ([[Some [0x41]], [None]], fetch_end False (max 7 1))"
  using fetch_response_read_back [of 1 "[[Some [0x41]], [None]]" 6 True 7 False 3] by simp

text \<open>
  C30.  A thin client that reads the response to a query gets every column as the server
  described it, one row per row with NULL in the cells a row is short of, and the end of
  call of its dialect: the strict one carries no data found exactly when no rows remain.
\<close>

theorem query_response_read_back:
  assumes "list_all column_ok columns" and "length columns < 2 ^ 32" and "length rows < k"
  shows "client_query (if completion then strict_layout else lenient_layout) k
      (build_query_response columns rows cursor_id has_more completion False req_seq)
    = Inr (columns, padded_rows (length columns) rows,
        if completion then fetch_end has_more 1
        else \<lparr>ce_cursor = (if has_more then 1 else 0), ce_code = 0,
               ce_rows = (if has_more then 1 else 0), ce_message = None\<rparr>)"
proof -
  obtain errno msg where e: "end_of_fetch has_more = (errno, msg)" by force
  let ?n = "length columns" and ?rows = "padded_rows (length columns) rows"
  have n: "unat (word_of_nat ?n :: u32) = ?n"
    using assms(2) by (simp add: unat_of_nat take_bit_nat_eq_self)
  have ok: "list_all (part_ok row_header_layout ?n) (map Row ?rows)"
    by (rule parts_ok(3)) (simp add: list_all_iff padded_rows_def)
  have k: "length (map Row ?rows) < k"
    using assms(3) by (simp add: padded_rows_def)
  have head: "skip_fields [U16, U8, U8, UB4] (buf_at [] (put_items [I16 f, I8 0x10, I8 0, IB4 0] [] @ r))
      = (Inr (), buf_at ([] @ put_items [I16 f, I8 0x10, I8 0, IB4 0] []) r)" for f r
    using skip_items [of "[I16 f, I8 0x10, I8 0, IB4 0]" "[]" r] by (simp del: put_items_simps)
  have mid: "skip_fields [U8] (buf_at p ([0] @ r)) = (Inr (), buf_at (p @ [0]) r)" for p r
    by (simp add: discard_def read_u8_Cons)
  have tail: "skip_fields [UB4, UB4, UB4, UB4, UB4, UB4] (buf_at p (put_items describe_end [] @ r))
      = (Inr (), buf_at (p @ put_items describe_end []) r)" for p r
    using skip_items [of describe_end p r] by (simp add: describe_end_def del: put_items_simps)
  have lenient_end: "read_rows_end row_header_layout ?n lenient_layout k
      (buf_at p (parts_bytes (map Row ?rows) @ write_end_of_call 0 None c hm 0 []))
    = (Inr (?rows, \<lparr>ce_cursor = (if hm then 1 else 0), ce_code = 0, ce_rows = c, ce_message = None\<rparr>),
       buf_at (p @ parts_bytes (map Row ?rows) @ write_end_of_call 0 None c hm 0 []) [])" for p c hm
    using lenient.read_parts [OF ok k, where errno = 0 and msg = None and pre = p and pos = 0 and rows = c and hm = hm and rest = "[]"] by (simp add: part_rows_simps)
  note steps = client_query_def run_reader_def from_slice_buf_at query_written [OF e] let_ok_apply
    prod.case on_ok_simps head ub4.get_put [OF TrueI] n mid column.get_n_put [OF assms(1)] tail
    fst_conv ok_apply part_rows_simps append_assoc
  show ?thesis
    by (cases completion) (simp_all only: steps if_True if_False append_Nil2
      strict.read_parts [OF ok k end_of_fetch_utf8 [OF e], unfolded append_assoc]
      lenient_end fetch_end_eq [OF e, unfolded row_count_field_def] row_count_field_def)
qed

theorem query_response_read_back_witness:
  "client_query strict_layout 3
     (build_query_response [number_column ''N'' 10 2, date_column ''D'']
        [[Some [0xC1, 0x02]], [None, Some [1]]] 7 True True False 3)
    = Inr ([number_column ''N'' 10 2, date_column ''D''],
        padded_rows (Suc (Suc 0)) [[Some [0xC1, 0x02]], [None, Some [1]]], fetch_end True 1)"
proof -
  have "utf8_opt (Some ''N'')" "utf8_opt (Some ''D'')" "utf8_opt None" by code_simp+
  then have "list_all column_ok [number_column ''N'' 10 2, date_column ''D'']"
    by (simp add: column_ok_def meta_string_def number_column_def date_column_def)
  then show ?thesis
    using query_response_read_back [of "[number_column ''N'' 10 2, date_column ''D'']"
        "[[Some [0xC1, 0x02]], [None, Some [1]]]" 3 True 7 True 3] by simp
qed

text \<open>
  Acknowledgements carry the number of affected rows to lenient thin and to JDBC
  clients, with no error and no open cursor.
\<close>

theorem dml_ack_read_back:
  "client_ack lenient_layout (build_dml_response rows)
     = Inr \<lparr>ce_cursor = 0, ce_code = 0, ce_rows = rows, ce_message = None\<rparr> \<and>
   client_ack jdbc_layout (build_dml_response_jdbc rows req_seq)
     = Inr \<lparr>ce_cursor = 0, ce_code = 0, ce_rows = rows, ce_message = None\<rparr>"
  unfolding build_dml_response_def build_dml_response_jdbc_def emit_simps write_prims append_Nil
    lenient.end_appends [of _ _ _ _ _ "be16 _"] jdbc.end_appends [of _ _ _ _ _ _ _ "be16 _"] client_ack_end
  by (simp add: read_lenient [of 0] read_jdbc [of 0] del: append_Nil2)

text \<open>
  Whatever the dialect a thin client negotiated, the error reply built for it delivers
  the error number and the message, no rows and no open cursor.
\<close>

theorem error_reply_read_back:
  assumes "error_code \<noteq> 0" and "utf8_opt (Some message)"
  shows "client_ack (if newer then jdbc_layout else if completion then strict_layout else lenient_layout)
      (build_error_response_at completion newer False error_code message error_pos)
    = Inr \<lparr>ce_cursor = 0, ce_code = error_code, ce_rows = 0, ce_message = Some message\<rparr>"
  unfolding build_error_response_at_def if_False emit_simps write_prims append_Nil
    lenient.end_appends [of _ _ _ _ _ "be16 _"] jdbc.end_appends [of _ _ _ _ _ _ _ "be16 _"]
    strict.end_appends [of _ _ _ _ _ "be16 _"]
  using assms by (auto simp: read_lenient read_jdbc read_strict client_ack_end append_assoc simp del: append_Nil2)

theorem error_reply_read_back_witness:
  "client_ack strict_layout (build_error_response_at True False False 942 ''no table'' 7)
    = Inr \<lparr>ce_cursor = 0, ce_code = 942, ce_rows = 0, ce_message = Some ''no table''\<rparr>"
proof -
  have "utf8_opt (Some ''no table'')" by code_simp
  then show ?thesis
    using error_reply_read_back [of 942 "''no table''" False True 7] by simp
qed

text \<open>
  The response to a RETURNING INTO statement gives a strict thin client the direction
  of every bind (inputs first), for every output bind exactly the values of the rows the
  statement touched, and an end of call with the number of those rows.
\<close>

theorem returning_read_back:
  assumes "list_all (\<lambda>vs. length vs < 2 ^ 32) out_values"
  shows "client_returning (i + length out_values) (length out_values) (build_returning_response i out_values rows)
    = Inr (replicate i 32 @ replicate (length out_values) 16, out_values,
        \<lparr>ce_cursor = 0, ce_code = 0, ce_rows = rows, ce_message = None\<rparr>)"
proof -
  let ?n = "i + length out_values"
  have head: "skip_fields [U16, U8, U8, UB2, UB4, UB4, UB2, UB2, UB2] (buf_at [] (put_items (io_vector ?n) [] @ r))
      = (Inr (), buf_at ([] @ put_items (io_vector ?n) []) r)" for r
    using skip_items [of "io_vector ?n" "[]" r] by (simp add: io_vector_def del: put_items_simps)
  have mid: "skip_fields [U8] (buf_at p ([0x07] @ r)) = (Inr (), buf_at (p @ [0x07]) r)" for p r
    by (simp add: discard_def read_u8_Cons)
  have tail: "skip_fields [U8, UB2, UB2, UB2, UB2] (buf_at p (put_items return_parameters [] @ r))
      = (Inr (), buf_at (p @ put_items return_parameters []) r)" for p r
    using skip_items [of return_parameters p r] by (simp add: return_parameters_def del: put_items_simps)
  have dirs: "read_bytes_vec ?n (buf_at p ((replicate i 32 @ replicate (length out_values) 16) @ r))
      = (Inr (replicate i 32 @ replicate (length out_values) 16),
         buf_at (p @ replicate i 32 @ replicate (length out_values) 16) r)" for p r
    by (rule read_bytes_vec_buf_at) simp
  show ?thesis
    unfolding client_returning_def run_reader_def from_slice_buf_at returning_written [OF assms]
    by (simp only: let_ok_apply prod.case on_ok_simps head dirs mid out_values.get_n_put [OF assms] tail
        read_strict [of 0, simplified] ok_apply fst_conv if_False)
qed

theorem returning_read_back_witness:
  "client_returning (1 + length [[Some [7 :: u8], None]]) (length [[Some [7 :: u8], None]])
     (build_returning_response 1 [[Some [7], None]] 2)
   = Inr (replicate 1 32 @ replicate (length [[Some [7 :: u8], None]]) 16, [[Some [7], None]],
        \<lparr>ce_cursor = 0, ce_code = 0, ce_rows = 2, ce_message = None\<rparr>)"
  by (rule returning_read_back) simp

end
