(* ===== verification/Backend_Api.thy ===== *)
theory Backend_Api
  imports Response Binds Ttc Codec
begin

text \<open>
  The contract between the wire layer and a database (\<^verbatim>\<open>src/src/backend.rs\<close>): the operations of
  the traits \<open>OracleBackend\<close> and \<open>OracleCursor\<close> as the fields of a record over the backend's
  state \<open>'b\<close> and its cursors \<open>'c\<close>, the describe level a client gets, and the interface of a
  cursor as a source of rows.  The two cursors of the source are models of that interface:
  MariaDB's buffered result, and the stream of PostgreSQL rows behind a savepoint.
\<close>

section \<open>The traits\<close>

record describe_caps =
  report_number_scale :: bool
  native_binary_floats :: bool
  native_intervals :: bool
  native_timestamps :: bool
  caps_oci :: bool
  timestamp_scale_zero :: bool
  datetime_as_date :: bool

definition LENIENT :: describe_caps where
  "LENIENT = \<lparr>report_number_scale = False, native_binary_floats = False, native_intervals = False,
     native_timestamps = False, caps_oci = False, timestamp_scale_zero = False, datetime_as_date = False\<rparr>"

definition for_client :: "bool \<Rightarrow> bool \<Rightarrow> bool \<Rightarrow> bool \<Rightarrow> describe_caps" where
  "for_client response_completion newer_describe_framing oci_dialect na_without_version_list =
     (let thin_strict = response_completion \<and> \<not> newer_describe_framing in
      \<lparr>report_number_scale = True, native_binary_floats = thin_strict, native_intervals = thin_strict,
       native_timestamps = True, caps_oci = oci_dialect, timestamp_scale_zero = False,
       datetime_as_date = False\<rparr>)"

record ('b, 'c) backend =
  open_cursor :: "string \<Rightarrow> bind_value list \<Rightarrow> describe_caps \<Rightarrow> ('b, error, 'c) step"
  execute_simple :: "string \<Rightarrow> bind_value list \<Rightarrow> ('b, error, u64) step"
  execute_ddl :: "string \<Rightarrow> bind_value list \<Rightarrow> ('b, error, u64) step"
  execute_returning :: "string \<Rightarrow> bind_value list \<Rightarrow> ('b, error, u64 \<times> cells list) step"
  cancel_statement :: "'b \<Rightarrow> 'b"
  cursor_columns :: "'c \<Rightarrow> column_meta list"
  is_exhausted :: "'c \<Rightarrow> bool"
  next_batch :: "nat \<Rightarrow> ('c \<times> 'b, error, cells list) step"
  finish_cursor :: "'c \<times> 'b \<Rightarrow> 'c \<times> 'b"

section \<open>A cursor as a source of rows\<close>

text \<open>
  \<open>pending\<close> lists the rows still to come and \<open>ready\<close> says that the source will deliver them.
  Batches are taken from the front; the end is noticed in a batch that asks for more rows than
  there are, and a cursor marked exhausted has nothing left.
\<close>

locale row_source =
  fixes pull :: "nat \<Rightarrow> ('s, error, 'r list) step"
    and pending :: "'s \<Rightarrow> 'r list"
    and at_end :: "'s \<Rightarrow> bool"
    and ready :: "'s \<Rightarrow> bool"
  assumes pull_rows: "ready s \<Longrightarrow> \<exists>s'. pull n s = (Inr (take n (pending s)), s')
      \<and> pending s' = drop n (pending s) \<and> ready s' \<and> (length (pending s) < n \<longrightarrow> at_end s')"
    and at_end_empty: "ready s \<Longrightarrow> at_end s \<Longrightarrow> pending s = []"
begin

text \<open>The batches of a list of sizes, stopping where the source says it is at its end.\<close>

fun batches :: "nat list \<Rightarrow> 's \<Rightarrow> 'r list list \<times> 's" where
  "batches [] s = ([], s)"
| "batches (n # ns) s =
     (if at_end s then ([], s)
      else (case pull n s of
          (Inl e, s') \<Rightarrow> ([], s')
        | (Inr rs, s') \<Rightarrow> (case batches ns s' of (rss, t) \<Rightarrow> (rs # rss, t))))"

lemma batches_prefix:
  "ready s \<Longrightarrow> batches ns s = (rss, t) \<Longrightarrow>
     concat rss = take (sum_list ns) (pending s) \<and> pending t = drop (sum_list ns) (pending s) \<and> ready t"
proof (induction ns arbitrary: s rss)
  case Nil
  then show ?case by simp
next
  case (Cons n ns)
  show ?case
  proof (cases "at_end s")
    case True
    with Cons.prems at_end_empty show ?thesis by auto
  next
    case False
    from pull_rows [OF Cons.prems(1), of n] obtain s' where
      s': "pull n s = (Inr (take n (pending s)), s')" "pending s' = drop n (pending s)" "ready s'" by blast
    obtain rss' where b: "batches ns s' = (rss', t)" and rss: "rss = take n (pending s) # rss'"
      using Cons.prems(2) False s'(1) by (auto split: prod.splits)
    from Cons.IH [OF s'(3) b] s'(2) rss show ?thesis
      by (simp add: take_add add.commute)
  qed
qed

text \<open>Batches of positive size reach the end, with every row delivered once and in order.\<close>

lemma batches_complete:
  assumes "ready s" "batches ns s = (rss, t)" "length (pending s) < sum_list ns"
  shows "concat rss = pending s \<and> at_end t"
proof -
  have c: "concat rss = pending s" using batches_prefix [OF assms(1,2)] assms(3) by simp
  from assms have "at_end t"
  proof (induction ns arbitrary: s rss)
    case (Cons n ns)
    show ?case
    proof (cases "at_end s")
      case True
      with Cons.prems show ?thesis by auto
    next
      case False
      from pull_rows [OF Cons.prems(1), of n] obtain s' where
        s': "pull n s = (Inr (take n (pending s)), s')" "pending s' = drop n (pending s)" "ready s'"
          "length (pending s) < n \<Longrightarrow> at_end s'" by blast
      obtain rss' where b: "batches ns s' = (rss', t)"
        using Cons.prems(2) False s'(1) by (auto split: prod.splits)
      show ?thesis
      proof (cases "length (pending s) < n")
        case True
        with s'(4) have "at_end s'" by blast
        with b show ?thesis by (cases ns) auto
      next
        case False
        with Cons.prems(3) s'(2) have "length (pending s') < sum_list ns" by simp
        from Cons.IH [OF s'(3) b this] show ?thesis .
      qed
    qed
  qed simp
  with c show ?thesis by simp
qed

end

section \<open>MariaDB's cursor\<close>

text \<open>An operation on the cursor alone, in a state of cursor and backend.\<close>

definition on_fst :: "('a, error, 'r) step \<Rightarrow> ('a \<times> 'b, error, 'r) step" where
  "on_fst f s = (case f (fst s) of (r, a) \<Rightarrow> (r, (a, snd s)))"

lemma row_source_fst:
  fixes pull :: "nat \<Rightarrow> ('a, error, 'r list) step"
  assumes "row_source pull pending at_end ready"
  shows "row_source (\<lambda>n. on_fst (pull n) :: ('a \<times> 'b, error, 'r list) step) (pending \<circ> fst)
    (\<lambda>(a, _). at_end a) (ready \<circ> fst)"
proof
  fix s :: "'a \<times> 'b" and n
  assume "(ready \<circ> fst) s"
  then obtain a where "pull n (fst s) = (Inr (take n (pending (fst s))), a)" "pending a = drop n (pending (fst s))"
    "ready a" "length (pending (fst s)) < n \<longrightarrow> at_end a"
    using row_source.pull_rows [OF assms, of "fst s" n] by auto
  then show "\<exists>s'. on_fst (pull n) s = (Inr (take n ((pending \<circ> fst) s)), s') \<and>
      (pending \<circ> fst) s' = drop n ((pending \<circ> fst) s) \<and> (ready \<circ> fst) s' \<and>
      (length ((pending \<circ> fst) s) < n \<longrightarrow> (case s' of (a, _) \<Rightarrow> at_end a))"
    by (simp add: on_fst_def)
next
  fix s :: "'a \<times> 'b"
  assume "(ready \<circ> fst) s" "case s of (a, _) \<Rightarrow> at_end a"
  then show "(pending \<circ> fst) s = []"
    using row_source.at_end_empty [OF assms, of "fst s"] by (simp add: split_beta)
qed

record maria_cursor =
  mc_columns :: "column_meta list"
  mc_rows :: "cells list"
  mc_offset :: nat

definition maria_exhausted :: "maria_cursor \<Rightarrow> bool" where
  "maria_exhausted c \<longleftrightarrow> length (mc_rows c) \<le> mc_offset c"

definition maria_next_batch :: "nat \<Rightarrow> (maria_cursor, error, cells list) step" where
  "maria_next_batch n c =
     (let stop = min (mc_offset c + n) (length (mc_rows c)) in
      (Inr (take (stop - mc_offset c) (drop (mc_offset c) (mc_rows c))), c\<lparr>mc_offset := stop\<rparr>))"

definition maria_finish :: "maria_cursor \<Rightarrow> maria_cursor" where
  "maria_finish c = c\<lparr>mc_offset := length (mc_rows c)\<rparr>"

definition maria_pending :: "maria_cursor \<Rightarrow> cells list" where
  "maria_pending c = drop (mc_offset c) (mc_rows c)"

definition maria_ok :: "maria_cursor \<Rightarrow> bool" where
  "maria_ok c \<longleftrightarrow> mc_offset c \<le> length (mc_rows c)"

interpretation maria: row_source maria_next_batch maria_pending maria_exhausted maria_ok
proof
  fix c :: maria_cursor and n
  assume "maria_ok c"
  then have "take (min (mc_offset c + n) (length (mc_rows c)) - mc_offset c) (maria_pending c)
      = take n (maria_pending c)"
    by (simp add: maria_ok_def maria_pending_def min_def)
  then show "\<exists>s'. maria_next_batch n c = (Inr (take n (maria_pending c)), s') \<and>
      maria_pending s' = drop n (maria_pending c) \<and> maria_ok s' \<and>
      (length (maria_pending c) < n \<longrightarrow> maria_exhausted s')"
    by (auto simp: maria_next_batch_def maria_pending_def maria_exhausted_def maria_ok_def Let_def min_def add.commute)
qed (simp add: maria_exhausted_def maria_pending_def)

lemmas maria_source = row_source_fst [OF maria.row_source_axioms]

end
