(* ===== verification/Handshake_Wire.thy ===== *)
theory Handshake_Wire
  imports End_Of_Call Profile
begin

text \<open>
  The messages of the handshake from \<^verbatim>\<open>src/src/wire.rs\<close>: the network services negotiation of OCI
  clients, the Protocol and DataTypes exchanges, piggybacked calls, the version call and the
  bare status replies.  The recorded DataTypes response of an OCI server is a file the build
  embeds; its content is the argument of the one function that returns it.
\<close>

section \<open>Constants\<close>

definition PROTOCOL_VERSION :: u8 where "PROTOCOL_VERSION = 0x06"
definition CHARSET_ID :: u16 where "CHARSET_ID = 873"

definition SERVER_COMPILE_CAPS :: bytes where
  "SERVER_COMPILE_CAPS = [
     0x06, 0x00, 0x00, 0x00, 0xea, 0x18, 0x00, 0x0c, 0x01, 0x01, 0x00, 0x00, 0x00, 0x00, 0x00, 0x01,
     0x39, 0x90, 0x03, 0x07, 0x03, 0x00, 0x01, 0x00, 0xcf, 0x00, 0x00, 0x04, 0x01, 0x00, 0x00, 0x00,
     0x10, 0x00, 0x00, 0x0c, 0x20, 0x00, 0xb8, 0x00, 0x08, 0x44, 0x00, 0x05, 0x00, 0x3e, 0x00, 0x00,
     0x00, 0x00, 0x00, 0x00, 0x00]"

definition SERVER_RUNTIME_CAPS :: bytes where
  "SERVER_RUNTIME_CAPS = [0x00, 0x0b, 0x02, 0x00]"

definition SERVER_PORT_DESCRIPTOR :: string where
  "SERVER_PORT_DESCRIPTOR = ''IBMPC/WIN_NT64-9.1.0''"

definition ANO_NEGOTIATION_RESPONSE :: bytes where
  "ANO_NEGOTIATION_RESPONSE = [
     0xde, 0xad, 0xbe, 0xef, 0x00, 0x75, 0x00, 0x00, 0x00, 0x00, 0x00, 0x04, 0x00, 0x00, 0x04, 0x00,
     0x03, 0x00, 0x00, 0x00, 0x00, 0x00, 0x04, 0x00, 0x05, 0x15, 0x00, 0x00, 0x00, 0x00, 0x02, 0x00,
     0x06, 0x00, 0x1f, 0x00, 0x0e, 0x00, 0x01, 0xde, 0xad, 0xbe, 0xef, 0x00, 0x03, 0x00, 0x00, 0x00,
     0x02, 0x00, 0x04, 0x00, 0x01, 0x00, 0x01, 0x00, 0x02, 0x00, 0x00, 0x00, 0x00, 0x00, 0x04, 0x00,
     0x05, 0x15, 0x00, 0x10, 0x00, 0x00, 0x02, 0x00, 0x06, 0xfb, 0xff, 0x00, 0x02, 0x00, 0x02, 0x00,
     0x00, 0x00, 0x00, 0x00, 0x04, 0x00, 0x05, 0x15, 0x00, 0x10, 0x00, 0x00, 0x01, 0x00, 0x02, 0x00,
     0x00, 0x03, 0x00, 0x02, 0x00, 0x00, 0x00, 0x00, 0x00, 0x04, 0x00, 0x05, 0x15, 0x00, 0x10, 0x00,
     0x00, 0x01, 0x00, 0x02, 0x00]"

definition OCI_PROTOCOL_CAPS :: bytes where
  "OCI_PROTOCOL_CAPS = [
     0x69, 0x03, 0x01, 0x0a, 0x00, 0x66, 0x03, 0x40, 0x03, 0x01, 0x40, 0x03, 0x66, 0x03, 0x01, 0x66,
     0x03, 0x48, 0x03, 0x01, 0x48, 0x03, 0x66, 0x03, 0x01, 0x66, 0x03, 0x52, 0x03, 0x01, 0x52, 0x03,
     0x66, 0x03, 0x01, 0x66, 0x03, 0x61, 0x03, 0x01, 0x61, 0x03, 0x66, 0x03, 0x01, 0x66, 0x03, 0x1f,
     0x03, 0x08, 0x1f, 0x03, 0x66, 0x03, 0x01, 0x00, 0x64, 0x00, 0x00, 0x00, 0x60, 0x01, 0x24, 0x0f,
     0x05, 0x0b, 0x0c, 0x03, 0x0c, 0x0c, 0x05, 0x04, 0x05, 0x0d, 0x06, 0x09, 0x07, 0x08, 0x05, 0x05,
     0x05, 0x05, 0x05, 0x0f, 0x05, 0x05, 0x05, 0x05, 0x05, 0x0a, 0x05, 0x05, 0x05, 0x05, 0x05, 0x04,
     0x05, 0x06, 0x07, 0x08, 0x08, 0x23, 0x47, 0x23, 0x47, 0x08, 0x11, 0x23, 0x08, 0x11, 0x41, 0xb0,
     0x47, 0x00, 0x83, 0x03, 0x69, 0x07, 0xd0, 0x03, 0x00, 0x00, 0x00, 0x00, 0x00, 0x00, 0x00, 0x00,
     0x00, 0x00, 0x00, 0x00, 0x00, 0x00, 0x00, 0x00, 0x00, 0x00, 0x00, 0x00, 0x00, 0x00, 0x00, 0x00,
     0x00, 0x00, 0x00, 0x00, 0x00, 0x00, 0x00, 0x00, 0x00, 0x00, 0x00, 0x00, 0x00, 0x2d, 0x06, 0x01,
     0x01, 0x01, 0x6f, 0x01, 0x01, 0x10, 0x01, 0x01, 0x01, 0x01, 0x01, 0x01, 0x01, 0x7f, 0xff, 0x03,
     0x10, 0x03, 0x03, 0x01, 0x01, 0xff, 0x01, 0xff, 0xff, 0x01, 0x0b, 0x01, 0x01, 0xff, 0x01, 0x06,
     0x0c, 0xe6, 0x01, 0x7f, 0x05, 0x0f, 0x7f, 0x0d, 0x03, 0x00, 0x01, 0x07, 0x02, 0x01, 0x00, 0x01,
     0x18, 0x00, 0x7f]"

section \<open>Network services, Protocol\<close>

definition is_ano_negotiation :: "bytes \<Rightarrow> bool" where
  "is_ano_negotiation payload \<longleftrightarrow>
     6 \<le> length payload \<and> take 4 (drop 2 payload) = [0xde, 0xad, 0xbe, 0xef]"

definition build_ano_negotiation_response :: bytes where
  "build_ano_negotiation_response = emit [write_u16_be 0, write_bytes ANO_NEGOTIATION_RESPONSE] []"

definition build_protocol_response_oci :: bytes where
  "build_protocol_response_oci = emit [
     write_u16_be 0, write_u8 0x01, write_u8 0x06, write_u8 0x00,
     write_bytes (str_bytes ''x86_64/Linux 2.4.xx''), write_u8 0x00,
     write_bytes OCI_PROTOCOL_CAPS] []"

definition FDO :: bytes where
  "FDO = [0, 0, 0, 0, 0, 0, 0, 0, 0, 0x07, 0xD0]"

definition build_protocol_response :: bytes where
  "build_protocol_response = emit [
     write_u16_be 0, write_u8 0x01, write_u8 PROTOCOL_VERSION, write_u8 0,
     write_bytes (str_bytes SERVER_PORT_DESCRIPTOR), write_u8 0,
     write_u16_le CHARSET_ID, write_u8 0, write_u16_le 0,
     write_u16_be (word_of_nat (length FDO)), write_bytes FDO,
     write_bytes_with_length (Some SERVER_COMPILE_CAPS),
     write_bytes_with_length (Some SERVER_RUNTIME_CAPS)] []"

definition before_nul :: "bytes \<Rightarrow> bytes" where
  "before_nul = takeWhile (\<lambda>b. b \<noteq> 0)"

definition parse_protocol_request :: "bytes \<Rightarrow> error + protocol_request" where
  "parse_protocol_request payload = run_reader
     (let_ok (skip_fields [U16, U8]) (\<lambda>_.
      let_ok read_u8 (\<lambda>ver b.
        let rest = remaining_slice b; split = length (before_nul rest) in
        (Inr \<lparr>version = ver, accepted_versions = take split rest,
              banner = from_utf8_lossy (before_nul (drop (split + 1) rest))\<rparr>, b)))) payload"

section \<open>DataTypes\<close>

definition data_types_preamble :: "(bytes \<times> bytes) option reader" where
  "data_types_preamble =
     let_ok (skip 2) (\<lambda>_.
     let_ok read_u8 (\<lambda>msg_type.
     if msg_type \<noteq> 0x02 then ok None
     else
     let_ok read_u16_le (\<lambda>_. let_ok read_u16_le (\<lambda>_. let_ok read_u8 (\<lambda>_.
     let_ok read_bytes_with_length (\<lambda>ccaps.
     let_ok read_bytes_with_length (\<lambda>rcaps.
       ok (Some (unwrap_or [] ccaps, unwrap_or [] rcaps)))))))))"

definition parse_data_types_caps :: "bytes \<Rightarrow> error + bytes \<times> bytes" where
  "parse_data_types_caps payload = run_reader (let_ok data_types_preamble (\<lambda>r. case r of
       None \<Rightarrow> fail (Protocol ''not a DataTypes request'')
     | Some caps \<Rightarrow> ok caps)) payload"

text \<open>The loop over the four-word entries of the type list, up to a zero type.\<close>

definition read_entry_rest :: "bytes reader" where
  "read_entry_rest =
     let_ok read_u16_be (\<lambda>conv. let_ok read_u16_be (\<lambda>repr. let_ok read_u16_be (\<lambda>reserved.
       ok (be16 conv @ be16 repr @ be16 reserved))))"

lemma forward_read_entry_rest [forward_intros]: "forward read_entry_rest"
  unfolding read_entry_rest_def by (intro forward_intros)

lemma read_u16_be_consumes: "read_u16_be b = (Inr v, b') \<Longrightarrow> remaining b' < remaining b"
  by (auto simp: read_u16_be_def take_n_def let_ok_apply ensure_remaining_def remaining_def advance_def
      split: if_splits)

function read_triples :: "bytes \<Rightarrow> bytes reader" where
  "read_triples acc b = (case read_u16_be b of
       (Inl e, b1) \<Rightarrow> (Inl e, b1)
     | (Inr data_type, b1) \<Rightarrow>
         if data_type = 0 then (Inr acc, b1)
         else (case read_entry_rest b1 of
             (Inl e, b2) \<Rightarrow> (Inl e, b2)
           | (Inr rest, b2) \<Rightarrow> read_triples (acc @ be16 data_type @ rest) b2))"
  by pat_completeness auto
termination
proof -
  have d: "remaining b2 < remaining b" if "(Inr t, b1) = read_u16_be b" "(Inr r, b2) = read_entry_rest b1"
    for b t b1 r b2
    using read_u16_be_consumes [OF that(1) [symmetric]]
      forward_remaining [OF forward_read_entry_rest that(2) [symmetric]] by simp
  show ?thesis
    by (relation "measure (\<lambda>(acc, b). remaining b)") (auto dest: d)
qed

declare read_triples.simps [simp del]

definition data_type_triples :: "bytes \<Rightarrow> bytes option" where
  "data_type_triples payload =
     (case run_reader (let_ok data_types_preamble (\<lambda>r. case r of
          None \<Rightarrow> ok None | Some _ \<Rightarrow> let_ok (read_triples []) (\<lambda>t. ok (Some t)))) payload of
        Inl _ \<Rightarrow> None | Inr r \<Rightarrow> r)"

definition build_data_types_response :: "bytes \<Rightarrow> bytes" where
  "build_data_types_response request_payload = emit [
     write_u16_be 0, write_u8 0x02,
     (case data_type_triples request_payload of Some triples \<Rightarrow> write_bytes triples | None \<Rightarrow> emit []),
     write_u16_be 0] []"

definition echo_data_types_response :: "bytes \<Rightarrow> bytes" where
  "echo_data_types_response payload = build_data_types_response payload"

definition build_data_types_response_oci :: "bytes \<Rightarrow> bytes" where
  "build_data_types_response_oci recorded = recorded"

definition DB_TZ_UTC :: bytes where
  "DB_TZ_UTC = [0x80, 0, 0, 0, 0x3C, 0x3C, 0x3C, 0x80, 0, 0, 0]"

definition build_data_types_response_na_no_verlist :: bytes where
  "build_data_types_response_na_no_verlist = emit [
     write_u16_be 0, write_u8 0x02, write_bytes DB_TZ_UTC, write_u16_be 0] []"

section \<open>Piggybacked calls\<close>

definition KNOWN_FUNCS :: "u8 set" where
  "KNOWN_FUNCS = {0x03, 0x04, 0x05, 0x09, 0x0e, 0x0f, 0x2f, 0x3b, 0x47, 0x4e, 0x5e, 0x67, 0x69}"

text \<open>A function message starts here: \<open>0x03\<close> and a known function code.\<close>

fun call_here :: "bytes \<Rightarrow> bool" where
  "call_here (a # b # r) \<longleftrightarrow> a = 0x03 \<and> b \<in> KNOWN_FUNCS"
| "call_here r \<longleftrightarrow> False"

text \<open>The arguments of a piggyback run to the next marker or call.\<close>

fun skip_arguments :: "bytes \<Rightarrow> bytes" where
  "skip_arguments (a # b # r) =
     (if a = 0x11 \<or> call_here (a # b # r) then a # b # r else skip_arguments (b # r))"
| "skip_arguments r = r"

lemma skip_arguments_length: "length (skip_arguments r) \<le> length r"
  by (induction r rule: skip_arguments.induct) auto

function find_call :: "bytes \<Rightarrow> bytes option" where
  "find_call p = (case p of
       a # b # r \<Rightarrow>
         if a = 0x11 then find_call (skip_arguments (drop 3 p))
         else if call_here p then Some p
         else find_call (b # r)
     | _ \<Rightarrow> None)"
  by pat_completeness auto
termination
proof -
  have "length (skip_arguments (drop (Suc 0) r)) < Suc (Suc (length r))" for r
    using skip_arguments_length [of "drop (Suc 0) r"] by simp
  then show ?thesis by (relation "measure length") (auto split: list.splits)
qed

declare find_call.simps [simp del]

definition strip_piggyback :: "bytes \<Rightarrow> bytes option" where
  "strip_piggyback payload = find_call (drop 2 payload)"

section \<open>Status replies\<close>

definition write_ttc_status :: "write_buffer \<Rightarrow> write_buffer" where
  "write_ttc_status = emit [write_u8 TTC_MSG_STATUS, write_ub4 0, write_ub2 0]"

definition build_oversion_response :: "string \<Rightarrow> u32 \<Rightarrow> bytes" where
  "build_oversion_response text version_no = emit [
     write_u16_be 0, write_u8 TTC_MSG_PARAMETER, write_ub2 (word_of_nat (length text)),
     write_bytes (str_bytes text), write_ub4 version_no, write_ttc_status] []"

definition build_oversion_response_oci :: "string \<Rightarrow> bytes" where
  "build_oversion_response_oci text = emit [
     write_u16_be 0, write_u8 TTC_MSG_PARAMETER, write_u16_le (word_of_nat (length text)),
     write_u8 (word_of_nat (length text)), write_bytes (str_bytes text), write_u8 0,
     write_bytes [0x00, 0x03, 0x15, 0x09, 0x01, 0x00, 0x00, 0x00, 0x27, 0x00]] []"

definition build_logoff_response_oci :: bytes where
  "build_logoff_response_oci = [0x00, 0x00, 0x09, 0x01, 0x00, 0x00, 0x00, 0x00, 0x00]"

definition build_txn_response_oci :: bytes where
  "build_txn_response_oci = [0x00, 0x00, 0x09, 0x05, 0x00, 0x00, 0x00, 0x24, 0x00]"

section \<open>Piggybacks in front of a call\<close>

definition piggyback :: "u8 \<times> u8 \<times> bytes \<Rightarrow> bytes" where
  "piggyback p = (case p of (f, s, args) \<Rightarrow> 0x11 # f # s # args)"

definition plain_args :: "u8 \<times> u8 \<times> bytes \<Rightarrow> bool" where
  "plain_args p \<longleftrightarrow> 0x11 \<notin> set (snd (snd p)) \<and> 0x03 \<notin> set (snd (snd p))"

lemma piggyback_simps [simp]: "piggyback (f, s, args) = 0x11 # f # s # args"
  by (simp add: piggyback_def)

lemma skip_plain:
  "0x11 \<notin> set args \<Longrightarrow> 0x03 \<notin> set args \<Longrightarrow> r = 0x11 # b # t \<or> call_here r \<Longrightarrow>
     skip_arguments (args @ r) = r"
proof (induction args)
  case Nil
  then show ?case by (cases r rule: call_here.cases) auto
next
  case (Cons a args)
  obtain c u where "args @ r = c # u" using Cons.prems(3) by (cases args; cases r) auto
  with Cons show ?case by auto
qed

lemma find_piggybacks:
  "list_all plain_args ps \<Longrightarrow> call_here call \<Longrightarrow> find_call (concat (map piggyback ps) @ call) = Some call"
proof (induction ps)
  case Nil
  then show ?case
    by (cases call rule: call_here.cases) (auto simp: find_call.simps)
next
  case (Cons p ps)
  obtain f s args where p: "p = (f, s, args)" by (cases p)
  let ?r = "concat (map piggyback ps) @ call"
  have "(\<exists>b t. ?r = 0x11 # b # t) \<or> call_here ?r"
    using Cons.prems(2) by (cases ps) auto
  then have "skip_arguments (args @ ?r) = ?r"
    using Cons.prems(1) p by (auto simp: plain_args_def intro: skip_plain)
  with Cons p show ?case
    by (subst find_call.simps) simp
qed

text \<open>Whatever comes in, what comes out is the end of the payload and starts a call.\<close>

lemma skip_arguments_suffix: "\<exists>q. r = q @ skip_arguments r"
proof (induction r rule: skip_arguments.induct)
  case (1 a b r)
  show ?case
  proof (cases "a = 0x11 \<or> call_here (a # b # r)")
    case False
    with 1 obtain q where "b # r = q @ skip_arguments (b # r)" by blast
    with False show ?thesis by (intro exI [of _ "a # q"]) auto
  qed (auto intro: exI [of _ "[]"])
qed auto

lemma find_call_suffix: "find_call p = Some c \<Longrightarrow> call_here c \<and> (\<exists>q. p = q @ c)"
proof (induction p rule: find_call.induct)
  case (1 p)
  show ?case
  proof (cases p rule: call_here.cases)
    case (1 a b r)
    consider "a = 0x11" | "a \<noteq> 0x11" "call_here p" | "a \<noteq> 0x11" "\<not> call_here p" by blast
    then show ?thesis
    proof cases
      assume a: "a = 0x11"
      then have "find_call (skip_arguments (drop 3 p)) = Some c"
        using "1.prems" 1 by (subst (asm) find_call.simps) simp
      then obtain u where u: "call_here c" "skip_arguments (drop 3 p) = u @ c"
        using "1.IH"(1) [OF 1] a by auto
      obtain q where "drop 3 p = q @ u @ c"
        using skip_arguments_suffix [of "drop 3 p"] u by auto
      then have "p = (take 3 p @ q @ u) @ c" by (metis append_assoc append_take_drop_id)
      with u show ?thesis by blast
    next
      assume "a \<noteq> 0x11" "call_here p"
      with "1.prems" 1 show ?thesis by (subst (asm) find_call.simps) auto
    next
      assume a: "a \<noteq> 0x11" "\<not> call_here p"
      then have "find_call (b # r) = Some c"
        using "1.prems" 1 by (subst (asm) find_call.simps) (auto split: if_splits)
      then obtain u where "call_here c" "b # r = u @ c"
        using "1.IH"(2) [OF 1] a by auto
      with 1 show ?thesis by (metis append_Cons)
    qed
  qed (use "1.prems" in \<open>auto simp: find_call.simps\<close>)
qed

section \<open>The type list\<close>

definition quad_bytes :: "u16 \<times> u16 \<times> u16 \<times> u16 \<Rightarrow> bytes" where
  "quad_bytes q = (case q of (a, b, c, d) \<Rightarrow> be16 a @ be16 b @ be16 c @ be16 d)"

lemma quad_simps [simp]: "quad_bytes (a, b, c, d) = be16 a @ be16 b @ be16 c @ be16 d"
  by (simp add: quad_bytes_def)

lemma read_quads:
  "\<forall>q \<in> set qs. fst q \<noteq> 0 \<Longrightarrow>
     read_triples acc (buf_at pre (concat (map quad_bytes qs) @ be16 0 @ rest))
       = (Inr (acc @ concat (map quad_bytes qs)), buf_at (pre @ concat (map quad_bytes qs) @ be16 0) rest)"
proof (induction qs arbitrary: acc pre)
  case Nil
  then show ?case by (subst read_triples.simps) (simp add: read_simps)
next
  case (Cons q qs)
  obtain a b c d where q: "q = (a, b, c, d)" by (cases q)
  with Cons show ?case
    by (subst read_triples.simps) (simp add: read_entry_rest_def read_simps)
qed

definition data_types_request ::
    "bytes \<Rightarrow> u16 \<Rightarrow> u16 \<Rightarrow> u8 \<Rightarrow> bytes \<Rightarrow> bytes \<Rightarrow> (u16 \<times> u16 \<times> u16 \<times> u16) list \<Rightarrow> bytes \<Rightarrow> bytes" where
  "data_types_request flags cs ncs enc ccaps rcaps qs rest =
     flags @ [0x02] @ le16 cs @ le16 ncs @ [enc] @ write_bytes_with_length (Some ccaps) []
       @ write_bytes_with_length (Some rcaps) [] @ concat (map quad_bytes qs) @ be16 0 @ rest"

lemma read_preamble:
  "length flags = 2 \<Longrightarrow>
   data_types_preamble (buf_at [] (flags @ [0x02] @ le16 cs @ le16 ncs @ [enc]
       @ write_bytes_with_length (Some ccaps) [] @ write_bytes_with_length (Some rcaps) [] @ rest))
     = (Inr (Some (ccaps, rcaps)), buf_at (flags @ [0x02] @ le16 cs @ le16 ncs @ [enc]
       @ write_bytes_with_length (Some ccaps) [] @ write_bytes_with_length (Some rcaps) []) rest)"
  by (simp add: data_types_preamble_def read_simps skip_buf_at clr.get_put)

lemma data_types_caps_read:
  assumes "length flags = 2"
  shows "parse_data_types_caps (data_types_request flags cs ncs enc ccaps rcaps qs rest) = Inr (ccaps, rcaps)"
  by (simp only: parse_data_types_caps_def data_types_request_def run_reader_def from_slice_buf_at
      read_preamble [OF assms] let_ok_apply prod.case on_ok_simps option.case ok_apply fst_conv)

lemma data_types_echoed:
  assumes "length flags = 2" "\<forall>q \<in> set qs. fst q \<noteq> 0"
  shows "build_data_types_response (data_types_request flags cs ncs enc ccaps rcaps qs rest)
      = [0x00, 0x00, 0x02] @ concat (map quad_bytes qs) @ [0x00, 0x00]"
proof -
  have "data_type_triples (data_types_request flags cs ncs enc ccaps rcaps qs rest)
      = Some (concat (map quad_bytes qs))"
    by (simp only: data_type_triples_def data_types_request_def run_reader_def from_slice_buf_at
        read_preamble [OF assms(1)] let_ok_apply prod.case on_ok_simps option.case ok_apply fst_conv
        read_quads [OF assms(2)] sum.case append_Nil)
  then show ?thesis by (simp add: build_data_types_response_def write_prims be16_def)
qed

section \<open>Properties\<close>

text \<open>
  Whatever chain of piggybacked calls precedes it, as long as their arguments hold
  neither the piggyback nor the function marker, the function message of a payload is found
  and handed on whole.
\<close>

theorem strip_piggyback_finds_call:
  assumes "length flags = 2" and "list_all plain_args ps" and "fn \<in> KNOWN_FUNCS"
  shows "strip_piggyback (flags @ concat (map piggyback ps) @ 0x03 # fn # rest) = Some (0x03 # fn # rest)"
  using find_piggybacks [OF assms(2), of "0x03 # fn # rest"] assms by (simp add: strip_piggyback_def)

theorem strip_piggyback_finds_call_witness:
  "strip_piggyback ([0, 0] @ concat (map piggyback [(0x69, 1, [1, 1, 2]), (0x69, 2, [])]) @ 0x03 # 0x5e # [3, 1])
     = Some (0x03 # 0x5e # [3, 1])"
  by (rule strip_piggyback_finds_call) (simp_all add: plain_args_def KNOWN_FUNCS_def)

text \<open>
  From a DataTypes request the server takes exactly the two capability vectors the
  client sent, and answers with exactly the type entries the client offered.
\<close>

theorem data_types_answered:
  assumes "length flags = 2" and "\<forall>q \<in> set qs. fst q \<noteq> 0"
  shows "parse_data_types_caps (data_types_request flags cs ncs enc ccaps rcaps qs rest)
      = Inr (ccaps, rcaps) \<and>
    build_data_types_response (data_types_request flags cs ncs enc ccaps rcaps qs rest)
      = [0x00, 0x00, 0x02] @ concat (map quad_bytes qs) @ [0x00, 0x00]"
  using data_types_caps_read [OF assms(1)] data_types_echoed [OF assms] by simp

theorem data_types_answered_witness:
  "parse_data_types_caps (data_types_request [0, 0] 873 873 1 [6, 1] [2] [(1, 1, 1, 0), (2, 2, 10, 0)] []) = Inr ([6, 1], [2]) \<and>
   build_data_types_response (data_types_request [0, 0] 873 873 1 [6, 1] [2] [(1, 1, 1, 0), (2, 2, 10, 0)] [])
     = [0x00, 0x00, 0x02] @ concat (map quad_bytes [(1, 1, 1, 0), (2, 2, 10, 0)]) @ [0x00, 0x00]"
  by (rule data_types_answered) simp_all

end
