(* ===== verification/Error_Map.thy ===== *)
theory Error_Map
  imports Errors
begin

text \<open>
  How \<^verbatim>\<open>src/src/server.rs\<close> reads what the backend says: the Oracle code and text of a backend
  error, and the kind of a translated statement.  The match of the source is the list of its
  arms in order, an arm being the SQLSTATEs it names (none for a wildcard), its guard on the
  lower-cased message, and its code.
\<close>

section \<open>Error codes\<close>

type_synonym arm = "string list \<times> (string \<Rightarrow> bool) \<times> u32"

definition says :: "string list \<Rightarrow> string \<Rightarrow> bool" where
  "says texts m \<longleftrightarrow> list_ex (contains m) texts"

definition always :: "string \<Rightarrow> bool" where
  "always m \<longleftrightarrow> True"

definition state_arms :: "arm list" where
  "state_arms = [
     ([''42P01'', ''42704''], always, 942),
     ([''42703'', ''42883''], always, 904),
     ([''42P07'', ''42710''], always, 955),
     ([''42P06'', ''3F000''], always, 1918),
     ([''42702''], always, 918),
     ([''42803''], always, 979),
     ([''42P18'', ''42809''], always, 902),
     ([''0A000''], always, 3001),
     ([''2201B''], always, 12726),
     ([''23505''], always, 1),
     ([''23503''], always, 2291),
     ([''23502''], always, 1400),
     ([''23514''], always, 2290),
     ([''23000''], says [''duplicate''], 1),
     ([''23000''], says [''foreign key''], 2291),
     ([''23000''], says [''cannot be null''], 1400),
     ([''23000''], says [''check constraint'', ''constraint `ck''], 2290),
     ([''22000''], says [''out of range'', ''data too long''], 12899),
     ([''22000''], says [''incorrect datetime''], 1858),
     ([''42S02''], always, 942),
     ([''42S22''], always, 904),
     ([''42S01''], always, 955),
     ([''21S01''], always, 947),
     ([''22007''], says [''incorrect''], 1858),
     ([''01000''], says [''truncated''], 1438),
     ([''HY000''], says [''out of range''], 1438),
     ([''HY000''], says [''data too long''], 12899),
     ([''HY000''], says [''division by 0'', ''divide by zero''], 1476),
     ([''HY000''], says [''incorrect datetime'', ''incorrect date''], 1858)]"

definition message_arms :: "arm list" where
  "message_arms = [
     ([], says [''doesn't exist'', ''unknown table''], 942),
     ([], says [''unknown column''], 904),
     ([], (\<lambda>m. ends_with m ''already exists'' \<and> contains m ''table''), 955),
     ([], says [''doesn't have a default value''], 1400),
     ([], says [''column count doesn't match''], 947),
     ([], says [''in select is ambiguous'', ''ambiguous''], 918),
     ([], says [''regex error'', ''regular expression''], 12726),
     ([], says [''truncated incorrect'', ''incorrect decimal value'', ''incorrect double value'',
            ''incorrect integer value'', ''invalid number''], 1722),
     ([], says [''divisor is equal to zero'', ''division by zero''], 1476),
     ([], says [''max_statement_time'', ''query execution was interrupted'', ''statement timeout''], 1013),
     ([], says [''out of range value''], 1438),
     ([], says [''data too long''], 12899),
     ([], says [''isn't in group by'', ''not in group by'', ''only_full_group_by''], 979)]"

definition syntax_arms :: "arm list" where
  "syntax_arms = [
     ([''42000''], says [''doesn't exist'', ''unknown table''], 942),
     ([''42000''], says [''unknown column''], 904),
     ([''42000''], says [''already exists''], 955),
     ([''42000''], says [''column count doesn't match''], 947),
     ([''42000''], says [''ambiguous''], 918),
     ([''42000''], says [''regex error''], 12726)]"

definition late_arms :: "arm list" where
  "late_arms = [
     ([''22001''], always, 12899),
     ([''22003''], always, 1438),
     ([''22012''], always, 1476),
     ([''22P02'', ''22018''], always, 1722),
     ([''22007'', ''22008'', ''22P03''], always, 1858),
     ([''21000''], always, 1427),
     ([''40001''], always, 8177),
     ([''40P01''], always, 60),
     ([''55P03''], always, 54),
     ([''57014'', ''70100''], always, 1013),
     ([''53300'', ''53400'', ''08004'', ''08001''], always, 18),
     ([''57P01'', ''57P02'', ''57P03''], always, 3113),
     ([''08006''], always, 3135),
     ([''55000''], always, 8002),
     ([''42601''], says [''target columns''], 947),
     ([''42601''], always, 900),
     ([], says [''currval of sequence''], 8002),
     ([], says [''connection closed'', ''broken pipe'', ''connection reset''], 3113)]"

definition arm_matches :: "string \<Rightarrow> string \<Rightarrow> arm \<Rightarrow> bool" where
  "arm_matches sqlstate m a \<longleftrightarrow>
     (case a of (states, guard, _) \<Rightarrow> (states = [] \<or> sqlstate \<in> set states) \<and> guard m)"

definition first_code :: "arm list \<Rightarrow> string \<Rightarrow> string \<Rightarrow> u32" where
  "first_code arms sqlstate m =
     (case find (arm_matches sqlstate m) arms of Some (_, _, c) \<Rightarrow> c | None \<Rightarrow> 900)"

definition error_code :: "string \<Rightarrow> string \<Rightarrow> u32" where
  "error_code = first_code (state_arms @ message_arms @ syntax_arms @ late_arms)"

fun backend_detail :: "error \<Rightarrow> (string \<times> u16) option" where
  "backend_detail (Postgres d) = Some (d, 0)"
| "backend_detail (PgStatement d p) = Some (d, ucast (min (unwrap_or 0 p) 65535))"
| "backend_detail _ = None"

definition oracle_error_for_pos :: "error \<Rightarrow> u32 \<times> string \<times> u16" where
  "oracle_error_for_pos e = (case backend_detail e of
       None \<Rightarrow> (900, error_text e, 0)
     | Some (detail, pos) \<Rightarrow>
         let (sqlstate, message) = (case split_once detail '': '' of
                Some (s, m) \<Rightarrow> (trim s, m) | None \<Rightarrow> ([], detail))
         in (error_code sqlstate (to_ascii_lowercase message), message, pos))"

section \<open>Kinds of statement\<close>

definition first_word :: "string list \<Rightarrow> string" where
  "first_word ws = (case ws of [] \<Rightarrow> [] | w # _ \<Rightarrow> w)"

function trim_open :: "string \<Rightarrow> string" where
  "trim_open s =
     (if s \<noteq> [] \<and> hd s = CHR ''('' then trim_open (tl s)
      else if 0 < ws_len s then trim_open (drop (ws_len s) s)
      else s)"
  by pat_completeness auto
termination
  by (relation "measure length") (simp_all add: ws_len_shrinks)

declare trim_open.simps [simp del]

definition is_query_statement :: "string \<Rightarrow> bool" where
  "is_query_statement sql =
     (let keyword = first_word (split_ascii_whitespace (trim_open (trim_start sql))) in
      if eq_ignore_ascii_case keyword ''select'' \<or> eq_ignore_ascii_case keyword ''show''
        \<or> eq_ignore_ascii_case keyword ''explain'' \<or> eq_ignore_ascii_case keyword ''values''
      then True
      else if eq_ignore_ascii_case keyword ''with''
      then (let upper = to_ascii_uppercase sql in
        \<not> (contains upper ''INSERT '' \<or> contains upper ''UPDATE ''
          \<or> contains upper ''DELETE '' \<or> contains upper ''MERGE ''))
      else False)"

definition ddl_words :: "string list" where
  "ddl_words = [''CREATE'', ''ALTER'', ''DROP'', ''TRUNCATE'', ''RENAME'', ''COMMENT'', ''REFRESH'']"

definition is_ddl_statement :: "string \<Rightarrow> bool" where
  "is_ddl_statement sql \<longleftrightarrow> to_ascii_uppercase (first_word (split_whitespace sql)) \<in> set ddl_words"

section \<open>Arms\<close>

lemma arm_matches_simps [simp]:
  "arm_matches st m (states, guard, c) \<longleftrightarrow> (states = [] \<or> st \<in> set states) \<and> guard m"
  by (simp add: arm_matches_def)

lemma always_True [simp]: "always m"
  by (simp add: always_def)

lemma find_append: "find P (xs @ ys) = or_opt (find P xs) (find P ys)"
  by (induction xs) (simp_all add: or_opt_def)

text \<open>Arms that only match where an earlier one does are dead.\<close>

lemma find_drop_dead:
  assumes "\<And>y. y \<in> set ys \<Longrightarrow> \<not> keep y \<Longrightarrow> P y \<Longrightarrow> \<exists>x \<in> set xs. P x"
  shows "find P (xs @ ys @ zs) = find P (xs @ filter keep ys @ zs)"
proof (cases "find P xs")
  case None
  then have "\<forall>y \<in> set ys. P y \<longrightarrow> keep y" using assms by (auto simp: find_None_iff)
  then have "find P ys = find P (filter keep ys)" by (induction ys) auto
  then show ?thesis by (simp add: find_append)
qed (simp add: find_append or_opt_def)

lemma says_mono: "says ts m \<Longrightarrow> set ts \<subseteq> set us \<Longrightarrow> says us m"
  by (auto simp: says_def list_ex_iff)

lemma says_Cons [simp]: "says (t # ts) m \<longleftrightarrow> contains m t \<or> says ts m" "\<not> says [] m"
  by (simp_all add: says_def)

lemma message_arm_hit:
  "([], g, c) \<in> set message_arms \<Longrightarrow> g m \<Longrightarrow>
     \<exists>x \<in> set (state_arms @ message_arms @ zs). arm_matches st m x"
  by (auto intro!: bexI [of _ "([], g, c)"])

text \<open>The arms on \<^verbatim>\<open>42000\<close> that an earlier wildcard arm does not already cover.\<close>

definition live_syntax_arms :: "arm list" where
  "live_syntax_arms = [([''42000''], says [''already exists''], 955)]"

lemma syntax_arms_live:
  "find (arm_matches st m) ((state_arms @ message_arms) @ syntax_arms @ late_arms)
     = find (arm_matches st m) ((state_arms @ message_arms) @ live_syntax_arms @ late_arms)"
proof -
  have "find (arm_matches st m) ((state_arms @ message_arms) @ syntax_arms @ late_arms)
      = find (arm_matches st m)
          ((state_arms @ message_arms) @ filter (\<lambda>a. snd (snd a) = 955) syntax_arms @ late_arms)"
    by (rule find_drop_dead) (auto simp: syntax_arms_def message_arms_def)
  then show ?thesis by (simp add: syntax_arms_def live_syntax_arms_def)
qed

text \<open>The SQLSTATEs whose code does not depend on the message.\<close>

definition stable_codes :: "(string \<times> u32) list" where
  "stable_codes = [(''42P01'', 942), (''42704'', 942), (''42703'', 904), (''42883'', 904),
     (''42P07'', 955), (''42710'', 955), (''42P06'', 1918), (''3F000'', 1918), (''42702'', 918),
     (''42803'', 979), (''42P18'', 902), (''42809'', 902), (''0A000'', 3001), (''2201B'', 12726),
     (''23505'', 1), (''23503'', 2291), (''23502'', 1400), (''23514'', 2290),
     (''42S02'', 942), (''42S22'', 904), (''42S01'', 955), (''21S01'', 947)]"

lemma stable_code: "(st, c) \<in> set stable_codes \<Longrightarrow> error_code st m = c"
  unfolding stable_codes_def error_code_def first_code_def state_arms_def
  by (auto split del: if_split)

lemma stable_state_plain:
  assumes "(st, c) \<in> set stable_codes"
  shows "list_all is_ascii_graphic st" "CHR '':'' \<notin> set st"
  using assms by (auto simp: stable_codes_def is_ascii_graphic_def code_def)

lemma split_once_colon: "CHR '':'' \<notin> set s \<Longrightarrow> split_once (s @ '': '' @ m) '': '' = Some (s, m)"
  by (induction s) auto

section \<open>First words\<close>

lemma words_acc_hd: "acc \<noteq> [] \<Longrightarrow> \<exists>p r. s = p @ r \<and> (\<exists>ws. words_acc acc s = (rev acc @ p) # ws)"
proof (induction acc s rule: words_acc.induct)
  case (1 acc s)
  show ?case
  proof (cases "s = [] \<or> 0 < ws_len s")
    case True
    with 1 show ?thesis by (subst words_acc.simps) auto
  next
    case False
    with 1 obtain p r ws where "tl s = p @ r" "words_acc (hd s # acc) (tl s) = (rev (hd s # acc) @ p) # ws"
      by auto
    moreover from False have "s = hd s # tl s" by simp
    ultimately have "s = (hd s # p) @ r" by simp
    moreover have "words_acc acc s = (rev acc @ hd s # p) # ws"
      using False \<open>words_acc (hd s # acc) (tl s) = _\<close> by (subst words_acc.simps) simp
    ultimately show ?thesis by blast
  qed
qed

text \<open>Leading white space aside, a text starts with its first word.\<close>

lemma split_whitespace_hd: "words_acc [] s = w # ws \<Longrightarrow> w \<noteq> [] \<and> (\<exists>r. trim_start s = w @ r)"
proof (induction s rule: trim_start.induct)
  case (1 s)
  show ?case
  proof (cases "0 < ws_len s")
    case True
    then have "s \<noteq> []" by (rule ws_len_pos_nonempty)
    with True 1 show ?thesis by (subst trim_start.simps) (auto simp: words_acc.simps [of "[]" s])
  next
    case False
    from 1(2) have ne: "s \<noteq> []" by (auto simp: words_acc.simps [of "[]"])
    obtain p r ws' where "tl s = p @ r" "words_acc [hd s] (tl s) = (rev [hd s] @ p) # ws'"
      using words_acc_hd [of "[hd s]" "tl s"] by auto
    moreover from ne have "s = hd s # tl s" by simp
    ultimately have "s = (hd s # p) @ r" by simp
    moreover have "w = hd s # p"
      using 1(2) False ne \<open>words_acc [hd s] (tl s) = _\<close> by (simp add: words_acc.simps [of "[]" s])
    ultimately show ?thesis using False by (subst trim_start.simps) auto
  qed
qed

lemma ascii_words_hd: "acc \<noteq> [] \<Longrightarrow> \<exists>p ws. ascii_words_acc acc s = (rev acc @ p) # ws"
  by (induction s arbitrary: acc) (auto, metis append_assoc append_Cons append_Nil rev.simps(2) list.distinct(1))

lemma ascii_word_prefix:
  "list_all (\<lambda>c. \<not> is_ascii_whitespace c) w \<Longrightarrow> rev acc @ w \<noteq> [] \<Longrightarrow>
     \<exists>p ws. ascii_words_acc acc (w @ r) = (rev acc @ w @ p) # ws"
proof (induction w arbitrary: acc)
  case Nil
  then show ?case using ascii_words_hd [of acc r] by auto
next
  case (Cons c w)
  from Cons.IH [of "c # acc"] Cons.prems show ?case by auto
qed

lemma upper_letters:
  "list_all is_ascii_uppercase (to_ascii_uppercase w) \<Longrightarrow> list_all is_ascii_alphabetic w"
  by (auto simp: list_all_iff to_ascii_uppercase_def to_ascii_upper_def is_ascii_alphabetic_def)

lemma letter_facts:
  "is_ascii_alphabetic c \<Longrightarrow> \<not> is_ascii_whitespace c \<and> is_ascii_graphic c \<and> c \<noteq> CHR ''(''"
  by (auto simp: is_ascii_alphabetic_def is_ascii_uppercase_def is_ascii_lowercase_def
      is_ascii_whitespace_def is_ascii_graphic_def code_def)

lemma ws_len_graphic: "is_ascii_graphic c \<Longrightarrow> ws_len (c # s) = 0"
  by (auto simp: ws_len_def ws_codes_def is_ascii_graphic_def numeral_eq_Suc split: list.splits)

lemma ddl_word_letters:
  assumes "to_ascii_uppercase w \<in> set ddl_words"
  shows "list_all is_ascii_alphabetic w" "w \<noteq> []"
proof -
  have "list_all (\<lambda>w. list_all is_ascii_uppercase w \<and> w \<noteq> []) ddl_words" by code_simp
  with assms show "list_all is_ascii_alphabetic w" by (auto simp: list_all_iff intro: upper_letters [unfolded list_all_iff, rule_format])
  show "w \<noteq> []" using assms by (auto simp: ddl_words_def to_ascii_uppercase_def)
qed

text \<open>The two first words of a statement that starts with a DDL word.\<close>

lemma ddl_keyword:
  assumes "is_ddl_statement sql"
  shows "\<exists>w p. to_ascii_uppercase w \<in> set ddl_words \<and>
    first_word (split_ascii_whitespace (trim_open (trim_start sql))) = w @ p"
proof -
  from assms have "first_word (split_whitespace sql) \<noteq> []"
    by (auto simp: is_ddl_statement_def ddl_words_def to_ascii_uppercase_def)
  then obtain w ws where "words_acc [] sql = w # ws"
    by (auto simp: first_word_def split_whitespace_def split: list.splits)
  moreover with assms have d: "to_ascii_uppercase w \<in> set ddl_words"
    by (simp add: is_ddl_statement_def split_whitespace_def first_word_def)
  ultimately obtain r where r: "trim_start sql = w @ r" using split_whitespace_hd by blast
  note l = ddl_word_letters [OF d]
  then obtain c v where w: "w = c # v" "is_ascii_alphabetic c" by (cases w) auto
  then have "trim_open (w @ r) = w @ r"
    using letter_facts [of c] ws_len_graphic [of c "v @ r"] by (subst trim_open.simps) simp
  moreover obtain p xs where "ascii_words_acc [] (w @ r) = (w @ p) # xs"
    using ascii_word_prefix [of w "[]" r] l letter_facts by (auto simp: list_all_iff)
  ultimately show ?thesis
    using d r by (auto simp: split_ascii_whitespace_def first_word_def)
qed

section \<open>Properties\<close>

text \<open>
  C25.  Five of the six arms on SQLSTATE 42000 never decide a reply: without them every
  backend error is mapped to the same Oracle code.
\<close>

theorem error_code_live_arms:
  "error_code st m = first_code (state_arms @ message_arms @ live_syntax_arms @ late_arms) st m"
  using syntax_arms_live [of st m] by (simp add: error_code_def first_code_def)

text \<open>
  C26.  A statement error that the backend reports as \<open>SQLSTATE: message\<close> with one of the
  twenty-two SQLSTATEs of the table reaches the client with the code of the table, whatever
  the message says, with the message after the first colon as its text, and with the
  position cut to sixteen bits.
\<close>

theorem stable_codes_reported:
  assumes "(st, c) \<in> set stable_codes"
  shows "oracle_error_for_pos (PgStatement (st @ '': '' @ m) p)
      = (c, m, ucast (min (unwrap_or 0 p) 65535))
    \<and> oracle_error_for_pos (Postgres (st @ '': '' @ m)) = (c, m, 0)"
  using stable_state_plain [OF assms] stable_code [OF assms]
  by (simp_all add: oracle_error_for_pos_def split_once_colon trim_graphic del: append_Cons)

theorem stable_codes_reported_witness:
  "oracle_error_for_pos (PgStatement (''23505'' @ '': '' @ ''duplicate key: unknown table'') (Some 70000))
     = (1, ''duplicate key: unknown table'', 65535)"
  using stable_codes_reported [of "''23505''" 1 "''duplicate key: unknown table''" "Some 70000"]
  by (simp add: stable_codes_def unwrap_or_def min_def)

text \<open>
  No statement is taken for a query and for DDL: what commits implicitly is never
  answered with rows.
\<close>

theorem query_not_ddl: "\<not> (is_query_statement sql \<and> is_ddl_statement sql)"
proof
  assume a: "is_query_statement sql \<and> is_ddl_statement sql"
  let ?kw = "first_word (split_ascii_whitespace (trim_open (trim_start sql)))"
  let ?ks = "[''select'', ''show'', ''explain'', ''values'', ''with'']"
  have k: "to_ascii_lowercase ?kw \<in> set ?ks"
    using a unfolding is_query_statement_def eq_ignore_ascii_case_def
    by (auto simp: Let_def to_ascii_lowercase_def to_ascii_lower_def is_ascii_uppercase_def code_def
        split: if_splits)
  obtain w p where d: "to_ascii_uppercase w \<in> set ddl_words" and w: "?kw = w @ p"
    using ddl_keyword a by blast
  have "to_ascii_lowercase ?kw = to_ascii_lowercase (to_ascii_uppercase w) @ to_ascii_lowercase p"
    unfolding w to_ascii_lowercase_upper by (simp add: to_ascii_lowercase_def)
  with k have "\<exists>u \<in> set ?ks. starts_with u (to_ascii_lowercase (to_ascii_uppercase w))"
    by (auto simp only: starts_with_iff)
  moreover have "list_all (\<lambda>d. \<not> list_ex (\<lambda>u. starts_with u (to_ascii_lowercase d)) ?ks) ddl_words"
    by code_simp
  ultimately show False using d unfolding list_all_iff list_ex_iff by blast
qed

end
