(* ===== verification/Session.thy ===== *)
theory Session
  imports "HOL-Library.AList" Interfaces Backend_Api Tns Execute_Request Handshake_Wire Response_Oci Error_Map
begin

text \<open>
  One authenticated session of \<^verbatim>\<open>src/src/server.rs\<close>: the variables of the command loop of
  \<open>handle_connection\<close>, the handler of every kind of request, and the replies each writes.  A
  session reads and writes real packets through the state of \<open>Tns\<close> and calls the database
  through the record of \<open>Backend_Api\<close>; the SQL translator is the argument \<open>translate\<close>.

  What the environment decides is listed in the state: \<open>arrivals\<close> holds, for every statement
  raced against the client, how many packets come in before the statement ends, and \<open>clock\<close>
  the times the row identifiers of OCI replies are made of.  The cursors of the hash map are an
  association list; its order is the order in which they are finished.
\<close>

section \<open>State\<close>

datatype oracle_version = V11g | V19c

definition version_banner :: "oracle_version \<Rightarrow> string" where
  "version_banner v = (case v of
       V11g \<Rightarrow> ''Oracle Database 11g Enterprise Edition Release 11.2.0.4.0 - 64bit Production''
     | V19c \<Rightarrow> ''Oracle Database 19c Enterprise Edition Release 19.0.0.0.0 - Production'')"

definition release :: "oracle_version \<Rightarrow> string" where
  "release v = (case v of V11g \<Rightarrow> ''11.2.0.4.0'' | V19c \<Rightarrow> ''19.0.0.0.0'')"

definition version_no :: "oracle_version \<Rightarrow> u32" where
  "version_no v = (case v of
       V11g \<Rightarrow> (push_bit 24 11 OR push_bit 16 2) OR push_bit 4 4
     | V19c \<Rightarrow> push_bit 24 19)"

text \<open>What the handshake settled; fixed for the session.\<close>

record ('b, 'c) env =
  oci :: bool
  newer :: bool
  completion :: bool
  no_list :: bool
  kind :: backend_kind
  oracle_version :: oracle_version
  translate :: "string \<Rightarrow> error + string"
  ops :: "('b, 'c) backend"

definition bind_style_of :: "backend_kind \<Rightarrow> bind_style" where
  "bind_style_of k = (case k of PostgresBackend \<Rightarrow> PostgresStyle | MariaDbBackend \<Rightarrow> MariaDbStyle)"

type_synonym prepared = "string \<times> u8 list"

record ('b, 'c) session =
  net :: tns
  backend_state :: 'b
  cursors :: "(u16 \<times> 'c) list"
  last_execute :: "prepared option"
  cursor_id :: u16
  oci_cursor_ids :: "string \<rightharpoonup> u16"
  oci_next_cursor_id :: u16
  oci_seq_to_sql :: "u8 \<rightharpoonup> prepared"
  oci_id_to_sql :: "u16 \<rightharpoonup> prepared"
  oci_rows_sent :: u64
  last_req_seq :: u8
  statements_total :: u64
  backend_errors_total :: u64
  arrivals :: "nat list"
  clock :: "u64 list"

definition new_session :: "bool \<Rightarrow> tns \<Rightarrow> 'b \<Rightarrow> nat list \<Rightarrow> u64 list \<Rightarrow> ('b, 'c) session" where
  "new_session thick n b ar cl = \<lparr>net = n, backend_state = b, cursors = [],
     last_execute = None, cursor_id = (if thick then 2 else 1), oci_cursor_ids = Map.empty,
     oci_next_cursor_id = (if thick then 3 else 1), oci_seq_to_sql = Map.empty,
     oci_id_to_sql = Map.empty, oci_rows_sent = 0, last_req_seq = 0,
     statements_total = 0, backend_errors_total = 0, arrivals = ar, clock = cl\<rparr>"

type_synonym ('b, 'c, 'a) call = "(('b, 'c) session, stop, 'a) step"

definition on_net :: "'a net \<Rightarrow> ('b, 'c, 'a) call" where
  "on_net f s = (case f (net s) of (r, n) \<Rightarrow> (r, s\<lparr>net := n\<rparr>))"

text \<open>The result of a backend operation is a value: its failure does not end the session.\<close>

definition on_backend :: "('b, error, 'a) step \<Rightarrow> ('b, 'c, error + 'a) call" where
  "on_backend f s = (case f (backend_state s) of (r, b) \<Rightarrow> (Inr r, s\<lparr>backend_state := b\<rparr>))"

definition modify :: "(('b, 'c) session \<Rightarrow> ('b, 'c) session) \<Rightarrow> ('b, 'c, unit) call" where
  "modify f s = (Inr (), f s)"

definition reading :: "(('b, 'c) session \<Rightarrow> ('b, 'c, 'a) call) \<Rightarrow> ('b, 'c, 'a) call" where
  "reading f s = f s s"

definition tick :: "('b, 'c, u64) call" where
  "tick s = (Inr (case clock s of [] \<Rightarrow> 0 | t # _ \<Rightarrow> t), s\<lparr>clock := tl (clock s)\<rparr>)"

definition send :: "bytes \<Rightarrow> ('b, 'c, unit) call" where
  "send p = on_net (write_packet Data p)"

definition ack_marker :: "('b, 'c, unit) call" where
  "ack_marker = on_net (write_packet Marker [0x02, 0x00, 0x02])"

section \<open>Racing a statement against the client\<close>

text \<open>
  The packets that come in while a statement runs: a marker cancels it, anything else is
  dropped.  A packet of which only a part arrives in time is lost with its bytes.
\<close>

fun mid_statement :: "('b, 'c) env \<Rightarrow> nat \<Rightarrow> ('b, 'c, unit) call" where
  "mid_statement E 0 s = ok () s"
| "mid_statement E (Suc n) s = (case on_net read_packet s of
       (Inl Blocked, s') \<Rightarrow> ok () s'
     | (Inl (Failed e), s') \<Rightarrow> fail (Failed e) s'
     | (Inr p, s') \<Rightarrow>
         if packet_type p = Marker
         then (let_ok (modify (\<lambda>s. s\<lparr>backend_state := cancel_statement (ops E) (backend_state s)\<rparr>)) (\<lambda>_.
               let_ok ack_marker (\<lambda>_. mid_statement E n))) s'
         else mid_statement E n s')"

definition race_break :: "('b, 'c) env \<Rightarrow> ('b, 'c, 'a) call \<Rightarrow> ('b, 'c, 'a) call" where
  "race_break E f = reading (\<lambda>s.
     let_ok (modify (\<lambda>s. s\<lparr>arrivals := tl (arrivals s)\<rparr>)) (\<lambda>_.
     let_ok (mid_statement E (case arrivals s of [] \<Rightarrow> 0 | n # _ \<Rightarrow> n)) (\<lambda>_. f)))"

section \<open>Error replies\<close>

definition write_error_response :: "('b, 'c) env \<Rightarrow> u32 \<Rightarrow> string \<Rightarrow> u16 \<Rightarrow> u8 \<Rightarrow> ('b, 'c, unit) call" where
  "write_error_response E ora message error_pos req_seq =
     (if oci E
      then if ora = 1013
        then let_ok (on_net (write_oci_marker 0x02)) (\<lambda>_.
             let_ok (on_net (drain_markers 1)) (\<lambda>_.
             send (build_timeout_error_response_oci req_seq)))
        else send (build_error_response_oci ora message error_pos req_seq)
      else send (build_error_response_at (completion E) (newer E) False ora message error_pos))"

text \<open>The reply to a backend error, which the process counts.\<close>

definition write_backend_error :: "('b, 'c) env \<Rightarrow> error \<Rightarrow> u8 \<Rightarrow> ('b, 'c, unit) call" where
  "write_backend_error E e req_seq =
     let_ok (modify (\<lambda>s. s\<lparr>backend_errors_total := backend_errors_total s + 1\<rparr>)) (\<lambda>_.
     case oracle_error_for_pos e of (ora, message, pos) \<Rightarrow> write_error_response E ora message pos req_seq)"

section \<open>Cursors\<close>

definition store_cursor :: "u16 \<Rightarrow> 'c \<Rightarrow> ('b, 'c) session \<Rightarrow> ('b, 'c) session" where
  "store_cursor i c s = s\<lparr>cursors := AList.update i c (cursors s)\<rparr>"

definition drop_cursor :: "u16 \<Rightarrow> ('b, 'c) session \<Rightarrow> ('b, 'c) session" where
  "drop_cursor i s = s\<lparr>cursors := AList.delete i (cursors s)\<rparr>"

definition cursor_of :: "('b, 'c) session \<Rightarrow> u16 \<Rightarrow> 'c option" where
  "cursor_of s i = map_of (cursors s) i"

interpretation open_cursors: removable_table "\<lambda>i. i" store_cursor cursor_of drop_cursor
  by unfold_locales (simp_all add: store_cursor_def drop_cursor_def cursor_of_def update_conv' delete_conv')

definition finish_one :: "('b, 'c) env \<Rightarrow> 'c \<Rightarrow> ('b, 'c) session \<Rightarrow> ('b, 'c) session" where
  "finish_one E c s = s\<lparr>backend_state := snd (finish_cursor (ops E) (c, backend_state s))\<rparr>"

text \<open>\<^verbatim>\<open>if let Some(mut done) = cursors.remove(&id) { done.finish().await }\<close>\<close>

definition close_cursor :: "('b, 'c) env \<Rightarrow> u16 \<Rightarrow> ('b, 'c) session \<Rightarrow> ('b, 'c) session" where
  "close_cursor E i s = (case cursor_of s i of
       None \<Rightarrow> s
     | Some c \<Rightarrow> finish_one E c (drop_cursor i s))"

definition drain_cursors :: "('b, 'c) env \<Rightarrow> ('b, 'c) session \<Rightarrow> ('b, 'c) session" where
  "drain_cursors E s = fold (\<lambda>(_, c). finish_one E c) (cursors s) (s\<lparr>cursors := []\<rparr>)"

definition pull_batch :: "('b, 'c) env \<Rightarrow> nat \<Rightarrow> 'c \<Rightarrow> ('b, 'c, (error + cells list) \<times> 'c) call" where
  "pull_batch E n c s = (case next_batch (ops E) n (c, backend_state s) of
       (r, c', b) \<Rightarrow> (Inr (r, c'), s\<lparr>backend_state := b\<rparr>))"

section \<open>Which statement a request runs\<close>

text \<open>A piggybacked request is reframed to the call it carries.\<close>

definition request_payload :: "bytes \<Rightarrow> bytes" where
  "request_payload p =
     (if get_at p 2 = Some 0x11
      then (case strip_piggyback p of Some inner \<Rightarrow> [0, 0] @ inner | None \<Rightarrow> p)
      else p)"

definition named_or_last :: "u16 option \<Rightarrow> ('b, 'c) session \<Rightarrow> prepared option" where
  "named_or_last named s = or_opt (Option.bind named (oci_id_to_sql s)) (last_execute s)"

definition resolve_reexecute :: "('b, 'c) env \<Rightarrow> bytes \<Rightarrow> u8 \<Rightarrow> u8 \<Rightarrow> ('b, 'c) session \<Rightarrow> prepared option" where
  "resolve_reexecute E p func_code req_seq s =
     (let named_id = parse_reexecute_cursor_id_oci p func_code in
      if oci E
      then or_opt (or_opt (Option.bind named_id (oci_id_to_sql s)) (oci_seq_to_sql s req_seq)) (last_execute s)
      else last_execute s)"

definition parse_call :: "('b, 'c) env \<Rightarrow> bytes \<Rightarrow> u8 \<Rightarrow> u8 \<Rightarrow> ('b, 'c) session \<Rightarrow> error + execute_request" where
  "parse_call E p func_code req_seq s =
     (if func_code = 0x5E \<and> oci E
      then (case parse_execute_request_oci p of
          Inr r \<Rightarrow> Inr r
        | Inl e \<Rightarrow> (case named_or_last (parse_reparse_cursor_id_oci p) s of
              Some (text, types) \<Rightarrow> parse_reexecute_request_oci_ex p text types True
            | None \<Rightarrow> Inl e))
      else if func_code = 0x5E
      then (let other = parse_execute_request p in
        if (case other of Inr r \<Rightarrow> sql r \<noteq> [] | Inl _ \<Rightarrow> False) then other
        else if execute_frame_has_no_sql p
        then (case named_or_last (parse_execute_cursor_id p) s of
            Some (text, types) \<Rightarrow> parse_reexecute_request p text types
          | None \<Rightarrow> parse_execute_request p)
        else other)
      else (case resolve_reexecute E p func_code req_seq s of
          Some (text, types) \<Rightarrow>
            if oci E then parse_reexecute_request_oci p text types
            else parse_reexecute_request p text types
        | None \<Rightarrow> Inl (Protocol ''reexecute with no prepared statement'')))"

text \<open>\<^verbatim>\<open>*oci_cursor_ids.entry(sql).or_insert_with(..)\<close>\<close>

definition assign_id :: "string \<Rightarrow> ('b, 'c) session \<Rightarrow> ('b, 'c) session" where
  "assign_id text s = (case oci_cursor_ids s text of
       Some i \<Rightarrow> s\<lparr>cursor_id := i\<rparr>
     | None \<Rightarrow> s\<lparr>cursor_id := oci_next_cursor_id s,
         oci_cursor_ids := (oci_cursor_ids s)(text \<mapsto> oci_next_cursor_id s),
         oci_next_cursor_id := max (oci_next_cursor_id s + 1) 3\<rparr>)"

definition reuse_id :: "string \<Rightarrow> ('b, 'c) session \<Rightarrow> ('b, 'c) session" where
  "reuse_id text s = (case oci_cursor_ids s text of Some i \<Rightarrow> s\<lparr>cursor_id := i\<rparr> | None \<Rightarrow> s)"

definition remember :: "('b, 'c) env \<Rightarrow> u8 \<Rightarrow> u8 \<Rightarrow> execute_request \<Rightarrow> ('b, 'c) session \<Rightarrow> ('b, 'c) session" where
  "remember E func_code req_seq r s0 =
     (let s = (if (oci E \<or> newer E) \<and> func_code \<noteq> 0x5E then reuse_id (sql r) s0 else s0);
          entry = (sql r, bind_types r) in
      if func_code = 0x5E \<and> sql r \<noteq> []
      then (let s1 = s\<lparr>last_execute := Some entry, oci_seq_to_sql := (oci_seq_to_sql s)(req_seq \<mapsto> entry)\<rparr>;
                s2 = (if oci E \<or> newer E then assign_id (sql r) s1 else s1)
            in s2\<lparr>oci_id_to_sql := (oci_id_to_sql s2)(cursor_id s2 \<mapsto> entry)\<rparr>)
      else s)"

section \<open>Execute\<close>

text \<open>The result of a backend call: go on with its value, or report its error.\<close>

definition or_report :: "('b, 'c) env \<Rightarrow> u8 \<Rightarrow> ('b, 'c, error + 'a) call \<Rightarrow> ('a \<Rightarrow> ('b, 'c, unit) call) \<Rightarrow> ('b, 'c, unit) call" where
  "or_report E req_seq r f = let_ok r (\<lambda>x. case x of
       Inl e \<Rightarrow> write_backend_error E e req_seq | Inr a \<Rightarrow> f a)"

definition run_returning :: "('b, 'c) env \<Rightarrow> u8 \<Rightarrow> execute_request \<Rightarrow> returning_into \<Rightarrow> ('b, 'c, unit) call" where
  "run_returning E req_seq r ri =
     (if \<not> (completion E \<and> \<not> newer E)
      then write_error_response E 3001 ''RETURNING ... INTO bind is not supported for this driver'' 0 req_seq
      else (case bind_parameters (sql_without_into ri) (binds r) (bind_style_of (kind E)) of
          Inl e \<Rightarrow> write_error_response E 1008 (error_text e) 0 req_seq
        | Inr bound \<Rightarrow> (case translate E (bsql bound) of
              Inl e \<Rightarrow> write_error_response E 900 (error_text e) 0 req_seq
            | Inr text \<Rightarrow>
                or_report E req_seq
                  (race_break E (on_backend (execute_returning (ops E) text (bbinds bound))))
                  (\<lambda>(rows, per_col). send (build_returning_response
                     (if out_bind_count ri \<le> length (bind_types r)
                      then length (bind_types r) - out_bind_count ri else length (bbinds bound))
                     per_col rows)))))"

text \<open>The acknowledgement of a statement that returns no rows.\<close>

definition send_ack :: "('b, 'c) env \<Rightarrow> bool \<Rightarrow> string \<Rightarrow> u64 \<Rightarrow> u8 \<Rightarrow> ('b, 'c, unit) call" where
  "send_ack E is_ddl text affected req_seq = reading (\<lambda>s.
     if oci E \<and> is_ddl then let_ok tick (\<lambda>now. send (build_ddl_response_oci now (cursor_id s) req_seq))
     else if oci E
     then let_ok tick (\<lambda>now. send (build_dml_response_oci now affected (cursor_id s) req_seq (dml_kind_of text)))
     else if newer E then send (build_dml_response_jdbc affected req_seq)
     else send (build_dml_response affected))"

definition run_one :: "('b, 'c) env \<Rightarrow> bool \<Rightarrow> string \<Rightarrow> bind_value list \<Rightarrow> ('b, 'c, error + u64) call" where
  "run_one E is_ddl text vs =
     (if is_ddl then on_backend (execute_ddl (ops E) text vs)
      else race_break E (on_backend (execute_simple (ops E) text vs)))"

text \<open>Array binds: one statement per row, stopped by the first failure.\<close>

fun batch_rows :: "('b, 'c) env \<Rightarrow> bool \<Rightarrow> string \<Rightarrow> string \<Rightarrow> bind_value list list \<Rightarrow> u64 \<Rightarrow> ('b, 'c, error + u64) call" where
  "batch_rows E is_ddl source text [] acc = ok (Inr acc)"
| "batch_rows E is_ddl source text (row # rows) acc =
     (case bind_parameters source row (bind_style_of (kind E)) of
        Inl e \<Rightarrow> ok (Inl e)
      | Inr bound \<Rightarrow> let_ok (run_one E is_ddl text (bbinds bound)) (\<lambda>res. case res of
            Inl e \<Rightarrow> ok (Inl e)
          | Inr n \<Rightarrow> batch_rows E is_ddl source text rows (acc + n)))"

definition run_batch :: "('b, 'c) env \<Rightarrow> u8 \<Rightarrow> execute_request \<Rightarrow> string \<Rightarrow> ('b, 'c, unit) call" where
  "run_batch E req_seq r text =
     or_report E req_seq (batch_rows E (is_ddl_statement text) (sql r) text (bind_rows r) 0)
       (\<lambda>acc. send_ack E (is_ddl_statement text) text acc req_seq)"

definition first_batch :: "('b, 'c) env \<Rightarrow> execute_request \<Rightarrow> nat" where
  "first_batch E r =
     (if oci E then 2 else if prefetch r = 0 then 100 else min (unat (prefetch r)) 50000)"

definition send_rows :: "('b, 'c) env \<Rightarrow> u8 \<Rightarrow> u8 \<Rightarrow> column_meta list \<Rightarrow> cells list \<Rightarrow> bool \<Rightarrow> ('b, 'c, unit) call" where
  "send_rows E func_code req_seq cols rows has_more = reading (\<lambda>s.
     if oci E
     then let_ok tick (\<lambda>now. send (build_query_response_oci_ex now cols rows (cursor_id s) has_more (func_code = 0x5E)))
     else send (build_query_response_ex cols rows (cursor_id s) has_more
       (completion E) (newer E) req_seq (no_list E)))"

text \<open>
  A query replaces the cursor of its own id; the cursor is kept while rows are left.  A cursor
  whose first batch fails is dropped.
\<close>

definition keep_or_finish :: "('b, 'c) env \<Rightarrow> u16 \<Rightarrow> 'c \<Rightarrow> ('b, 'c) session \<Rightarrow> ('b, 'c) session" where
  "keep_or_finish E i c s =
     (if is_exhausted (ops E) c then finish_one E c s else store_cursor i c s)"

definition run_query :: "('b, 'c) env \<Rightarrow> u8 \<Rightarrow> u8 \<Rightarrow> execute_request \<Rightarrow> bound_sql \<Rightarrow> string \<Rightarrow> ('b, 'c, unit) call" where
  "run_query E func_code req_seq r bound text =
     let_ok (modify (\<lambda>s. close_cursor E (cursor_id s) s)) (\<lambda>_.
     or_report E req_seq
       (race_break E (on_backend (open_cursor (ops E) text (bbinds bound)
          (for_client (completion E) (newer E) (oci E) (no_list E)))))
       (\<lambda>c0. let_ok (race_break E (pull_batch E (first_batch E r) c0)) (\<lambda>(res, c). case res of
           Inl e \<Rightarrow> write_backend_error E e req_seq
         | Inr rows \<Rightarrow>
             let_ok (modify (\<lambda>s. s\<lparr>oci_rows_sent := word_of_nat (length rows)\<rparr>)) (\<lambda>_.
             let_ok (send_rows E func_code req_seq (cursor_columns (ops E) c) rows
               (\<not> is_exhausted (ops E) c)) (\<lambda>_.
             modify (\<lambda>s. keep_or_finish E (cursor_id s) c s))))))"

definition run_statement :: "('b, 'c) env \<Rightarrow> u8 \<Rightarrow> u8 \<Rightarrow> bound_sql \<Rightarrow> string \<Rightarrow> ('b, 'c, unit) call" where
  "run_statement E func_code req_seq bound text =
     or_report E req_seq (run_one E (is_ddl_statement text) text (bbinds bound))
       (\<lambda>affected. if oci E \<and> func_code = 0x04
          then send (build_reexecute_response_oci affected req_seq)
          else send_ack E (is_ddl_statement text) text affected req_seq)"

definition run_request :: "('b, 'c) env \<Rightarrow> u8 \<Rightarrow> u8 \<Rightarrow> execute_request \<Rightarrow> ('b, 'c, unit) call" where
  "run_request E func_code req_seq r = (case split_returning_into (sql r) of
       Some ri \<Rightarrow> run_returning E req_seq r ri
     | None \<Rightarrow> (case reject_unsupported_sql (sql r) (kind E) of
         Some (ora, detail) \<Rightarrow> write_error_response E ora detail 0 req_seq
       | None \<Rightarrow> (case bind_parameters (sql r) (binds r) (bind_style_of (kind E)) of
           Inl e \<Rightarrow> write_error_response E 1008 (error_text e) 0 req_seq
         | Inr bound \<Rightarrow> (case translate E (bsql bound) of
             Inl e \<Rightarrow> write_error_response E 900 (error_text e) 0 req_seq
           | Inr text \<Rightarrow>
               if 1 < num_iters r \<and> 1 < length (bind_rows r) \<and> \<not> is_query_statement text
               then run_batch E req_seq r text
               else if is_query_statement text then run_query E func_code req_seq r bound text
               else run_statement E func_code req_seq bound text))))"

definition handle_execute :: "('b, 'c) env \<Rightarrow> bytes \<Rightarrow> u8 \<Rightarrow> u8 \<Rightarrow> ('b, 'c, unit) call" where
  "handle_execute E p func_code req_seq = reading (\<lambda>s. case parse_call E p func_code req_seq s of
       Inl e \<Rightarrow>
         if func_code = 0x5E \<and> execute_frame_has_no_sql p
         then write_error_response E 1003 ''ORA-01003: no statement parsed'' 0 req_seq
         else write_error_response E 1008 (error_text e) 0 req_seq
     | Inr r \<Rightarrow>
         let_ok (modify (remember E func_code req_seq r)) (\<lambda>_. run_request E func_code req_seq r))"

section \<open>Fetch, end of transaction, other calls\<close>

definition fetch_target :: "('b, 'c) env \<Rightarrow> bytes \<Rightarrow> ('b, 'c) session \<Rightarrow> u16 \<times> u32" where
  "fetch_target E p s =
     (case (if oci E then parse_fetch_request_oci p else parse_fetch_request p) of
        Inl _ \<Rightarrow> (cursor_id s, 100)
      | Inr (cid, n) \<Rightarrow> (if cid = 0 then cursor_id s else cid, n))"

definition clamp :: "'n::linorder \<Rightarrow> 'n \<Rightarrow> 'n \<Rightarrow> 'n" where
  "clamp lo hi n = max lo (min hi n)"

definition fetch_batch :: "('b, 'c) env \<Rightarrow> u32 \<Rightarrow> nat" where
  "fetch_batch E req_rows = unat (if oci E then clamp 1 500 req_rows else clamp 1 50000 req_rows)"

definition saturating_add64 :: "u64 \<Rightarrow> nat \<Rightarrow> u64" where
  "saturating_add64 a n = (if 2 ^ 64 \<le> unat a + n then - 1 else a + word_of_nat n)"

definition send_fetched :: "('b, 'c) env \<Rightarrow> u8 \<Rightarrow> column_meta list \<Rightarrow> cells list \<Rightarrow> u32 \<Rightarrow> u16 \<Rightarrow> bool \<Rightarrow> ('b, 'c, unit) call" where
  "send_fetched E req_seq cols rows req_rows fetch_cid has_more = reading (\<lambda>s.
     if oci E then send (build_fetch_response_oci cols rows req_rows fetch_cid has_more (oci_rows_sent s))
     else if newer E then send (build_fetch_response_jdbc rows fetch_cid has_more req_seq)
     else send (build_fetch_response rows fetch_cid has_more (completion E)))"

text \<open>A fetch on a cursor that is not open is answered as at the end of the data.\<close>

definition send_no_cursor :: "('b, 'c) env \<Rightarrow> u32 \<Rightarrow> ('b, 'c, unit) call" where
  "send_no_cursor E req_rows = reading (\<lambda>s.
     if oci E then send (build_fetch_response_oci [] [] req_rows (cursor_id s) False (oci_rows_sent s))
     else send (build_fetch_response [] 0 False (completion E)))"

definition handle_fetch :: "('b, 'c) env \<Rightarrow> bytes \<Rightarrow> u8 \<Rightarrow> ('b, 'c, unit) call" where
  "handle_fetch E p req_seq = reading (\<lambda>s.
     case fetch_target E p s of (fetch_cid, req_rows) \<Rightarrow>
     (case cursor_of s fetch_cid of
        None \<Rightarrow> send_no_cursor E req_rows
      | Some c0 \<Rightarrow>
          let_ok (race_break E (pull_batch E (fetch_batch E req_rows) c0)) (\<lambda>(res, c).
          let_ok (modify (store_cursor fetch_cid c)) (\<lambda>_. case res of
              Inl e \<Rightarrow>
                let_ok (modify (close_cursor E fetch_cid)) (\<lambda>_. write_backend_error E e req_seq)
            | Inr rows \<Rightarrow>
                let_ok (modify (\<lambda>s. s\<lparr>oci_rows_sent := saturating_add64 (oci_rows_sent s) (length rows)\<rparr>)) (\<lambda>_.
                let_ok (send_fetched E req_seq (cursor_columns (ops E) c) rows req_rows fetch_cid
                  (\<not> is_exhausted (ops E) c)) (\<lambda>_.
                modify (\<lambda>s. if is_exhausted (ops E) c then close_cursor E fetch_cid s else s)))))))"

text \<open>\<^verbatim>\<open>let _ = tns.write_packet(..)\<close>: the failure of a write is ignored.\<close>

definition ignore_failure :: "('b, 'c, unit) call \<Rightarrow> ('b, 'c, unit) call" where
  "ignore_failure f s = (Inr (), snd (f s))"

definition handle_logoff :: "('b, 'c) env \<Rightarrow> u8 \<Rightarrow> ('b, 'c, unit) call" where
  "handle_logoff E req_seq = let_ok (modify (drain_cursors E)) (\<lambda>_.
     if oci E then ignore_failure (send build_logoff_response_oci)
     else if newer E then ignore_failure (send (build_dml_response_jdbc 0 req_seq))
     else ok ())"

definition handle_transaction :: "('b, 'c) env \<Rightarrow> u8 \<Rightarrow> u8 \<Rightarrow> ('b, 'c, unit) call" where
  "handle_transaction E func_code req_seq = let_ok (modify (drain_cursors E)) (\<lambda>_.
     or_report E req_seq
       (on_backend (execute_simple (ops E) (if func_code = 0x0e then ''COMMIT'' else ''ROLLBACK'') []))
       (\<lambda>_. if oci E then send build_txn_response_oci
          else if newer E then send (build_dml_response_jdbc 0 req_seq)
          else send (build_dml_response 0)))"

definition handle_oversion :: "('b, 'c) env \<Rightarrow> ('b, 'c, unit) call" where
  "handle_oversion E =
     (if oci E then send (build_oversion_response_oci (version_banner (oracle_version E)))
      else send (build_oversion_response (version_banner (oracle_version E)) (version_no (oracle_version E))))"

definition handle_other :: "('b, 'c) env \<Rightarrow> u8 \<Rightarrow> u8 \<Rightarrow> ('b, 'c, unit) call" where
  "handle_other E func_code req_seq = (case dispatch_of (function_of func_code) of
       DoNoOp \<Rightarrow> if newer E then send (build_dml_response_jdbc 0 req_seq) else send (build_dml_response 0)
     | Unimplemented ora detail \<Rightarrow> write_error_response E ora detail 0 req_seq
     | _ \<Rightarrow> write_error_response E 3001 ''feature not implemented'' 0 req_seq)"

section \<open>One packet\<close>

text \<open>The value of a handled packet: whether the loop goes on.\<close>

definition note_request :: "u8 \<Rightarrow> u8 \<Rightarrow> u8 \<Rightarrow> ('b, 'c) session \<Rightarrow> ('b, 'c) session" where
  "note_request msg_type func_code req_seq s =
     (if msg_type \<noteq> 0x03 then s
      else if func_code \<in> {0x5E, 0x4E, 0x04, 0x05}
      then s\<lparr>last_req_seq := req_seq, statements_total := statements_total s + 1\<rparr>
      else s\<lparr>last_req_seq := req_seq\<rparr>)"

definition handle_function :: "('b, 'c) env \<Rightarrow> bytes \<Rightarrow> u8 \<Rightarrow> u8 \<Rightarrow> ('b, 'c, bool) call" where
  "handle_function E p func_code req_seq =
     (if func_code \<in> {0x5E, 0x4E, 0x04}
      then let_ok (handle_execute E p func_code req_seq) (\<lambda>_. ok True)
      else if func_code = 0x05 then let_ok (handle_fetch E p req_seq) (\<lambda>_. ok True)
      else if func_code = 0x09 then let_ok (handle_logoff E req_seq) (\<lambda>_. ok False)
      else if func_code \<in> {0x0e, 0x0f}
      then let_ok (handle_transaction E func_code req_seq) (\<lambda>_. ok True)
      else if func_code = 0x3b then let_ok (handle_oversion E) (\<lambda>_. ok True)
      else let_ok (handle_other E func_code req_seq) (\<lambda>_. ok True))"

definition handle_data :: "('b, 'c) env \<Rightarrow> bytes \<Rightarrow> ('b, 'c, bool) call" where
  "handle_data E raw =
     (if length raw < 4 then ok True
      else let p = request_payload raw in
        if length p < 4 then ok True
        else let req_seq = unwrap_or 0 (get_at p 4) in
          let_ok (modify (note_request (p ! 2) (p ! 3) req_seq)) (\<lambda>_.
          if p ! 2 = 0x03 then handle_function E p (p ! 3) req_seq else ok True))"

definition handle_marker :: "('b, 'c) env \<Rightarrow> bytes \<Rightarrow> ('b, 'c, unit) call" where
  "handle_marker E p = let_ok ack_marker (\<lambda>_.
     if unwrap_or 0 (get_at p 2) \<noteq> 0x02 then ok ()
     else reading (\<lambda>s.
       if oci E then send (build_timeout_error_response_oci (last_req_seq s))
       else send (build_error_response (completion E) (newer E) (oci E) 1013
              ''user requested cancel of current operation'')))"

definition handle_packet :: "('b, 'c) env \<Rightarrow> packet \<Rightarrow> ('b, 'c, bool) call" where
  "handle_packet E p = (case packet_type p of
       Data \<Rightarrow> handle_data E (payload p)
     | Marker \<Rightarrow> let_ok (handle_marker E (payload p)) (\<lambda>_. ok True)
     | Abort \<Rightarrow> ok False
     | Null \<Rightarrow> ok False
     | _ \<Rightarrow> ok True)"

definition serve_packet :: "('b, 'c) env \<Rightarrow> ('b, 'c, bool) call" where
  "serve_packet E = let_ok (on_net read_packet) (handle_packet E)"

end
