(* ===== verification/Session_Frame.thy ===== *)
theory Session_Frame
  imports Session
begin

text \<open>
  What every request handler leaves alone.  \<open>session_frame\<close> fixes a reflexive and transitive
  relation between the session before and after, asks for it on the elementary updates of the
  state, and proves it of each handler of the command loop.  It is interpreted on the unread
  input, which never grows (so the loop ends), and on the table of statement ids.
\<close>

named_theorems keeps_intros

definition reads_forward :: "'a net \<Rightarrow> bool" where
  "reads_forward f \<longleftrightarrow> (\<forall>n. length (inbound (snd (f n))) \<le> length (inbound n))"

section \<open>Packets only consume input\<close>

lemma reads_forward_ok [keeps_intros]: "reads_forward (ok a)" "reads_forward (fail e)"
  by (simp_all add: reads_forward_def)

lemma reads_forward_let_ok [keeps_intros]:
  assumes "reads_forward f" "\<And>a. reads_forward (g a)"
  shows "reads_forward (let_ok f g)"
  unfolding reads_forward_def
proof
  fix n
  obtain r n' where f: "f n = (r, n')" by force
  have "length (inbound n') \<le> length (inbound n)" using assms(1) f by (metis reads_forward_def snd_conv)
  moreover have "length (inbound (snd (g a n'))) \<le> length (inbound n')" for a
    using assms(2) by (simp add: reads_forward_def)
  ultimately show "length (inbound (snd (let_ok f g n))) \<le> length (inbound n)"
    using f by (cases r) (auto intro: order_trans)
qed

lemma reads_forward_exact [keeps_intros]: "reads_forward (read_exact k)"
  by (simp add: reads_forward_def read_exact_def)

lemma reads_forward_read_more [keeps_intros]: "reads_forward (read_more buf k)"
  unfolding read_more_def by (simp add: keeps_intros)

lemma reads_forward_complete_ub [keeps_intros]: "reads_forward (complete_ub buf off)"
  unfolding complete_ub_def by (auto simp: Let_def intro!: keeps_intros)

lemma reads_forward_complete_fetch [keeps_intros]: "reads_forward (complete_fetch t p)"
proof -
  have "reads_forward (let_ok (complete_ub p 5) (\<lambda>(p, off). let_ok (complete_ub p off) (\<lambda>(p, _). ok p)))"
    by (intro keeps_intros) (auto split: prod.split intro!: keeps_intros)
  then show ?thesis by (simp add: reads_forward_def complete_fetch_def)
qed

lemma reads_forward_write [keeps_intros]:
  "reads_forward (write_packet t p)" "reads_forward (write_oci_marker m)"
  unfolding write_packet_def write_oci_marker_def
  by (auto simp: reads_forward_def write_packet_flags_def emit_one_packet_def io_write_def Let_def
      split: option.splits sdu_mode.splits)

text \<open>A packet that is read takes its eight header bytes at least.\<close>

lemma read_packet_shrinks:
  "length (inbound (snd (read_packet n))) \<le> length (inbound n)
   \<and> (fst (read_packet n) = Inr p \<longrightarrow> length (inbound (snd (read_packet n))) + 8 \<le> length (inbound n))"
proof -
  obtain r m where h: "read_exact 8 n = (r, m)" by force
  have m: "length (inbound m) \<le> length (inbound n)"
    "\<And>x. r = Inr x \<Longrightarrow> length (inbound m) + 8 \<le> length (inbound n)"
    using h by (auto simp: read_exact_def split: if_splits)
  show ?thesis
  proof (cases r)
    case (Inl e)
    with h m show ?thesis by (simp add: read_packet_def)
  next
    case (Inr header)
    let ?body = "\<lambda>t len. let_ok (if 0 < len - 8 then read_exact (len - 8) else ok [])
      (\<lambda>p. let_ok (complete_fetch t p) (\<lambda>p. ok \<lparr>packet_type = t, pflags = header ! 5, payload = p\<rparr>))"
    have "reads_forward (?body t len)" for t len by (simp add: keeps_intros)
    then have b: "length (inbound (snd (?body t len m))) \<le> length (inbound m)" for t len
      unfolding reads_forward_def by blast
    have "length (inbound (snd (read_packet n))) \<le> length (inbound m)"
      unfolding read_packet_def let_ok_apply [of "read_exact 8"] h Inr prod.case on_ok_simps Let_def
      using b by (cases "packet_type_of (header ! 4)") (simp_all only: sum.case split: if_split, simp_all)
    with m(1) m(2) [OF Inr] show ?thesis by simp
  qed
qed

lemma reads_forward_read_packet [keeps_intros]: "reads_forward read_packet"
  using read_packet_shrinks by (simp add: reads_forward_def)

lemma reads_forward_drain [keeps_intros]: "reads_forward (drain_markers k)"
  unfolding reads_forward_def
proof (rule allI)
  fix n
  show "length (inbound (snd (drain_markers k n))) \<le> length (inbound n)"
  proof (induction k arbitrary: n)
    case (Suc k)
    obtain r m where r: "read_packet n = (r, m)" by force
    with read_packet_shrinks [of n] have "length (inbound m) \<le> length (inbound n)" by simp
    with r Suc [of m] show ?case by (cases r) auto
  qed simp
qed

section \<open>The frame of a handler\<close>

locale session_frame =
  fixes E :: "('b, 'c) env"
    and R :: "('b, 'c) session \<Rightarrow> ('b, 'c) session \<Rightarrow> bool"
  assumes R_refl: "R s s"
    and R_trans: "R s t \<Longrightarrow> R t u \<Longrightarrow> R s u"
    and R_net: "length (inbound n) \<le> length (inbound (net s)) \<Longrightarrow> R s (s\<lparr>net := n\<rparr>)"
    and R_backend: "R s (s\<lparr>backend_state := b\<rparr>)"
    and R_cursors: "R s (s\<lparr>cursors := cs\<rparr>)"
    and R_env: "R s (s\<lparr>arrivals := a\<rparr>)" "R s (s\<lparr>clock := k\<rparr>)"
    and R_counters: "R s (s\<lparr>backend_errors_total := n1\<rparr>)" "R s (s\<lparr>statements_total := n1\<rparr>)"
      "R s (s\<lparr>oci_rows_sent := n2\<rparr>)" "R s (s\<lparr>last_req_seq := n3\<rparr>)"
    and R_remember: "R s (remember E func_code req_seq r s)"
begin

definition keeps :: "('b, 'c, 'a) call \<Rightarrow> bool" where
  "keeps f \<longleftrightarrow> (\<forall>s. R s (snd (f s)))"

lemma keeps_ok: "keeps (ok a)" "keeps (fail e)"
  by (simp_all add: keeps_def R_refl)

lemma keeps_let_ok:
  assumes "keeps f" "\<And>a. keeps (g a)"
  shows "keeps (let_ok f g)"
  unfolding keeps_def
proof
  fix s
  obtain r t where f: "f s = (r, t)" by force
  have "R s t" using assms(1) f by (metis keeps_def snd_conv)
  moreover have "R t (snd (g a t))" for a using assms(2) by (simp add: keeps_def)
  ultimately show "R s (snd (let_ok f g s))" using f by (cases r) (auto intro: R_trans)
qed

lemma keeps_reading: "(\<And>s. keeps (f s)) \<Longrightarrow> keeps (reading f)"
  by (simp add: keeps_def reading_def)

lemma keeps_modify: "(\<And>s. R s (f s)) \<Longrightarrow> keeps (modify f)"
  by (simp add: keeps_def modify_def)

lemma keeps_net: "reads_forward f \<Longrightarrow> keeps (on_net f)"
  unfolding keeps_def on_net_def reads_forward_def by (auto split: prod.split) (metis R_net snd_conv)

lemma keeps_backend: "keeps (on_backend f)"
  by (auto simp: keeps_def on_backend_def R_backend split: prod.split)

lemma keeps_pull: "keeps (pull_batch E n c)"
  by (auto simp: keeps_def pull_batch_def R_backend split: prod.split)

lemma keeps_tick: "keeps tick"
  by (simp add: keeps_def tick_def R_env)

lemma keeps_ignore: "keeps f \<Longrightarrow> keeps (ignore_failure f)"
  by (simp add: keeps_def ignore_failure_def)

lemmas keeps_base = keeps_ok keeps_let_ok keeps_reading keeps_net keeps_backend keeps_pull keeps_tick
  keeps_ignore keeps_modify [OF R_backend] keeps_modify [OF R_env(1)] keeps_modify [OF R_counters(1)]
  keeps_modify [OF R_counters(3)] keeps_intros

lemma keeps_send: "keeps (send p)" "keeps ack_marker"
  unfolding send_def ack_marker_def by (intro keeps_base)+

lemma keeps_mid_statement: "keeps (mid_statement E n)"
  unfolding keeps_def
proof (rule allI)
  fix s
  show "R s (snd (mid_statement E n s))"
  proof (induction n arbitrary: s)
    case (Suc n)
    obtain r t where r: "on_net read_packet s = (r, t)" by force
    have "keeps (on_net read_packet)" by (intro keeps_base)
    with r have st: "R s t" by (metis keeps_def snd_conv)
    have n: "keeps (mid_statement E n)" using Suc by (simp add: keeps_def)
    have "keeps (let_ok (modify (\<lambda>s. s\<lparr>backend_state := cancel_statement (ops E) (backend_state s)\<rparr>)) (\<lambda>_.
        let_ok ack_marker (\<lambda>_. mid_statement E n)))"
      by (intro keeps_base keeps_send n)
    then have "R t (snd (let_ok (modify (\<lambda>s. s\<lparr>backend_state := cancel_statement (ops E) (backend_state s)\<rparr>)) (\<lambda>_.
        let_ok ack_marker (\<lambda>_. mid_statement E n)) t))" unfolding keeps_def by blast
    with r st n show ?case
      by (auto simp: keeps_def simp del: let_ok_apply intro: R_trans split: sum.split stop.split)
  qed (simp add: R_refl)
qed

lemma keeps_race: "keeps f \<Longrightarrow> keeps (race_break E f)"
  unfolding race_break_def by (intro keeps_base keeps_mid_statement) assumption

lemma keeps_error: "keeps (write_error_response E ora m pos q)"
  unfolding write_error_response_def by (auto intro!: keeps_base keeps_send)

lemma keeps_backend_error: "keeps (write_backend_error E e q)"
  unfolding write_backend_error_def by (auto intro!: keeps_base keeps_error split: prod.split)

lemma keeps_report: "keeps r \<Longrightarrow> (\<And>a. keeps (f a)) \<Longrightarrow> keeps (or_report E q r f)"
  unfolding or_report_def by (auto intro!: keeps_base keeps_backend_error split: sum.split)

lemmas keeps_more = keeps_base keeps_send keeps_race keeps_error keeps_backend_error keeps_report

lemma R_finish: "R s (finish_one E c s)" "R s (store_cursor i c s)" "R s (drop_cursor i s)"
  by (simp_all add: finish_one_def store_cursor_def drop_cursor_def R_backend R_cursors)

lemma R_close: "R s (close_cursor E i s)" "R s (keep_or_finish E i c s)"
  by (auto simp: close_cursor_def keep_or_finish_def R_refl intro: R_finish R_trans [OF R_finish(3) R_finish(1)]
      split: option.split)

lemma R_drain: "R s (drain_cursors E s)"
proof -
  have "R t (fold (\<lambda>(_, c). finish_one E c) cs t)" for cs t
    by (induction cs arbitrary: t) (auto simp: R_refl intro: R_trans [OF R_finish(1)])
  then show ?thesis unfolding drain_cursors_def by (rule R_trans [OF R_cursors])
qed

lemma R_note: "R s (note_request m f q s)"
proof -
  have "R s (s\<lparr>last_req_seq := q, statements_total := n\<rparr>)" for n
    by (rule R_trans [OF R_counters(4)]) (rule R_counters(2))
  then show ?thesis by (simp add: note_request_def R_refl R_counters)
qed

lemma keeps_returning: "keeps (run_returning E q r ri)"
  unfolding run_returning_def by (auto intro!: keeps_more split: sum.split)

lemma keeps_ack: "keeps (send_ack E d t n q)"
  unfolding send_ack_def by (auto intro!: keeps_more)

lemma keeps_one: "keeps (run_one E d t vs)"
  unfolding run_one_def by (auto intro!: keeps_more)

lemma keeps_rows: "keeps (batch_rows E d src t rows acc)"
  by (induction rows arbitrary: acc) (auto intro!: keeps_more keeps_one split: sum.split simp del: let_ok_apply)

lemma keeps_query: "keeps (run_query E f q r bound t)"
  unfolding run_query_def send_rows_def
  by (auto intro!: keeps_more keeps_modify R_close split: sum.split prod.split simp del: let_ok_apply)

lemma keeps_request: "keeps (run_request E f q r)"
  unfolding run_request_def run_batch_def run_statement_def
  by (auto intro!: keeps_more keeps_returning keeps_query keeps_rows keeps_ack keeps_one
      split: sum.split option.split)

lemma keeps_execute: "keeps (handle_execute E p f q)"
  unfolding handle_execute_def
  by (auto intro!: keeps_more keeps_request keeps_modify R_remember split: sum.split)

lemma keeps_fetch: "keeps (handle_fetch E p q)"
  unfolding handle_fetch_def send_fetched_def send_no_cursor_def
  by (auto intro!: keeps_more keeps_modify R_finish R_close R_refl
      split: sum.split option.split prod.split simp del: let_ok_apply)

lemma keeps_data: "keeps (handle_data E p)"
  unfolding handle_data_def handle_function_def handle_logoff_def handle_transaction_def
    handle_oversion_def handle_other_def Let_def
  by (auto intro!: keeps_more keeps_execute keeps_fetch keeps_modify R_drain R_note split: dispatch.split)

lemma keeps_packet: "keeps (handle_packet E p)"
  unfolding handle_packet_def handle_marker_def
  by (auto intro!: keeps_more keeps_data split: packet_type.split)

lemma handled: "R s (snd (handle_packet E p s))"
  using keeps_packet by (simp add: keeps_def)

lemma served: "R s (snd (serve_packet E s))"
proof -
  have "keeps (serve_packet E)" unfolding serve_packet_def by (intro keeps_more keeps_packet)
  then show ?thesis by (simp add: keeps_def)
qed

end

end
