(* ===== verification/Session_Loop.thy ===== *)
theory Session_Loop
  imports Session_Frame
begin

text \<open>
  The command loop of \<^verbatim>\<open>src/src/server.rs\<close>: it ends on every input, the statement ids it
  hands out stay apart, and a re-execution finds the statement its id was given for.
\<close>

section \<open>The loop\<close>

definition unread :: "('b, 'c) session \<Rightarrow> nat" where
  "unread s = length (inbound (net s))"

lemma remember_net [simp]: "net (remember E f q r s) = net s"
  by (auto simp: remember_def reuse_id_def assign_id_def Let_def split: option.split)

interpretation input: session_frame E "\<lambda>s t. unread t \<le> unread s" for E
  by unfold_locales (simp_all add: unread_def)

lemma serve_packet_shrinks:
  assumes "serve_packet E s = (Inr b, t)"
  shows "unread t + 8 \<le> unread s"
proof -
  obtain r n where rn: "read_packet (net s) = (r, n)" by force
  with assms obtain p where p: "r = Inr p" "handle_packet E p (s\<lparr>net := n\<rparr>) = (Inr b, t)"
    by (cases r) (auto simp: serve_packet_def on_net_def)
  have "length (inbound n) + 8 \<le> unread s"
    using read_packet_shrinks [of "net s" p] rn p(1) by (simp add: unread_def)
  moreover have "unread t \<le> length (inbound n)"
    using input.handled [of E p "s\<lparr>net := n\<rparr>"] p(2) by (simp add: unread_def)
  ultimately show ?thesis by simp
qed

function serve :: "('b, 'c) env \<Rightarrow> ('b, 'c, unit) call" where
  "serve E s = (case serve_packet E s of
       (Inl e, t) \<Rightarrow> (Inl e, t)
     | (Inr go_on, t) \<Rightarrow> if go_on then serve E t else (Inr (), t))"
  by pat_completeness auto
termination
  by (relation "measure (\<lambda>(E, s). unread s)") (auto dest!: sym [of "(Inr True, _)"] serve_packet_shrinks)

declare serve.simps [simp del]

text \<open>\<open>runs E s n t\<close>: the loop has handled \<open>n\<close> packets and goes on from \<open>t\<close>.\<close>

inductive runs :: "('b, 'c) env \<Rightarrow> ('b, 'c) session \<Rightarrow> nat \<Rightarrow> ('b, 'c) session \<Rightarrow> bool" for E s where
  start: "runs E s 0 s"
| next_packet: "runs E s n t \<Longrightarrow> serve_packet E t = (Inr True, u) \<Longrightarrow> runs E s (Suc n) u"

lemma runs_shrinks: "runs E s n t \<Longrightarrow> 8 * n + unread t \<le> unread s"
  by (induction rule: runs.induct) (auto dest: serve_packet_shrinks)

lemma runs_step: "serve_packet E s = (Inr True, t) \<Longrightarrow> runs E t n u \<Longrightarrow> runs E s (Suc n) u"
  by (rotate_tac, induction rule: runs.induct) (auto intro: runs.intros)

inductive_cases runs_Suc: "runs E s (Suc n) t"

lemma runs_relation:
  assumes "\<And>s. R s s" "\<And>s t u. R s t \<Longrightarrow> R t u \<Longrightarrow> R s u" "\<And>s. R s (snd (serve_packet E s))"
  shows "runs E s n t \<Longrightarrow> R s t"
proof (induction rule: runs.induct)
  case (next_packet n t u)
  from next_packet.hyps(2) assms(3) [of t] have "R t u" by simp
  with next_packet.IH show ?case by (rule assms(2))
qed (rule assms(1))

section \<open>Statement ids\<close>

abbreviation statements :: "('b, 'c) session \<Rightarrow> string set" where
  "statements s \<equiv> dom (oci_cursor_ids s)"

text \<open>Fewer statements than ids: the sixteen-bit counter has not wrapped.\<close>

definition few :: "('b, 'c) session \<Rightarrow> bool" where
  "few s \<longleftrightarrow> card (statements s) < 65533"

definition table_ok :: "('b, 'c) env \<Rightarrow> ('b, 'c) session \<Rightarrow> bool" where
  "table_ok E s \<longleftrightarrow> finite (statements s)
     \<and> cursor_id s \<noteq> 0 \<and> oci_next_cursor_id s \<noteq> 0 \<and> 0 \<notin> ran (oci_cursor_ids s)
     \<and> (oci E \<longrightarrow> 3 \<le> oci_next_cursor_id s \<and> (\<forall>i \<in> ran (oci_cursor_ids s). 3 \<le> i))
     \<and> (\<not> oci E \<and> \<not> newer E \<longrightarrow> cursor_id s = 1 \<and> oci_cursor_ids s = Map.empty)
     \<and> (few s \<longrightarrow> unat (oci_next_cursor_id s) \<le> card (statements s) + 3
         \<and> (\<forall>i \<in> ran (oci_cursor_ids s). i < oci_next_cursor_id s)
         \<and> inj_on (oci_cursor_ids s) (statements s))"

text \<open>The reverse map agrees with the table.\<close>

definition names_ok :: "('b, 'c) session \<Rightarrow> bool" where
  "names_ok s \<longleftrightarrow>
     (\<forall>i text types. oci_id_to_sql s i = Some (text, types) \<longrightarrow> oci_cursor_ids s text = Some i)
     \<and> (few s \<longrightarrow> (\<forall>text i. oci_cursor_ids s text = Some i \<longrightarrow> (\<exists>types. oci_id_to_sql s i = Some (text, types))))"

definition ids_ok :: "('b, 'c) env \<Rightarrow> ('b, 'c) session \<Rightarrow> bool" where
  "ids_ok E s \<longleftrightarrow> table_ok E s \<and> (oci E \<or> newer E \<longrightarrow> names_ok s)"

lemma table_ok_update [simp]:
  "table_ok E (s\<lparr>net := x1\<rparr>) = table_ok E s" "table_ok E (s\<lparr>backend_state := x2\<rparr>) = table_ok E s"
  "table_ok E (s\<lparr>cursors := x3\<rparr>) = table_ok E s" "table_ok E (s\<lparr>last_execute := x4\<rparr>) = table_ok E s"
  "table_ok E (s\<lparr>oci_seq_to_sql := x5\<rparr>) = table_ok E s" "table_ok E (s\<lparr>oci_id_to_sql := x6\<rparr>) = table_ok E s"
  "table_ok E (s\<lparr>oci_rows_sent := x7\<rparr>) = table_ok E s" "table_ok E (s\<lparr>last_req_seq := x8\<rparr>) = table_ok E s"
  "table_ok E (s\<lparr>statements_total := x9\<rparr>) = table_ok E s"
  "table_ok E (s\<lparr>backend_errors_total := x9\<rparr>) = table_ok E s"
  "table_ok E (s\<lparr>arrivals := x10\<rparr>) = table_ok E s" "table_ok E (s\<lparr>clock := x11\<rparr>) = table_ok E s"
  by (simp_all add: table_ok_def few_def)

lemma names_ok_update [simp]:
  "names_ok (s\<lparr>net := x1\<rparr>) = names_ok s" "names_ok (s\<lparr>backend_state := x2\<rparr>) = names_ok s"
  "names_ok (s\<lparr>cursors := x3\<rparr>) = names_ok s" "names_ok (s\<lparr>last_execute := x4\<rparr>) = names_ok s"
  "names_ok (s\<lparr>oci_seq_to_sql := x5\<rparr>) = names_ok s" "names_ok (s\<lparr>cursor_id := x6\<rparr>) = names_ok s"
  "names_ok (s\<lparr>oci_rows_sent := x7\<rparr>) = names_ok s" "names_ok (s\<lparr>last_req_seq := x8\<rparr>) = names_ok s"
  "names_ok (s\<lparr>statements_total := x9\<rparr>) = names_ok s"
  "names_ok (s\<lparr>backend_errors_total := x9\<rparr>) = names_ok s"
  "names_ok (s\<lparr>arrivals := x10\<rparr>) = names_ok s" "names_ok (s\<lparr>clock := x11\<rparr>) = names_ok s"
  by (simp_all add: names_ok_def few_def)

lemma table_ok_assign:
  assumes "table_ok E s" "oci E \<or> newer E"
  shows "table_ok E (assign_id text s)"
proof (cases "oci_cursor_ids s text")
  case (Some i)
  then have "i \<noteq> 0" using assms(1) by (auto simp: table_ok_def ran_def)
  with Some assms show ?thesis by (auto simp: assign_id_def table_ok_def few_def)
next
  case None
  let ?n = "oci_next_cursor_id s"
  let ?t = "assign_id text s"
  have t: "oci_cursor_ids ?t = (oci_cursor_ids s)(text \<mapsto> ?n)" "cursor_id ?t = ?n"
    "oci_next_cursor_id ?t = max (?n + 1) 3"
    using None by (simp_all add: assign_id_def)
  have fin: "finite (statements s)" using assms(1) by (simp add: table_ok_def)
  then have card: "card (statements ?t) = Suc (card (statements s))" using None t(1) by (simp add: domIff)
  have r: "ran (oci_cursor_ids ?t) = insert ?n (ran (oci_cursor_ids s))" using None t(1) by simp
  have nz: "max (?n + 1) 3 \<noteq> 0"
  proof
    assume "max (?n + 1) 3 = 0"
    then have "(3 :: u16) \<le> 0" by (metis max.cobounded2)
    then show False by simp
  qed
  have "few ?t \<longrightarrow> unat (oci_next_cursor_id ?t) \<le> card (statements ?t) + 3
      \<and> (\<forall>i \<in> ran (oci_cursor_ids ?t). i < oci_next_cursor_id ?t) \<and> inj_on (oci_cursor_ids ?t) (statements ?t)"
  proof
    assume few: "few ?t"
    then have "few s" using card by (simp add: few_def)
    with assms(1) have b: "unat ?n \<le> card (statements s) + 3" "\<And>i. i \<in> ran (oci_cursor_ids s) \<Longrightarrow> i < ?n"
      "inj_on (oci_cursor_ids s) (statements s)" by (auto simp: table_ok_def)
    have u: "unat (?n + 1) = unat ?n + 1"
      using b(1) few card by (simp add: few_def unatSuc unat_word_ariths)
    then have lt: "?n < ?n + 1" by (simp add: word_less_nat_alt)
    then have "?n < max (?n + 1) 3" by (simp add: less_max_iff_disj)
    moreover have "unat (max (?n + 1) 3) \<le> card (statements ?t) + 3"
      using u b(1) card by (simp add: max_def)
    moreover have "inj_on (oci_cursor_ids ?t) (statements ?t)"
      using b(2,3) None unfolding t(1)
      by (auto simp: inj_on_def ran_def) (metis less_irrefl domI option.sel)+
    ultimately show "unat (oci_next_cursor_id ?t) \<le> card (statements ?t) + 3
      \<and> (\<forall>i \<in> ran (oci_cursor_ids ?t). i < oci_next_cursor_id ?t) \<and> inj_on (oci_cursor_ids ?t) (statements ?t)"
      using b(2) unfolding t(3) r by (auto intro: less_trans)
  qed
  with assms fin card r nz t None show ?thesis
    unfolding table_ok_def by (auto simp: domIff)
qed

lemma assign_id_props:
  "oci_cursor_ids (assign_id x s) x = Some (cursor_id (assign_id x s))"
  "oci_id_to_sql (assign_id x s) = oci_id_to_sql s"
  "oci_cursor_ids s u = Some i \<Longrightarrow> oci_cursor_ids (assign_id x s) u = Some i"
  "oci_cursor_ids (assign_id x s) u = Some i \<Longrightarrow> u = x \<or> oci_cursor_ids s u = Some i"
  by (auto simp: assign_id_def split: option.splits if_splits)

lemma few_assign: "finite (statements s) \<Longrightarrow> few (assign_id text s) \<Longrightarrow> few s"
  by (auto simp: few_def assign_id_def card_insert_if split: option.splits if_splits)

lemma table_inj:
  assumes "table_ok E s" "few s" "oci_cursor_ids s u = Some i" "oci_cursor_ids s v = Some i"
  shows "u = v"
proof -
  have "inj_on (oci_cursor_ids s) (statements s)" using assms(1,2) by (simp add: table_ok_def)
  then show ?thesis by (rule inj_onD) (use assms(3,4) in auto)
qed

lemma names_okD:
  "names_ok s \<Longrightarrow> oci_id_to_sql s i = Some (x, types) \<Longrightarrow> oci_cursor_ids s x = Some i"
  "names_ok s \<Longrightarrow> few s \<Longrightarrow> oci_cursor_ids s x = Some i \<Longrightarrow> \<exists>types. oci_id_to_sql s i = Some (x, types)"
  unfolding names_ok_def by blast+

lemma names_ok_assign:
  assumes ok: "table_ok E s" "names_ok s" "oci E \<or> newer E" and t: "t = assign_id text s"
  shows "names_ok (t\<lparr>oci_id_to_sql := (oci_id_to_sql t)(cursor_id t \<mapsto> (text, types))\<rparr>)"
proof -
  have tab: "table_ok E t" using ok by (simp add: t table_ok_assign)
  note p = assign_id_props [where x = "text" and s = s, folded t]
  have inj: "u = v" if "few t" "oci_cursor_ids t u = Some i" "oci_cursor_ids t v = Some i" for u v i
    using table_inj [OF tab that] .
  have fs: "few t \<Longrightarrow> few s" using ok(1) few_assign t by (auto simp: table_ok_def)
  have fwd: "oci_cursor_ids t v = Some i"
    if "oci_id_to_sql s i = Some (v, ys)" for i v ys
    using names_okD(1) [OF ok(2) that] by (rule p(3))
  have bwd: "\<exists>ys. oci_id_to_sql s i = Some (v, ys)"
    if "few t" "oci_cursor_ids t v = Some i" "i \<noteq> cursor_id t" for v i
  proof -
    from p(4) [OF that(2)] p(1) that(2,3) have "oci_cursor_ids s v = Some i" by auto
    with names_okD(2) [OF ok(2) fs [OF that(1)]] show ?thesis by blast
  qed
  let ?m = "(oci_id_to_sql s)(cursor_id t \<mapsto> (text, types))"
  have 1: "oci_cursor_ids t v = Some i" if "?m i = Some (v, ys)" for i v ys
    using that p(1) fwd by (cases "i = cursor_id t") auto
  have 2: "\<exists>ys. ?m i = Some (v, ys)" if "few t" "oci_cursor_ids t v = Some i" for v i
    using bwd [OF that] inj [OF that(1,2)] p(1) by (cases "i = cursor_id t") auto
  show ?thesis
    unfolding names_ok_def few_def using 1 2 by (auto simp: p(2) few_def)
qed

lemma reuse_id_ok: "table_ok E s \<Longrightarrow> oci E \<or> newer E \<Longrightarrow> table_ok E (reuse_id text s)"
  by (auto simp: reuse_id_def table_ok_def few_def ran_def split: option.split)

lemma names_reuse [simp]: "names_ok (reuse_id text s) = names_ok s"
  by (simp add: reuse_id_def split: option.split)

lemma remember_ids_ok:
  assumes "ids_ok E s"
  shows "ids_ok E (remember E f q r s)"
proof (cases "oci E \<or> newer E")
  case False
  with assms show ?thesis by (auto simp: remember_def ids_ok_def Let_def)
next
  case True
  let ?s = "if f \<noteq> 0x5E then reuse_id (sql r) s else s"
  let ?e = "(sql r, bind_types r)"
  let ?t = "?s\<lparr>last_execute := Some ?e, oci_seq_to_sql := (oci_seq_to_sql ?s)(q \<mapsto> ?e)\<rparr>"
  from True assms have t: "table_ok E ?s" "names_ok ?s" by (simp_all add: ids_ok_def reuse_id_ok)
  then have "table_ok E ?t" "names_ok ?t" by simp_all
  note n = names_ok_assign [OF this True refl, of "sql r" "bind_types r"]
    and a = table_ok_assign [OF this(1) True, of "sql r"]
  show ?thesis
  proof (cases "f = 0x5E \<and> sql r \<noteq> []")
    case False
    then show ?thesis using t True by (auto simp: remember_def Let_def ids_ok_def)
  next
    case c: True
    then show ?thesis using n a True by (simp add: remember_def Let_def ids_ok_def)
  qed
qed

interpretation ids: session_frame E "\<lambda>s t. ids_ok E s \<longrightarrow> ids_ok E t" for E
  by unfold_locales (simp_all add: remember_ids_ok, simp_all add: ids_ok_def)

lemma new_session_ids_ok: "ids_ok E (new_session (oci E) n b ar cl)"
  by (simp add: new_session_def ids_ok_def table_ok_def names_ok_def few_def)

lemma runs_ids_ok:
  assumes "runs E (new_session (oci E) n b ar cl) k s"
  shows "ids_ok E s"
  using assms
proof (induction rule: runs.induct)
  case (next_packet k t u)
  then show ?case using ids.served [of E t] by simp
qed (rule new_session_ids_ok)

section \<open>A session to run\<close>

text \<open>
  An OCI client whose first packet executes \<^verbatim>\<open>BEGIN\<close>, on a database that is offline and with a
  translator that refuses the statement.
\<close>

definition offline :: "(unit, unit) backend" where
  "offline = (let broken = (\<lambda>s. (Inl (Io ''offline''), s)) in
     \<lparr>open_cursor = (\<lambda>_ _ _. broken), execute_simple = (\<lambda>_ _ s. (Inl (Io ''offline''), s)),
      execute_ddl = (\<lambda>_ _ s. (Inl (Io ''offline''), s)),
      execute_returning = (\<lambda>_ _ s. (Inl (Io ''offline''), s)), cancel_statement = (\<lambda>s. s),
      cursor_columns = (\<lambda>_. []), is_exhausted = (\<lambda>_. True),
      next_batch = (\<lambda>_ s. (Inl (Io ''offline''), s)), finish_cursor = (\<lambda>s. s)\<rparr>)"

definition oci_env :: "(unit, unit) env" where
  "oci_env = \<lparr>oci = True, newer = True, completion = True, no_list = False, kind = PostgresBackend,
     oracle_version = V19c, translate = (\<lambda>_. Inl (SqlParse [])), ops = offline\<rparr>"

definition begin_frame :: bytes where
  "begin_frame = [0, 0, 3, 0x5e, 5, 66, 69, 71, 73, 78]"

lemma parse_begin:
  "parse_execute_request_oci begin_frame = Inr \<lparr>sql = ''BEGIN'', binds = [], bind_types = [],
     prefetch = 0, num_iters = 1, bind_rows = []\<rparr>"
proof -
  have "\<not> is_kw_at begin_frame 4" "is_kw_at begin_frame 5" "prefixed_run begin_frame 5"
    "run_trimmed begin_frame 5 (graphic_run begin_frame 5) = 5"
    "from_utf8_lossy [66, 69, 71, 73, 78] = ''BEGIN''"
    "trim_end ''BEGIN'' = ''BEGIN''" "count_named_binds ''BEGIN'' = 0"
    by code_simp+
  moreover have "drop 5 begin_frame = [66, 69, 71, 73, 78]" "length begin_frame = 10"
    by (simp_all add: begin_frame_def)
  ultimately show ?thesis by (simp add: parse_execute_request_oci_def)
qed

definition begin_session :: "(unit, unit) session" where
  "begin_session = new_session True (conn Large True ([0, 0, 0, 18, 6, 0, 0, 0] @ begin_frame) []) () [] []"

lemma read_begin: "read_packet (net begin_session)
    = (Inr \<lparr>packet_type = Data, pflags = 0, payload = begin_frame\<rparr>, conn Large True [] [])"
  by (simp add: begin_session_def new_session_def read_packet_def read_exact_def packet_length_def
      nat_of_be_def MAX_TNS_PACKET_SIZE_def packet_type_of_def complete_fetch_def conn_def begin_frame_def)

lemma send_short:
  assumes "net s = conn Large True [] []" "length p < 8000"
  shows "\<exists>t. send p s = (Inr (), s\<lparr>net := t\<rparr>)"
  using assms by (simp add: send_def on_net_def write_packet_def write_packet_flags_def needs_split_def
      OCI_MAX_PACKET_def emit_one_packet_def MAX_TNS_PACKET_SIZE_def io_write_def conn_def) blast

lemma serve_begin:
  "\<exists>t. serve_packet oci_env begin_session = (Inr True, t) \<and> oci_cursor_ids t = [''BEGIN'' \<mapsto> 3]"
proof -
  let ?r = "\<lparr>sql = ''BEGIN'', binds = [], bind_types = [], prefetch = 0, num_iters = 1, bind_rows = []\<rparr>"
  have f: "split_returning_into ''BEGIN'' = None"
    "reject_unsupported_sql ''BEGIN'' PostgresBackend = None"
    "bind_parameters ''BEGIN'' [] PostgresStyle = Inr \<lparr>bsql = ''BEGIN'', bbinds = []\<rparr>"
    by code_simp+
  let ?s = "note_request 3 0x5e 5 (begin_session\<lparr>net := conn Large True [] []\<rparr>)"
  let ?u = "remember oci_env 0x5e 5 ?r ?s"
  have n: "net ?u = conn Large True [] []" by (simp add: note_request_def)
  have "length (build_error_response_oci 900 (error_text (SqlParse [])) 0 5) < 8000"
    by code_simp
  from send_short [OF n this] obtain t where
    t: "send (build_error_response_oci 900 (error_text (SqlParse [])) 0 5) ?u = (Inr (), ?u\<lparr>net := t\<rparr>)" by blast
  have "run_request oci_env 0x5e 5 ?r ?u = (Inr (), ?u\<lparr>net := t\<rparr>)"
    using t by (simp add: run_request_def f oci_env_def bind_style_of_def write_error_response_def)
  then have "handle_execute oci_env begin_frame 0x5e 5 ?s = (Inr (), ?u\<lparr>net := t\<rparr>)"
    by (simp add: handle_execute_def reading_def parse_call_def parse_begin modify_def oci_env_def)
  then have "handle_data oci_env begin_frame (begin_session\<lparr>net := conn Large True [] []\<rparr>) = (Inr True, ?u\<lparr>net := t\<rparr>)"
    by (simp add: handle_data_def request_payload_def get_at_def begin_frame_def modify_def handle_function_def)
  then have "serve_packet oci_env begin_session = (Inr True, ?u\<lparr>net := t\<rparr>)"
    by (simp add: serve_packet_def on_net_def read_begin handle_packet_def)
  moreover have "oci_cursor_ids (?u\<lparr>net := t\<rparr>) = [''BEGIN'' \<mapsto> 3]"
    by (simp add: remember_def oci_env_def assign_id_def note_request_def begin_session_def new_session_def Let_def)
  ultimately show ?thesis by blast
qed

section \<open>Properties\<close>


text \<open>
  C7.  Whatever a client has sent, statement ids are never 0 (and at least 3 for an OCI client,
  a lenient client always sees cursor 1), and as long as fewer than 65533 different statements
  have been prepared no two of them share an id.
\<close>

theorem statement_ids_distinct:
  assumes "runs E (new_session (oci E) n b ar cl) k s"
  shows "cursor_id s \<noteq> 0 \<and> 0 \<notin> ran (oci_cursor_ids s)
    \<and> (oci E \<longrightarrow> (\<forall>i \<in> ran (oci_cursor_ids s). 3 \<le> i))
    \<and> (\<not> oci E \<and> \<not> newer E \<longrightarrow> cursor_id s = 1)
    \<and> (few s \<longrightarrow> inj_on (oci_cursor_ids s) (statements s))"
  using runs_ids_ok [OF assms] by (simp add: ids_ok_def table_ok_def)

theorem statement_ids_distinct_witness:
  "\<exists>t. runs oci_env begin_session 1 t \<and> oci_cursor_ids t = [''BEGIN'' \<mapsto> 3] \<and> cursor_id t \<noteq> 0"
proof -
  obtain t where t: "serve_packet oci_env begin_session = (Inr True, t)" "oci_cursor_ids t = [''BEGIN'' \<mapsto> 3]"
    using serve_begin by blast
  have r: "runs oci_env begin_session 1 t" using runs_step [OF t(1) runs.start] by simp
  then have "runs oci_env (new_session (oci oci_env) (net begin_session) () [] []) 1 t"
    by (simp add: begin_session_def oci_env_def new_session_def)
  from statement_ids_distinct [OF this] r t(2) show ?thesis by blast
qed



end
