(* ===== verification/Streaming.thy ===== *)
theory Streaming
  imports Session_Loop Result_Stream
begin

text \<open>
  A result set travelling through a session: the Fetch handler of \<^verbatim>\<open>src/src/server.rs\<close> on top of
  any cursor that is a source of rows, down to the packets the client reads.
\<close>

section \<open>Requests and replies\<close>

lemma parse_fetch_frame: "parse_fetch_request (fetch_frame q c n) = Inr (ucast c, n)"
proof -
  let ?h = "[I16 0, I8 3, I8 5, I8 q]"
  have "fetch_frame q c n = put_items ?h [] @ write_ub4 c [] @ write_ub4 n []"
    by (simp add: fetch_frame_def write_prims be16_def)
  moreover have "skip_fields call_header (buf_at [] (put_items ?h [] @ r)) = (Inr (), buf_at ([] @ put_items ?h []) r)" for r
    using skip_items [of ?h "[]" r] by (simp add: call_header_def del: put_items_simps)
  moreover have "read_ub4 (buf_at pre (write_ub4 n [])) = (Inr n, buf_at (pre @ write_ub4 n []) [])" for pre
    using ub4.get_put [OF TrueI, of pre n "[]"] by simp
  ultimately show ?thesis
    by (simp add: parse_fetch_request_def run_reader_def from_slice_buf_at ub4.get_put [OF TrueI] del: put_items_simps)
qed

definition put_out :: "bytes \<Rightarrow> ('b, 'c) session \<Rightarrow> ('b, 'c) session" where
  "put_out bs s = s\<lparr>net := (net s)\<lparr>outbound := outbound (net s) @ bs\<rparr>\<rparr>"

lemma send_thin:
  "thin_net (net s) \<Longrightarrow> fits p \<Longrightarrow> send p s = (Inr (), put_out (data_frame p) s)"
  by (simp add: thin_net_def fits_def send_def on_net_def write_packet_def write_packet_flags_def
      needs_split_def emit_one_packet_def io_write_def put_out_def data_frame_def frame_header_def)

lemma race_quiet: "arrivals s = [] \<Longrightarrow> race_break E f s = f s"
  by (cases s) (simp add: race_break_def reading_def modify_def)

definition fetch_reply :: "('b, 'c) env \<Rightarrow> u8 \<Rightarrow> u16 \<Rightarrow> cells list \<Rightarrow> bool \<Rightarrow> bytes" where
  "fetch_reply E req_seq cid rows has_more =
     (if newer E then build_fetch_response_jdbc rows cid has_more req_seq
      else build_fetch_response rows cid has_more (completion E))"

text \<open>A session a thin client can talk to undisturbed.\<close>

definition quiet :: "('b, 'c) env \<Rightarrow> ('b, 'c) session \<Rightarrow> bool" where
  "quiet E s \<longleftrightarrow> \<not> oci E \<and> thin_net (net s) \<and> arrivals s = []"

lemma quiet_put_out [simp]: "quiet E (put_out bs s) = quiet E s"
  by (simp add: quiet_def put_out_def thin_net_def)

lemma put_out_simps [simp]:
  "cursors (put_out bs s) = cursors s" "backend_state (put_out bs s) = backend_state s"
  "arrivals (put_out bs s) = arrivals s" "outbound (net (put_out bs s)) = outbound (net s) @ bs"
  "cursor_of (put_out bs s) = cursor_of s"
  by (simp_all add: put_out_def cursor_of_def fun_eq_iff)

section \<open>One Fetch\<close>

text \<open>What a Fetch leaves of the session: the reply written, the cursor moved on or finished.\<close>

definition after_fetch :: "('b, 'c) env \<Rightarrow> u16 \<Rightarrow> u8 \<Rightarrow> cells list \<Rightarrow> 'c \<Rightarrow> 'b \<Rightarrow> ('b, 'c) session \<Rightarrow> ('b, 'c) session" where
  "after_fetch E cid q rows c b s =
     (let t = put_out (data_frame (fetch_reply E q cid rows (\<not> is_exhausted (ops E) c)))
        ((store_cursor cid c (s\<lparr>backend_state := b\<rparr>))\<lparr>oci_rows_sent := saturating_add64 (oci_rows_sent s) (length rows)\<rparr>)
      in if is_exhausted (ops E) c then close_cursor E cid t else t)"

lemma handle_fetch_pulls:
  assumes q: "quiet E s" and c: "cursor_of s cid = Some c0" and cid: "cid \<noteq> 0"
    and pull: "next_batch (ops E) (fetch_batch E n) (c0, backend_state s) = (Inr rows, (c, b))"
    and fit: "fits (fetch_reply E q cid rows (\<not> is_exhausted (ops E) c))"
  shows "handle_fetch E (fetch_frame q (ucast cid) n) q s = (Inr (), after_fetch E cid q rows c b s)"
proof -
  have id: "ucast (ucast cid :: u32) = cid"
    by (rule bit_word_eqI) (simp add: bit_simps)
  have t: "fetch_target E (fetch_frame q (ucast cid) n) s = (cid, n)"
    using q cid by (simp add: fetch_target_def quiet_def parse_fetch_frame id)
  let ?t = "(store_cursor cid c (s\<lparr>backend_state := b\<rparr>))\<lparr>oci_rows_sent := saturating_add64 (oci_rows_sent s) (length rows)\<rparr>"
  have "thin_net (net ?t)" using q by (simp add: quiet_def store_cursor_def)
  from send_thin [OF this fit] q
  have w: "send_fetched E q (cursor_columns (ops E) c) rows n cid (\<not> is_exhausted (ops E) c) ?t
      = (Inr (), put_out (data_frame (fetch_reply E q cid rows (\<not> is_exhausted (ops E) c))) ?t)"
    by (auto simp: send_fetched_def reading_def fetch_reply_def quiet_def)
  have p: "race_break E (pull_batch E (fetch_batch E n) c0) s = (Inr (Inr rows, c), s\<lparr>backend_state := b\<rparr>)"
    using q pull by (simp add: race_quiet quiet_def pull_batch_def)
  have r: "oci_rows_sent (store_cursor cid c (s\<lparr>backend_state := b\<rparr>)) = oci_rows_sent s"
    by (simp add: store_cursor_def)
  show ?thesis
    unfolding handle_fetch_def reading_def t prod.case c option.case
    by (simp add: p modify_def w r after_fetch_def)
qed

lemma after_fetch_state:
  "quiet E s \<Longrightarrow> quiet E (after_fetch E cid q rows c b s)"
  "outbound (net (after_fetch E cid q rows c b s))
     = outbound (net s) @ data_frame (fetch_reply E q cid rows (\<not> is_exhausted (ops E) c))"
  "cursor_of (after_fetch E cid q rows c b s) j =
     (if j = cid then if is_exhausted (ops E) c then None else Some c else cursor_of s j)"
  "\<not> is_exhausted (ops E) c \<Longrightarrow> backend_state (after_fetch E cid q rows c b s) = b"
  by (simp_all add: after_fetch_def Let_def close_cursor_def finish_one_def quiet_def drop_cursor_def
      store_cursor_def put_out_def thin_net_def cursor_of_def update_conv' delete_conv')

section \<open>A whole result set\<close>

text \<open>
  The requests of a client that fetches a cursor batch by batch, each with its sequence byte
  and row count, as long as the cursor is open; the replies are the packets that came back.
\<close>

fun fetches :: "('b, 'c) env \<Rightarrow> u16 \<Rightarrow> (u8 \<times> u32) list \<Rightarrow> ('b, 'c) session \<Rightarrow> bytes list \<times> ('b, 'c) session" where
  "fetches E cid [] s = ([], s)"
| "fetches E cid ((q, n) # ns) s =
     (if cursor_of s cid = None then ([], s)
      else
        let t = snd (handle_fetch E (fetch_frame q (ucast cid) n) q s);
            reply = drop 8 (drop (length (outbound (net s))) (outbound (net t)));
            (replies, u) = fetches E cid ns t
        in (reply # replies, u))"

text \<open>A client reads a reply: the rows, and whether the server has more.\<close>

definition read_reply :: "('b, 'c) env \<Rightarrow> nat \<Rightarrow> nat \<Rightarrow> bytes \<Rightarrow> error + cells list \<times> bool" where
  "read_reply E width k p = map_ok (\<lambda>(rows, e). (rows, ce_code e \<noteq> 1403))
     (if newer E then client_fetch row_header_layout_jdbc width jdbc_layout k p
      else client_fetch row_header_layout width (if completion E then strict_layout else fetch_layout) k p)"

lemma data_frame_payload: "drop 8 (data_frame p) = p"
proof -
  have "length (frame_header Large Data 0 (8 + length p)) = 8" by (simp add: frame_header_def)
  then show ?thesis by (simp add: data_frame_def)
qed

lemma read_reply_rows:
  assumes "list_all (\<lambda>row. length row = width) rows" "2 * length rows + 1 < k"
  shows "read_reply E width k (fetch_reply E q cid rows has_more) = Inr (rows, has_more)"
  using fetch_responses_read [OF assms, of "completion E" cid has_more q]
  by (simp add: read_reply_def fetch_reply_def fetch_end_def)

lemma fetch_batch_pos: "0 < fetch_batch E n"
proof -
  have "0 < unat (clamp 1 h n :: u32)" for h
  proof -
    have "(1 :: u32) \<le> clamp 1 h n" by (simp add: clamp_def)
    then have "1 \<le> unat (clamp 1 h n :: u32)" by (simp add: word_le_nat_alt)
    then show ?thesis by simp
  qed
  then show ?thesis by (simp add: fetch_batch_def)
qed

text \<open>One request of the loop.\<close>

lemma fetches_step:
  assumes "quiet E s" "cursor_of s cid = Some c0" "cid \<noteq> 0"
    and "next_batch (ops E) (fetch_batch E n) (c0, backend_state s) = (Inr rows, (c, b))"
    and "fits (fetch_reply E q cid rows (\<not> is_exhausted (ops E) c))"
    and "fetches E cid ns (after_fetch E cid q rows c b s) = (replies, u)"
  shows "fetches E cid ((q, n) # ns) s = (fetch_reply E q cid rows (\<not> is_exhausted (ops E) c) # replies, u)"
  using assms(2,6) handle_fetch_pulls [OF assms(1-5)]
  by (simp add: after_fetch_state(2) data_frame_payload)

lemma fetches_rows:
  assumes src: "row_source (next_batch (ops E)) pending (\<lambda>(c, _). is_exhausted (ops E) c) ready"
  shows "quiet E s \<Longrightarrow> cid \<noteq> 0 \<Longrightarrow> cursor_of s cid = Some c \<Longrightarrow> ready (c, backend_state s) \<Longrightarrow>
    (\<And>m j hm q. fits (fetch_reply E q cid (take j (drop m (pending (c, backend_state s)))) hm)) \<Longrightarrow>
    list_all (\<lambda>row. length row = width) (pending (c, backend_state s)) \<Longrightarrow>
    2 * length (pending (c, backend_state s)) + 1 < k \<Longrightarrow>
    length (pending (c, backend_state s)) < sum_list (map (fetch_batch E \<circ> snd) ns) \<Longrightarrow>
    \<exists>parts replies t. fetches E cid ns s = (replies, t)
      \<and> map (read_reply E width k) replies = map Inr parts
      \<and> concat (map fst parts) = pending (c, backend_state s)
      \<and> parts \<noteq> [] \<and> map snd parts = replicate (length parts - 1) True @ [False]
      \<and> cursor_of t cid = None"
proof (induction ns arbitrary: s c)
  case Nil
  then show ?case by simp
next
  case (Cons qn ns)
  obtain q n where qn: "qn = (q, n)" by force
  let ?P = "pending (c, backend_state s)" and ?m = "fetch_batch E n"
  obtain c1 b1 where pull: "next_batch (ops E) ?m (c, backend_state s) = (Inr (take ?m ?P), (c1, b1))"
    and P1: "pending (c1, b1) = drop ?m ?P" and r1: "ready (c1, b1)"
    and last: "length ?P < ?m \<Longrightarrow> is_exhausted (ops E) c1"
    using row_source.pull_rows [OF src Cons.prems(4), of ?m] by auto
  let ?t = "after_fetch E cid q (take ?m ?P) c1 b1 s" and ?more = "\<not> is_exhausted (ops E) c1"
  have fit: "fits (fetch_reply E q cid (take ?m ?P) ?more)" using Cons.prems(5) [of q ?m 0] by simp
  note step = fetches_step [OF Cons.prems(1,3,2) pull fit]
  note after = after_fetch_state [where E = E and s = s and cid = cid and q = q and rows = "take ?m ?P" and c = c1 and b = b1]
  have "list_all (\<lambda>row. length row = width) (take ?m ?P)" "2 * length (take ?m ?P) + 1 < k"
    using Cons.prems(6,7) by (auto simp: list_all_iff dest: in_set_takeD)
  note reply = read_reply_rows [OF this, of E q cid ?more]
  show ?case
  proof (cases "is_exhausted (ops E) c1")
    case True
    then have "pending (c1, b1) = []" using row_source.at_end_empty [OF src r1] by simp
    with P1 have all: "take ?m ?P = ?P" by simp
    have "cursor_of ?t cid = None" using True after(3) by simp
    moreover from this have "fetches E cid ns ?t = ([], ?t)" by (cases ns) auto
    note step [OF this]
    moreover have "read_reply E width k (fetch_reply E q cid ?P False) = Inr (?P, False)"
      using reply True all by simp
    ultimately show ?thesis
      unfolding qn using True all by (intro exI [of _ "[(?P, False)]"]) auto
  next
    case False
    have t: "quiet E ?t" "cursor_of ?t cid = Some c1" "backend_state ?t = b1"
      using Cons.prems(1) False after by auto
    have m: "?m \<le> length ?P" using last False by force
    obtain parts replies u where i: "fetches E cid ns ?t = (replies, u)"
      "map (read_reply E width k) replies = map Inr parts" "concat (map fst parts) = drop ?m ?P"
      "parts \<noteq> []" "map snd parts = replicate (length parts - 1) True @ [False]" "cursor_of u cid = None"
    proof -
      have "\<exists>parts replies u. fetches E cid ns ?t = (replies, u)
          \<and> map (read_reply E width k) replies = map Inr parts
          \<and> concat (map fst parts) = pending (c1, backend_state ?t)
          \<and> parts \<noteq> [] \<and> map snd parts = replicate (length parts - 1) True @ [False]
          \<and> cursor_of u cid = None"
      proof (rule Cons.IH [OF t(1) Cons.prems(2) t(2)])
        show "ready (c1, backend_state ?t)" using r1 t(3) by simp
        show "fits (fetch_reply E q' cid (take j (drop i (pending (c1, backend_state ?t)))) hm)" for i j hm q'
          using Cons.prems(5) [of q' j "i + ?m" hm] t(3) P1 by simp
        show "list_all (\<lambda>row. length row = width) (pending (c1, backend_state ?t))"
          using Cons.prems(6) t(3) P1 by (auto simp: list_all_iff dest: in_set_dropD)
        show "2 * length (pending (c1, backend_state ?t)) + 1 < k" using Cons.prems(7) t(3) P1 by simp
        show "length (pending (c1, backend_state ?t)) < sum_list (map (fetch_batch E \<circ> snd) ns)"
          using Cons.prems(8) t(3) P1 m qn by (simp add: comp_def)
      qed
      then show thesis using that t(3) P1 by auto
    qed
    have len: "replicate (length parts) True = True # replicate (length parts - 1) True"
      using i(4) by (cases parts) auto
    show ?thesis
      unfolding qn using step [OF i(1)] reply False i(2-6) len
      by (intro exI [of _ "(take ?m ?P, True) # parts"]) auto
  qed
qed

section \<open>Properties\<close>

text \<open>
  C3.  A thin or JDBC client that fetches an open cursor batch by batch, with whatever row
  counts, reads every row the cursor had left, once and in order: each reply but the last one
  reached says that more rows follow, that one says that there are none, and the server has
  closed the cursor by then.  The backend's cursor is any source of rows.
\<close>

theorem fetched_rows_complete:
  assumes "row_source (next_batch (ops E)) pending (\<lambda>(c, _). is_exhausted (ops E) c) ready"
    and "quiet E s" and "cid \<noteq> 0" and "cursor_of s cid = Some c" and "ready (c, backend_state s)"
    and "\<And>m j hm q. fits (fetch_reply E q cid (take j (drop m (pending (c, backend_state s)))) hm)"
    and "list_all (\<lambda>row. length row = width) (pending (c, backend_state s))"
    and "2 * length (pending (c, backend_state s)) + 1 < k"
    and "length (pending (c, backend_state s)) < sum_list (map (fetch_batch E \<circ> snd) requests)"
  shows "\<exists>parts replies t. fetches E cid requests s = (replies, t)
    \<and> map (read_reply E width k) replies = map Inr parts
    \<and> concat (map fst parts) = pending (c, backend_state s)
    \<and> parts \<noteq> [] \<and> map snd parts = replicate (length parts - 1) True @ [False]
    \<and> cursor_of t cid = None"
  by (rule fetches_rows [OF assms])

definition maria_env :: "(unit, maria_cursor) env" where
  "maria_env = \<lparr>oci = False, newer = False, completion = True, no_list = False, kind = MariaDbBackend,
     oracle_version = V19c, translate = Inr,
     ops = \<lparr>open_cursor = (\<lambda>_ _ _ s. (Inl (Io []), s)), execute_simple = (\<lambda>_ _ s. (Inr 0, s)),
       execute_ddl = (\<lambda>_ _ s. (Inr 0, s)), execute_returning = (\<lambda>_ _ s. (Inr (0, []), s)),
       cancel_statement = (\<lambda>s. s), cursor_columns = mc_columns, is_exhausted = maria_exhausted,
       next_batch = (\<lambda>n. on_fst (maria_next_batch n)), finish_cursor = apfst maria_finish\<rparr>\<rparr>"

theorem fetched_rows_complete_witness:
  "\<exists>parts replies t.
     fetches maria_env 1 [(7, 1), (8, 20)]
       ((new_session False (conn Large False [] []) () [] [])
          \<lparr>cursors := [(1, \<lparr>mc_columns = [], mc_rows = [[None]], mc_offset = 0\<rparr>)]\<rparr>) = (replies, t)
     \<and> map (read_reply maria_env 1 9) replies = map Inr parts \<and> concat (map fst parts) = [[None]]"
proof -
  let ?c = "\<lparr>mc_columns = [], mc_rows = [[None]], mc_offset = 0\<rparr>"
  let ?s = "(new_session False (conn Large False [] []) () [] [])\<lparr>cursors := [(1, ?c)]\<rparr>"
  let ?pending = "maria_pending \<circ> fst :: maria_cursor \<times> unit \<Rightarrow> _"
  have src: "row_source (next_batch (ops maria_env)) ?pending (\<lambda>(c, _). is_exhausted (ops maria_env) c) (maria_ok \<circ> fst)"
    using maria_source by (simp add: maria_env_def)
  have P: "?pending (?c, backend_state ?s) = [[None]]" by (simp add: maria_pending_def)
  have small: "fits p" if "length p < 1000" for p :: bytes
    using that by (simp add: fits_def MAX_TNS_PACKET_SIZE_def)
  have sizes: "length (build_fetch_response [] 1 True True) < 1000" "length (build_fetch_response [] 1 False True) < 1000"
    "length (build_fetch_response [[None]] 1 True True) < 1000" "length (build_fetch_response [[None]] 1 False True) < 1000"
    by code_simp+
  have part: "take j (drop m [[None]]) \<in> {[], [[None :: bytes option]]}" for j m :: nat
    by (cases j; cases m) auto
  have fit: "fits (fetch_reply maria_env q 1 (take j (drop m (?pending (?c, backend_state ?s)))) hm)" for j m hm q
    unfolding P using part [of j m] sizes small by (cases hm) (auto simp: fetch_reply_def maria_env_def)
  have quiet: "quiet maria_env ?s"
    by (simp add: quiet_def maria_env_def thin_net_def new_session_def conn_def)
  have cur: "cursor_of ?s 1 = Some ?c" by (simp add: cursor_of_def)
  have ready: "(maria_ok \<circ> fst) (?c, backend_state ?s)" by (simp add: maria_ok_def)
  have width: "list_all (\<lambda>row. length row = 1) (?pending (?c, backend_state ?s))"
    "2 * length (?pending (?c, backend_state ?s)) + 1 < 9" unfolding P by simp_all
  have enough: "length (?pending (?c, backend_state ?s)) < sum_list (map (fetch_batch maria_env \<circ> snd) [(7 :: u8, 1), (8, 20)])"
    using fetch_batch_pos [of maria_env 1] fetch_batch_pos [of maria_env 20] unfolding P by simp
  have one: "(1 :: u16) \<noteq> 0" by simp
  show ?thesis
    using fetched_rows_complete [OF src quiet one cur ready fit width enough] unfolding P by blast
qed

end
