(* ===== verification/Session_Replies.thy ===== *)
theory Session_Replies
  imports Streaming
begin

text \<open>
  What the handlers of \<^verbatim>\<open>src/src/server.rs\<close> write, and what a transaction end does to the
  cursors.  \<open>replies E k f\<close> counts the Data packets of a call that returns, on a session of a
  client that does not use the OCI dialect.
\<close>

section \<open>What a call writes\<close>

text \<open>A whole packet as it is written, and the acknowledgements of \<open>n\<close> breaks.\<close>

definition packet_frame :: "sdu_mode \<Rightarrow> packet_type \<Rightarrow> bytes \<Rightarrow> bytes" where
  "packet_frame m t p = frame_header m t 0 (8 + length p) @ p"

definition ack_frames :: "sdu_mode \<Rightarrow> nat \<Rightarrow> bytes" where
  "ack_frames m n = concat (replicate n (packet_frame m Marker [0x02, 0x00, 0x02]))"

definition direct :: "('b, 'c) env \<Rightarrow> ('b, 'c) session \<Rightarrow> bool" where
  "direct E s \<longleftrightarrow> \<not> oci E \<and> \<not> oci_client (net s)"

text \<open>Acknowledgements come first, no more of them than packets that arrived meanwhile.\<close>

definition written :: "nat \<Rightarrow> ('b, 'c) session \<Rightarrow> ('b, 'c) session \<Rightarrow> bool" where
  "written k s t \<longleftrightarrow> oci_client (net t) = oci_client (net s) \<and> sdu (net t) = sdu (net s)
     \<and> (\<exists>n ps. length ps = k \<and> n + sum_list (arrivals t) \<le> sum_list (arrivals s)
        \<and> outbound (net t) = outbound (net s) @ ack_frames (sdu (net s)) n
            @ concat (map (packet_frame (sdu (net s)) Data) ps))"

definition replies :: "('b, 'c) env \<Rightarrow> nat \<Rightarrow> ('b, 'c, 'a) call \<Rightarrow> bool" where
  "replies E k f \<longleftrightarrow> (\<forall>s a t. direct E s \<longrightarrow> f s = (Inr a, t) \<longrightarrow> written k s t)"

definition silent :: "('b, 'c, 'a) call \<Rightarrow> bool" where
  "silent f \<longleftrightarrow> (\<forall>s. net (snd (f s)) = net s \<and> arrivals (snd (f s)) = arrivals s)"

named_theorems replies_intros

lemma ack_frames_add: "ack_frames m j @ ack_frames m k = ack_frames m (j + k)"
  by (simp add: ack_frames_def replicate_add)

lemma ack_frames_0 [simp]: "ack_frames m 0 = []"
  by (simp add: ack_frames_def)

lemma written_refl: "net t = net s \<Longrightarrow> arrivals t = arrivals s \<Longrightarrow> written 0 s t"
  unfolding written_def by (intro conjI exI [of _ 0] exI [of _ "[]"]) simp_all

lemma written_trans: "written 0 s t \<Longrightarrow> written k t u \<Longrightarrow> written k s u"
proof -
  assume "written 0 s t" "written k t u"
  then obtain m n qs where "oci_client (net u) = oci_client (net s)" "sdu (net u) = sdu (net s)" "length qs = k"
    "m + sum_list (arrivals t) \<le> sum_list (arrivals s)" "n + sum_list (arrivals u) \<le> sum_list (arrivals t)"
    "outbound (net u) = outbound (net s) @ (ack_frames (sdu (net s)) m @ ack_frames (sdu (net s)) n)
       @ concat (map (packet_frame (sdu (net s)) Data) qs)"
    unfolding written_def by auto
  then show ?thesis
    unfolding written_def ack_frames_add by (intro conjI exI [of _ "m + n"] exI [of _ qs]) simp_all
qed

lemma written_direct: "written k s t \<Longrightarrow> direct E t = direct E s"
  by (simp add: written_def direct_def)

lemma repliesD: "replies E k f \<Longrightarrow> direct E s \<Longrightarrow> f s = (Inr a, t) \<Longrightarrow> written k s t"
  unfolding replies_def by blast

lemma replies_ok [replies_intros]: "replies E 0 (ok a)"
  by (simp add: replies_def written_refl)

lemma replies_fail [replies_intros]: "replies E k (fail e)"
  by (simp add: replies_def)

lemma replies_then [replies_intros]:
  assumes "replies E 0 f" "\<And>a. replies E k (g a)"
  shows "replies E k (let_ok f g)"
  unfolding replies_def
proof (intro allI impI)
  fix s b u
  assume q: "direct E s" and r: "let_ok f g s = (Inr b, u)"
  obtain a t where f: "f s = (Inr a, t)" and g: "g a t = (Inr b, u)"
    using r by (rule let_ok_InrE)
  have "written 0 s t" using assms(1) q f by (rule repliesD)
  moreover from this have "written k t u" using repliesD [OF assms(2) _ g] q written_direct by blast
  ultimately show "written k s u" by (rule written_trans)
qed

lemma silentD: "silent f \<Longrightarrow> f s = (r, t) \<Longrightarrow> net t = net s \<and> arrivals t = arrivals s"
  unfolding silent_def by (metis snd_conv)

text \<open>Silent steps after the reply.\<close>

lemma replies_before:
  assumes "replies E k f" "\<And>a. silent (g a)"
  shows "replies E k (let_ok f g)"
  unfolding replies_def
proof (intro allI impI)
  fix s b u
  assume q: "direct E s" and r: "let_ok f g s = (Inr b, u)"
  obtain a t where f: "f s = (Inr a, t)" and g: "g a t = (Inr b, u)"
    using r by (rule let_ok_InrE)
  from repliesD [OF assms(1) q f] silentD [OF assms(2) g] show "written k s u"
    by (simp add: written_def)
qed

lemma silent_modify: "(\<And>s. net (f s) = net s \<and> arrivals (f s) = arrivals s) \<Longrightarrow> silent (modify f)"
  by (simp add: silent_def modify_def)

lemma silent_ok: "silent (ok a)"
  by (simp add: silent_def)

lemma replies_silent: "silent f \<Longrightarrow> replies E 0 f"
  unfolding replies_def by (blast intro: written_refl dest: silentD)

lemma replies_reading [replies_intros]: "(\<And>s. replies E k (f s)) \<Longrightarrow> replies E k (reading f)"
  unfolding replies_def reading_def by blast

lemma replies_modify [replies_intros]:
  "(\<And>s. net (f s) = net s \<and> arrivals (f s) = arrivals s) \<Longrightarrow> replies E 0 (modify f)"
  by (intro replies_silent silent_modify)

lemma replies_backend [replies_intros]: "replies E 0 (on_backend f)" "replies E 0 (pull_batch E n c)" "replies E 0 tick"
  by (auto simp: silent_def on_backend_def pull_batch_def tick_def split: prod.splits intro!: replies_silent)

lemma write_whole:
  assumes "write_packet t p n = (Inr a, n')" "\<not> oci_client n"
  shows "n' = n\<lparr>outbound := outbound n @ packet_frame (sdu n) t p\<rparr>"
  using assms
  by (auto simp: write_packet_def write_packet_flags_def needs_split_def emit_one_packet_def io_write_def
      packet_frame_def frame_header_def Let_def split: if_splits sdu_mode.splits option.splits)

lemma replies_send [replies_intros]: "replies E 1 (send p)"
  unfolding replies_def
proof (intro allI impI)
  fix s a t
  assume q: "direct E s" and "send p s = (Inr a, t)"
  then have "write_packet Data p (net s) = (Inr a, net t)" "arrivals t = arrivals s"
    by (auto simp: send_def on_net_def split: prod.splits)
  with q write_whole show "written 1 s t"
    unfolding written_def direct_def by (intro conjI exI [of _ 0] exI [of _ "[p]"]) fastforce+
qed

subsection \<open>Breaks\<close>

text \<open>A step that reads and does not write.\<close>

definition listens :: "'a net \<Rightarrow> bool" where
  "listens f \<longleftrightarrow> (\<forall>n. case snd (f n) of m \<Rightarrow>
     outbound m = outbound n \<and> sdu m = sdu n \<and> oci_client m = oci_client n)"

named_theorems listens_intros

lemma listensD: "listens f \<Longrightarrow> f n = (r, m) \<Longrightarrow> outbound m = outbound n \<and> sdu m = sdu n \<and> oci_client m = oci_client n"
  unfolding listens_def by (metis snd_conv)

lemma listens_basic [listens_intros]: "listens (ok a)" "listens (fail e)" "listens (read_exact k)"
  by (simp_all add: listens_def read_exact_def)

lemma listens_let_ok [listens_intros]:
  assumes "listens f" "\<And>a. listens (g a)"
  shows "listens (let_ok f g)"
  unfolding listens_def
proof
  fix n
  obtain r m where f: "f n = (r, m)" by force
  show "case snd (let_ok f g n) of u \<Rightarrow> outbound u = outbound n \<and> sdu u = sdu n \<and> oci_client u = oci_client n"
    using listensD [OF assms(1) f] assms(2) f by (cases r) (auto simp: listens_def)
qed

lemma listens_more [listens_intros]: "listens (read_more buf k)" "listens (complete_ub buf off)"
  unfolding read_more_def complete_ub_def by (auto simp: Let_def intro!: listens_intros simp del: let_ok_apply)

lemma listens_complete [listens_intros]: "listens (complete_fetch t p)"
proof -
  have "listens (let_ok (complete_ub p 5) (\<lambda>(p, off). let_ok (complete_ub p off) (\<lambda>(p, _). ok p)))"
    by (auto intro!: listens_intros simp del: let_ok_apply split: prod.split)
  then show ?thesis by (simp add: listens_def complete_fetch_def)
qed

lemma listens_read_packet [listens_intros]: "listens read_packet"
proof -
  let ?body = "\<lambda>header m. let len = fst (packet_length header m) in
     (if \<not> (8 \<le> len \<and> len \<le> MAX_TNS_PACKET_SIZE)
      then fail (Failed (Protocol (''invalid tns packet length '' @ show_nat len)))
      else (case packet_type_of (header ! 4) of
          Inl e \<Rightarrow> fail (Failed e)
        | Inr t \<Rightarrow>
            let_ok (if 0 < len - 8 then read_exact (len - 8) else ok []) (\<lambda>p. let_ok (complete_fetch t p)
              (\<lambda>p. ok \<lparr>packet_type = t, pflags = header ! 5, payload = p\<rparr>))))"
  have "listens (?body header m)" for header m
    unfolding Let_def by (auto intro!: listens_intros simp del: let_ok_apply split: sum.split)
  then have "listens (\<lambda>n. ?body header (sdu n) n)" for header
    unfolding listens_def by blast
  then have "listens (let_ok (read_exact 8) (\<lambda>header n. ?body header (sdu n) n))"
    by (intro listens_let_ok listens_basic)
  then show ?thesis by (simp only: read_packet_def Let_def)
qed

lemma mid_written: "direct E s \<Longrightarrow> mid_statement E n s = (Inr a, t) \<Longrightarrow>
    oci_client (net t) = oci_client (net s) \<and> sdu (net t) = sdu (net s) \<and> arrivals t = arrivals s
    \<and> (\<exists>k \<le> n. outbound (net t) = outbound (net s) @ ack_frames (sdu (net s)) k)"
proof (induction n arbitrary: s)
  case (Suc n)
  obtain r m where r: "read_packet (net s) = (r, m)" by force
  let ?u = "s\<lparr>net := m\<rparr>"
  from listensD [OF listens_read_packet r]
  have m: "outbound m = outbound (net s)" "sdu m = sdu (net s)" "oci_client m = oci_client (net s)" by auto
  show ?case
  proof (cases r)
    case (Inl e)
    with Suc.prems r m show ?thesis by (cases e) (auto simp: on_net_def intro!: exI [of _ 0])
  next
    case (Inr p)
    show ?thesis
    proof (cases "packet_type p = Marker")
      case True
      let ?v = "?u\<lparr>backend_state := cancel_statement (ops E) (backend_state s)\<rparr>"
      obtain x w where xw: "write_packet Marker [0x02, 0x00, 0x02] m = (x, w)" by force
      with Suc.prems r Inr True have run: "on_ok (\<lambda>_. mid_statement E n) x (?v\<lparr>net := w\<rparr>) = (Inr a, t)"
        by (simp add: on_net_def modify_def ack_marker_def)
      then obtain y where w: "write_packet Marker [0x02, 0x00, 0x02] m = (Inr y, w)"
        and rest: "mid_statement E n (?v\<lparr>net := w\<rparr>) = (Inr a, t)"
        using xw by (cases x) simp_all
      have o: "w = m\<lparr>outbound := outbound m @ packet_frame (sdu m) Marker [0x02, 0x00, 0x02]\<rparr>"
        using write_whole [OF w] m Suc.prems(1) by (simp add: direct_def)
      then have "direct E (?v\<lparr>net := w\<rparr>)" using m Suc.prems(1) by (simp add: direct_def)
      from Suc.IH [OF this rest] obtain k where k: "k \<le> n" "arrivals t = arrivals s" "sdu (net t) = sdu (net s)"
          "oci_client (net t) = oci_client (net s)"
          "outbound (net t) = outbound (net s) @ ack_frames (sdu (net s)) 1 @ ack_frames (sdu (net s)) k"
        using o m by (auto simp: ack_frames_def)
      then show ?thesis unfolding ack_frames_add by (intro conjI exI [of _ "1 + k"]) simp_all
    next
      case False
      with Suc.prems r Inr have "mid_statement E n ?u = (Inr a, t)" by (simp add: on_net_def)
      moreover have "direct E ?u" using m Suc.prems(1) by (simp add: direct_def)
      ultimately show ?thesis using Suc.IH [of ?u] m by (auto intro: le_SucI)
    qed
  qed
qed auto

lemma replies_race [replies_intros]:
  assumes "replies E k f"
  shows "replies E k (race_break E f)"
  unfolding replies_def
proof (intro allI impI)
  fix s a t
  assume q: "direct E s" and r: "race_break E f s = (Inr a, t)"
  let ?n = "case arrivals s of [] \<Rightarrow> 0 | n # _ \<Rightarrow> n" and ?s = "s\<lparr>arrivals := tl (arrivals s)\<rparr>"
  from r have "let_ok (mid_statement E ?n) (\<lambda>_. f) ?s = (Inr a, t)"
    by (simp add: race_break_def reading_def modify_def)
  then obtain b u where u: "mid_statement E ?n ?s = (Inr b, u)" and t: "f u = (Inr a, t)" by (rule let_ok_InrE)
  have "direct E ?s" using q by (simp add: direct_def)
  from mid_written [OF this u] have "written 0 s u"
    unfolding written_def by (cases "arrivals s") (auto intro: exI [of _ "[]"])
  moreover from this have "written k u t" using repliesD [OF assms _ t] q written_direct by blast
  ultimately show "written k s t" by (rule written_trans)
qed

subsection \<open>The handlers\<close>

lemma replies_no_oci: "(\<not> oci E \<Longrightarrow> replies E k f) \<Longrightarrow> replies E k f"
  unfolding replies_def direct_def by blast

lemma replies_error [replies_intros]: "replies E 1 (write_error_response E ora m pos q)"
  by (rule replies_no_oci) (simp add: write_error_response_def replies_send del: One_nat_def)

lemma replies_backend_error [replies_intros]: "replies E 1 (write_backend_error E e q)"
  unfolding write_backend_error_def by (auto simp del: One_nat_def intro!: replies_intros split: prod.split)

lemma replies_report [replies_intros]:
  "replies E 0 r \<Longrightarrow> (\<And>a. replies E 1 (f a)) \<Longrightarrow> replies E 1 (or_report E q r f)"
  unfolding or_report_def by (auto simp del: One_nat_def intro!: replies_intros split: sum.split)

lemma cursor_steps_net [simp]:
  "net (finish_one E c s) = net s" "arrivals (finish_one E c s) = arrivals s"
  "net (store_cursor i c s) = net s" "arrivals (store_cursor i c s) = arrivals s"
  "net (drop_cursor i s) = net s" "arrivals (drop_cursor i s) = arrivals s"
  by (simp_all add: finish_one_def store_cursor_def drop_cursor_def)

lemma close_net [simp]:
  "net (close_cursor E i s) = net s" "arrivals (close_cursor E i s) = arrivals s"
  "net (keep_or_finish E i c s) = net s" "arrivals (keep_or_finish E i c s) = arrivals s"
  by (simp_all add: close_cursor_def keep_or_finish_def split: option.split)

lemma fold_finish:
  "fold (\<lambda>(_, c). finish_one E c) cs s
     = s\<lparr>backend_state := fold (\<lambda>(_, c) b. snd (finish_cursor (ops E) (c, b))) cs (backend_state s)\<rparr>"
  by (induction cs arbitrary: s) (auto simp: finish_one_def)

lemma drain_net [simp]: "net (drain_cursors E s) = net s" "arrivals (drain_cursors E s) = arrivals s"
  by (simp_all add: drain_cursors_def fold_finish)

lemma remember_arrivals [simp]: "arrivals (remember E f q r s) = arrivals s"
  by (auto simp: remember_def reuse_id_def assign_id_def Let_def split: option.split)

lemma replies_returning [replies_intros]: "replies E 1 (run_returning E q r ri)"
  unfolding run_returning_def by (auto simp del: One_nat_def intro!: replies_intros split: sum.split)

lemma replies_ack [replies_intros]: "replies E 1 (send_ack E d t n q)"
  unfolding send_ack_def by (auto simp del: One_nat_def intro!: replies_intros)

lemma replies_one [replies_intros]: "replies E 0 (run_one E d t vs)"
  unfolding run_one_def by (auto simp del: One_nat_def intro!: replies_intros)

lemma replies_rows [replies_intros]: "replies E 0 (batch_rows E d src t rows acc)"
  by (induction rows arbitrary: acc) (auto simp del: One_nat_def let_ok_apply intro!: replies_intros split: sum.split )

lemma replies_send_rows: "replies E 1 (send_rows E f q cols rows m)"
  unfolding send_rows_def by (auto simp del: One_nat_def intro!: replies_intros)

lemma replies_query [replies_intros]: "replies E 1 (run_query E f q r bound t)"
  unfolding run_query_def
  by (auto simp del: One_nat_def intro!: replies_intros replies_before [OF replies_send_rows] silent_modify
      split: sum.split prod.split simp del: let_ok_apply)

lemma replies_request [replies_intros]: "replies E 1 (run_request E f q r)"
  unfolding run_request_def run_batch_def run_statement_def
  by (auto simp del: One_nat_def intro!: replies_intros split: sum.split option.split)

lemma replies_execute [replies_intros]: "replies E 1 (handle_execute E p f q)"
  unfolding handle_execute_def by (auto simp del: One_nat_def intro!: replies_intros split: sum.split)

lemma replies_fetched: "replies E 1 (send_fetched E q cols rows n cid m)"
  unfolding send_fetched_def by (auto simp del: One_nat_def intro!: replies_intros)

lemma replies_fetch [replies_intros]: "replies E 1 (handle_fetch E p q)"
  unfolding handle_fetch_def send_no_cursor_def
  by (auto simp del: One_nat_def intro!: replies_intros replies_before [OF replies_fetched] silent_modify silent_ok
      split: sum.split option.split prod.split simp del: let_ok_apply)

lemma replies_transaction [replies_intros]: "replies E 1 (handle_transaction E f q)"
  unfolding handle_transaction_def by (auto simp del: One_nat_def intro!: replies_intros)

lemma replies_other [replies_intros]: "replies E 1 (handle_oversion E)" "replies E 1 (handle_other E f q)"
  unfolding handle_oversion_def handle_other_def by (auto simp del: One_nat_def intro!: replies_intros split: dispatch.split)

lemma replies_function: "f \<noteq> 0x09 \<Longrightarrow> replies E 1 (handle_function E p f q)"
proof -
  have go_on: "replies E 1 h \<Longrightarrow> replies E 1 (let_ok h (\<lambda>_. ok True))" for h :: "('a, 'b, unit) call"
    by (simp add: replies_before silent_ok del: One_nat_def)
  show "f \<noteq> 0x09 \<Longrightarrow> replies E 1 (handle_function E p f q)"
    by (simp add: handle_function_def go_on replies_intros del: One_nat_def let_ok_apply)
qed

section \<open>Replies leave the database alone\<close>

named_theorems aside_intros

definition aside :: "('b, 'c, 'a) call \<Rightarrow> bool" where
  "aside f \<longleftrightarrow> (\<forall>s. cursors (snd (f s)) = cursors s \<and> backend_state (snd (f s)) = backend_state s)"

lemma asideD: "aside f \<Longrightarrow> cursors (snd (f s)) = cursors s" "aside f \<Longrightarrow> backend_state (snd (f s)) = backend_state s"
  unfolding aside_def by blast+

lemma aside_basic [aside_intros]: "aside (ok a)" "aside (fail e)" "aside (on_net g)" "aside (send p)" "aside tick"
  by (auto simp: aside_def on_net_def send_def tick_def split: prod.split)

lemma aside_let_ok [aside_intros]:
  assumes "aside f" "\<And>a. aside (g a)"
  shows "aside (let_ok f g)"
  unfolding aside_def
proof
  fix s
  obtain x t where f: "f s = (x, t)" by force
  then show "cursors (snd (let_ok f g s)) = cursors s \<and> backend_state (snd (let_ok f g s)) = backend_state s"
    using asideD [OF assms(1), of s] asideD [OF assms(2)] by (cases x) auto
qed

lemma aside_reading [aside_intros]: "(\<And>s. aside (f s)) \<Longrightarrow> aside (reading f)"
  by (simp add: aside_def reading_def)

lemma aside_replies [aside_intros]:
  "aside (write_error_response E ora m pos q)" "aside (write_backend_error E e q)" "aside (send_no_cursor E n)"
proof -
  show err: "aside (write_error_response E ora m pos q)" for ora m pos
    unfolding write_error_response_def by (auto intro!: aside_intros)
  have "aside (modify (\<lambda>s. s\<lparr>backend_errors_total := backend_errors_total s + 1\<rparr>))"
    by (simp add: aside_def modify_def)
  then show "aside (write_backend_error E e q)"
    unfolding write_backend_error_def by (auto intro!: aside_intros err split: prod.split)
  show "aside (send_no_cursor E n)"
    unfolding send_no_cursor_def by (auto intro!: aside_intros)
qed

lemma aside_ignore: "aside f \<Longrightarrow> aside (ignore_failure f)"
  by (simp add: aside_def ignore_failure_def)

text \<open>The database once every open cursor is finished, in the order of the table.\<close>

definition finished :: "('b, 'c) env \<Rightarrow> ('b, 'c) session \<Rightarrow> 'b" where
  "finished E s = fold (\<lambda>(_, c) b. snd (finish_cursor (ops E) (c, b))) (cursors s) (backend_state s)"

lemma drain_state: "cursors (drain_cursors E s) = []" "backend_state (drain_cursors E s) = finished E s"
  by (simp_all add: drain_cursors_def fold_finish finished_def)

lemma or_report_aside:
  assumes "\<And>a. aside (f a)"
  shows "cursors (snd (or_report E q (on_backend g) f s)) = cursors s
    \<and> backend_state (snd (or_report E q (on_backend g) f s)) = snd (g (backend_state s))"
proof -
  obtain x b where g: "g (backend_state s) = (x, b)" by force
  show ?thesis
    by (cases x) (simp_all add: or_report_def on_backend_def g asideD [OF assms] asideD [OF aside_replies(2)])
qed

lemma transaction_state:
  "cursors (snd (handle_transaction E f q s)) = []"
  "backend_state (snd (handle_transaction E f q s))
     = snd (execute_simple (ops E) (if f = 0x0e then ''COMMIT'' else ''ROLLBACK'') [] (finished E s))"
proof -
  have a: "aside (if oci E then send build_txn_response_oci
      else if newer E then send (build_dml_response_jdbc 0 q) else send (build_dml_response 0))"
    by (simp add: aside_intros)
  show "cursors (snd (handle_transaction E f q s)) = []"
    "backend_state (snd (handle_transaction E f q s))
     = snd (execute_simple (ops E) (if f = 0x0e then ''COMMIT'' else ''ROLLBACK'') [] (finished E s))"
    unfolding handle_transaction_def by (simp_all add: modify_def or_report_aside [OF a] drain_state)
qed

lemma logoff_state:
  "cursors (snd (handle_logoff E q s)) = []" "backend_state (snd (handle_logoff E q s)) = finished E s"
proof -
  have "aside (ignore_failure (send p))" for p
    by (simp add: aside_intros aside_ignore)
  note still = asideD [OF this]
  show "cursors (snd (handle_logoff E q s)) = []" "backend_state (snd (handle_logoff E q s)) = finished E s"
    unfolding handle_logoff_def by (simp_all add: modify_def drain_state still)
qed

lemma fetch_without_cursor:
  assumes "cursors s = []"
  shows "backend_state (snd (handle_fetch E p q s)) = backend_state s"
proof -
  obtain cid n where t: "fetch_target E p s = (cid, n)" by force
  have "cursor_of s i = None" for i using assms by (simp add: cursor_of_def)
  with t show ?thesis by (simp add: handle_fetch_def reading_def asideD(2) [OF aside_replies(3)])
qed

section \<open>Properties\<close>


definition ping_env :: "(unit, unit) env" where
  "ping_env = \<lparr>oci = False, newer = False, completion = True, no_list = False, kind = PostgresBackend,
     oracle_version = V19c, translate = Inr,
     ops = \<lparr>open_cursor = (\<lambda>_ _ _ s. (Inr (), s)), execute_simple = (\<lambda>_ _ s. (Inr 0, s)),
       execute_ddl = (\<lambda>_ _ s. (Inr 0, s)), execute_returning = (\<lambda>_ _ s. (Inr (0, []), s)),
       cancel_statement = (\<lambda>s. s), cursor_columns = (\<lambda>_. []), is_exhausted = (\<lambda>_. True),
       next_batch = (\<lambda>_ s. (Inr [], s)), finish_cursor = (\<lambda>s. s)\<rparr>\<rparr>"


text \<open>
  C18.  COMMIT, ROLLBACK and the logoff end every cursor of the session: the cursors are
  finished one after the other, in the order of the table, before the transaction statement
  runs, whatever it returns and whether the reply can be written; no cursor stays open, so a
  Fetch that comes later never reaches the database.
\<close>

theorem transaction_end_closes_cursors:
  "(let t = snd (handle_transaction E func_code req_seq s) in
      cursors t = []
      \<and> backend_state t = snd (execute_simple (ops E)
          (if func_code = 0x0e then ''COMMIT'' else ''ROLLBACK'') [] (finished E s))
      \<and> backend_state (snd (handle_fetch E p q t)) = backend_state t)
   \<and> (let t = snd (handle_logoff E req_seq s) in cursors t = [] \<and> backend_state t = finished E s)"
  by (simp add: Let_def transaction_state logoff_state fetch_without_cursor)

end
