(* ===== verification/Negotiation.thy ===== *)
theory Negotiation
  imports Session_Frame Profile
begin

text \<open>
  The exchange before authentication in \<open>handle_connection\<close> of \<^verbatim>\<open>src/src/server.rs\<close>: CONNECT,
  RESEND and ACCEPT, then the messages the client negotiates its dialect with, up to its first
  function call.  The recorded DataTypes reply of the OCI dialect is the argument \<open>recorded\<close>.
\<close>

section \<open>CONNECT and ACCEPT\<close>

definition with_result :: "error + 'a \<Rightarrow> 'a net" where
  "with_result r = (case r of Inl e \<Rightarrow> fail (Failed e) | Inr a \<Rightarrow> ok a)"

definition update_net :: "(tns \<Rightarrow> tns) \<Rightarrow> unit net" where
  "update_net f n = (Inr (), f n)"

definition expect_packet :: "packet_type \<Rightarrow> string \<Rightarrow> packet net" where
  "expect_packet t msg = let_ok read_packet (\<lambda>p.
     if packet_type p \<noteq> t then fail (Failed (Protocol msg)) else ok p)"

text \<open>\<^verbatim>\<open>connect.payload.get(4..6)\<close>\<close>

definition service_options :: "bytes \<Rightarrow> u16" where
  "service_options p = (if 6 \<le> length p then from_be [p ! 4, p ! 5] else 0)"

definition wants_resend :: "bytes \<Rightarrow> bool" where
  "wants_resend p \<longleftrightarrow> service_options p AND 0x0040 \<noteq> 0"

definition accept_connect :: "unit net" where
  "accept_connect =
     let_ok (expect_packet Connect ''expected CONNECT packet'') (\<lambda>first.
     let_ok (if wants_resend (payload first)
         then let_ok (write_packet Resend []) (\<lambda>_.
              expect_packet Connect ''expected CONNECT packet after RESEND'')
         else ok first) (\<lambda>connect.
     let_ok (with_result (parse_connect_payload (payload connect))) (\<lambda>(desired, minimum, descriptor).
     let_ok (write_packet Accept (build_accept_response (clamp 300 319 desired))) (\<lambda>_.
     update_net (\<lambda>n. n\<lparr>sdu := Large\<rparr>)))))"

section \<open>The negotiation loop\<close>

record nego =
  na_done :: bool
  proto_req :: protocol_request
  client_ccaps :: bytes
  client_rcaps :: bytes

definition fresh_nego :: nego where
  "fresh_nego = \<lparr>na_done = False, proto_req = \<lparr>version = 0, accepted_versions = [], banner = []\<rparr>,
     client_ccaps = [], client_rcaps = []\<rparr>"

definition profile_of :: "nego \<Rightarrow> wire_profile" where
  "profile_of g = new_profile (na_done g) (proto_req g) (client_ccaps g) (client_rcaps g)"

text \<open>The value: what is negotiated so far, and whether the loop goes on.\<close>

definition negotiate_protocol :: "nego \<Rightarrow> bytes \<Rightarrow> (nego \<times> bool) net" where
  "negotiate_protocol g p =
     let_ok (with_result (parse_protocol_request p)) (\<lambda>req.
     let thick = probably_oci_at_protocol (new_profile (na_done g) req [] []) in
     let_ok (update_net (\<lambda>n. n\<lparr>oci_client := thick\<rparr>)) (\<lambda>_.
     let_ok (write_packet Data (if thick then build_protocol_response_oci else build_protocol_response)) (\<lambda>_.
     ok (g\<lparr>proto_req := req\<rparr>, True))))"

definition negotiate_types :: "bytes \<Rightarrow> nego \<Rightarrow> bytes \<Rightarrow> (nego \<times> bool) net" where
  "negotiate_types recorded g p =
     (let g' = (case parse_data_types_caps p of
          Inl _ \<Rightarrow> g | Inr (cc, rc) \<Rightarrow> g\<lparr>client_ccaps := cc, client_rcaps := rc\<rparr>);
          prof = profile_of g' in
      let_ok (update_net (\<lambda>n. n\<lparr>oci_client := oci_dialect prof\<rparr>)) (\<lambda>_.
      let_ok (write_packet Data
        (if oci_dialect prof then build_data_types_response_oci recorded
         else if na_without_version_list prof then build_data_types_response_na_no_verlist
         else build_data_types_response p)) (\<lambda>_.
      ok (g', True))))"

definition negotiate_packet :: "bytes \<Rightarrow> nego \<Rightarrow> packet \<Rightarrow> (nego \<times> bool) net" where
  "negotiate_packet recorded g pkt =
     (let p = payload pkt in
      if packet_type pkt \<noteq> Data \<or> length p < 3
      then fail (Failed (Protocol ''expected a DATA packet during negotiation''))
      else if is_ano_negotiation p
      then let_ok (write_packet Data build_ano_negotiation_response) (\<lambda>_. ok (g\<lparr>na_done := True\<rparr>, True))
      else if p ! 2 = 0x28 then ok (g, True)
      else if p ! 2 = 0x01 then negotiate_protocol g p
      else if p ! 2 = 0x02 then negotiate_types recorded g p
      else if p ! 2 = 0x03 then ok (g, False)
      else fail (Failed (Protocol (''unexpected TTC message 0x'' @ fmt_hex 2 (unat (p ! 2)) @ '' before authentication''))))"

lemma reads_forward_more [keeps_intros]: "reads_forward (with_result r)"
  by (simp add: with_result_def reads_forward_def split: sum.split)

lemma reads_forward_update [keeps_intros]: "(\<And>n. inbound (f n) = inbound n) \<Longrightarrow> reads_forward (update_net f)"
  by (simp add: update_net_def reads_forward_def)

lemma reads_forward_negotiate_packet: "reads_forward (negotiate_packet recorded g pkt)"
  unfolding negotiate_packet_def negotiate_protocol_def negotiate_types_def Let_def
  by (auto intro!: keeps_intros)

lemma negotiate_shrinks:
  assumes "read_packet s = (Inr pkt, s1)" "negotiate_packet recorded g pkt s1 = (r, t)"
  shows "length (inbound t) + 8 \<le> length (inbound s)"
proof -
  have "length (inbound s1) + 8 \<le> length (inbound s)" using read_packet_shrinks [of s pkt] assms(1) by simp
  moreover have "length (inbound t) \<le> length (inbound s1)"
    using reads_forward_negotiate_packet [of recorded g pkt] assms(2)
    unfolding reads_forward_def by (metis snd_conv)
  ultimately show ?thesis by simp
qed

function negotiate :: "bytes \<Rightarrow> nego \<Rightarrow> (nego \<times> packet) net" where
  "negotiate recorded g s = (case read_packet s of
       (Inl e, s1) \<Rightarrow> (Inl e, s1)
     | (Inr pkt, s1) \<Rightarrow> (case negotiate_packet recorded g pkt s1 of
           (Inl e, t) \<Rightarrow> (Inl e, t)
         | (Inr (g', go_on), t) \<Rightarrow> if go_on then negotiate recorded g' t else (Inr (g', pkt), t)))"
  by pat_completeness auto
termination
proof (relation "measure (\<lambda>(recorded, g, s). length (inbound s))", simp)
  fix recorded g s x y pkt x1 y1 b a b1
  assume "(x, y) = read_packet s" "x = Inr pkt" "(x1, y1) = negotiate_packet recorded g pkt y"
  then show "((recorded, a, y1), (recorded, g, s)) \<in> measure (\<lambda>(recorded, g, s). length (inbound s))"
    using negotiate_shrinks [of s pkt y recorded g x1 y1] by simp
qed

declare negotiate.simps [simp del]

section \<open>What a client sends\<close>

definition hello :: "bytes \<Rightarrow> u8 \<Rightarrow> bytes \<Rightarrow> string \<Rightarrow> bytes" where
  "hello flags ver accepted ban = flags @ [0x01, ver] @ accepted @ 0 # str_bytes ban @ [0]"

lemma before_nul_append: "0 \<notin> set xs \<Longrightarrow> before_nul (xs @ 0 # ys) = xs"
  by (induction xs) (auto simp: before_nul_def)

lemma parse_hello:
  assumes "length flags = 2" "0 \<notin> set accepted" "0 \<notin> set (str_bytes ban)" "utf8_valid (str_bytes ban)"
  shows "parse_protocol_request (hello flags ver accepted ban)
    = Inr \<lparr>version = ver, accepted_versions = accepted, banner = ban\<rparr>"
proof -
  obtain a b where f: "flags = [a, b]" using assms(1) by (auto simp: length_Suc_conv numeral_2_eq_2)
  have "be16 (from_be [a, b]) = [a, b]" by (rule be16_from_be)
  then have "skip_fields [U16, U8] (buf_at [] ([a, b, 0x01] @ ver # r)) = (Inr (), buf_at [a, b, 0x01] (ver # r))" for r
    using skip_items [of "[I16 (from_be [a, b]), I8 0x01]" "[]" "ver # r"]
    by (simp add: write_prims del: skip_fields.simps)
  then show ?thesis
    using assms(2-4) before_nul_append [OF assms(3), of "[]"]
    by (simp add: parse_protocol_request_def hello_def f run_reader_def from_slice_buf_at read_simps
        before_nul_append from_utf8_lossy_def utf8_lossy_valid)
qed

text \<open>One message of the loop.\<close>

lemma negotiate_data:
  assumes "sdu n = Large" "readable p" "inbound n = data_frame p @ rest"
  shows "negotiate recorded g n = (case negotiate_packet recorded g (data_packet p) (n\<lparr>inbound := rest\<rparr>) of
      (Inl e, t) \<Rightarrow> (Inl e, t)
    | (Inr (g', go_on), t) \<Rightarrow> if go_on then negotiate recorded g' t else (Inr (g', data_packet p), t))"
  by (subst negotiate.simps) (simp add: read_data_frame [OF assms])

lemma negotiate_hello:
  assumes "length flags = 2" "0 \<notin> set accepted" "0 \<notin> set (str_bytes ban)" "utf8_valid (str_bytes ban)"
    and "live_net n"
    and thick: "thick = (na_done g \<and> accepted = [5])"
  shows "negotiate_packet recorded g (data_packet (hello flags ver accepted ban)) n =
    (Inr (g\<lparr>proto_req := \<lparr>version = ver, accepted_versions = accepted, banner = ban\<rparr>\<rparr>, True),
     n\<lparr>oci_client := thick, outbound := outbound n
       @ data_frame (if thick then build_protocol_response_oci else build_protocol_response)\<rparr>)"
proof -
  have "length build_protocol_response < 1000 \<and> length build_protocol_response_oci < 1000" by code_simp
  then have "fits_client (n\<lparr>oci_client := thick\<rparr>) (if thick then build_protocol_response_oci else build_protocol_response)"
    by (simp add: fits_client_def OCI_MAX_PACKET_def MAX_TNS_PACKET_SIZE_def)
  moreover have "live_net (n\<lparr>oci_client := thick\<rparr>)" using assms(5) by (simp add: live_net_def)
  ultimately have "write_packet Data (if thick then build_protocol_response_oci else build_protocol_response) (n\<lparr>oci_client := thick\<rparr>)
      = (Inr (), n\<lparr>oci_client := thick, outbound := outbound n
         @ data_frame (if thick then build_protocol_response_oci else build_protocol_response)\<rparr>)"
    using write_data by force
  moreover have "hello flags ver accepted ban ! 2 = 0x01" "\<not> is_ano_negotiation (hello flags ver accepted ban)"
    "3 \<le> length (hello flags ver accepted ban)"
    using assms(1) by (auto simp: hello_def is_ano_negotiation_def nth_append)
  ultimately show ?thesis
    unfolding thick
    by (simp add: negotiate_packet_def negotiate_protocol_def data_packet_def parse_hello [OF assms(1-4)]
        with_result_def update_net_def probably_oci_at_protocol_def new_profile_def Let_def)
qed

text \<open>The reply to a DataTypes request.\<close>

definition types_reply :: "bytes \<Rightarrow> wire_profile \<Rightarrow> bytes \<Rightarrow> bytes" where
  "types_reply recorded prof p =
     (if oci_dialect prof then build_data_types_response_oci recorded
      else if na_without_version_list prof then build_data_types_response_na_no_verlist
      else build_data_types_response p)"

lemma types_reply_fits:
  assumes "length flags = 2" "\<forall>q \<in> set qs. fst q \<noteq> 0" "8 + length recorded \<le> OCI_MAX_PACKET"
    and "readable (data_types_request flags cs ncs enc ccaps rcaps qs rest)"
  shows "fits_client (n\<lparr>oci_client := oci_dialect prof\<rparr>)
    (types_reply recorded prof (data_types_request flags cs ncs enc ccaps rcaps qs rest))"
proof -
  have "length build_data_types_response_na_no_verlist < 1000" by code_simp
  moreover have "length (concat (map quad_bytes qs)) + 5 \<le> length (data_types_request flags cs ncs enc ccaps rcaps qs rest)"
    using assms(1) by (simp add: data_types_request_def)
  ultimately show ?thesis
    using assms data_types_echoed [OF assms(1,2)]
    by (auto simp: fits_client_def types_reply_def build_data_types_response_oci_def readable_def frame_readable_def
        frame_fits_def MAX_TNS_PACKET_SIZE_def)
qed

lemma negotiate_request:
  assumes "length flags = 2" "\<forall>q \<in> set qs. fst q \<noteq> 0" "8 + length recorded \<le> OCI_MAX_PACKET"
    and "readable p" "live_net n"
    and p: "p = data_types_request flags cs ncs enc ccaps rcaps qs rest"
    and prof: "prof = profile_of (g\<lparr>client_ccaps := ccaps, client_rcaps := rcaps\<rparr>)"
  shows "negotiate_packet recorded g (data_packet p) n =
    (Inr (g\<lparr>client_ccaps := ccaps, client_rcaps := rcaps\<rparr>, True),
     n\<lparr>oci_client := oci_dialect prof, outbound := outbound n @ data_frame (types_reply recorded prof p)\<rparr>)"
proof -
  have "live_net (n\<lparr>oci_client := oci_dialect prof\<rparr>)" using assms(5) by (simp add: live_net_def)
  with types_reply_fits [OF assms(1-3)] assms(4)
  have "write_packet Data (types_reply recorded prof p) (n\<lparr>oci_client := oci_dialect prof\<rparr>)
      = (Inr (), n\<lparr>oci_client := oci_dialect prof, outbound := outbound n @ data_frame (types_reply recorded prof p)\<rparr>)"
    unfolding p by (simp add: write_data)
  moreover have "p ! 2 = 0x02" "\<not> is_ano_negotiation p" "3 \<le> length p"
    using assms(1) by (auto simp: p data_types_request_def is_ano_negotiation_def nth_append)
  moreover have "parse_data_types_caps p = Inr (ccaps, rcaps)"
    unfolding p by (rule data_types_caps_read [OF assms(1)])
  ultimately show ?thesis
    by (simp add: negotiate_packet_def negotiate_types_def data_packet_def update_net_def Let_def
        flip: prof types_reply_def)
qed

lemma negotiate_ano:
  assumes "is_ano_negotiation p" "live_net n"
  shows "negotiate_packet recorded g (data_packet p) n =
    (Inr (g\<lparr>na_done := True\<rparr>, True), n\<lparr>outbound := outbound n @ data_frame build_ano_negotiation_response\<rparr>)"
proof -
  have "length build_ano_negotiation_response < 1000" by code_simp
  then have "write_packet Data build_ano_negotiation_response n
      = (Inr (), n\<lparr>outbound := outbound n @ data_frame build_ano_negotiation_response\<rparr>)"
    using assms(2) by (intro write_data) (simp_all add: fits_client_def OCI_MAX_PACKET_def MAX_TNS_PACKET_SIZE_def)
  with assms(1) show ?thesis
    by (simp add: negotiate_packet_def data_packet_def is_ano_negotiation_def)
qed

lemma negotiate_call:
  assumes "3 \<le> length p" "p ! 2 = 0x03"
  shows "negotiate_packet recorded g (data_packet p) n = (Inr (g, False), n)"
proof -
  have "take 4 (drop 2 p) ! 0 \<noteq> [0xde, 0xad, 0xbe, 0xef] ! 0" using assms by simp
  then have "\<not> is_ano_negotiation p" unfolding is_ano_negotiation_def by metis
  with assms show ?thesis by (simp add: negotiate_packet_def data_packet_def)
qed

lemma live_net_updates [simp]:
  "live_net (n\<lparr>inbound := x\<rparr>) = live_net n" "live_net (n\<lparr>outbound := y\<rparr>) = live_net n"
  "live_net (n\<lparr>oci_client := z\<rparr>) = live_net n"
  by (simp_all add: live_net_def)

lemma live_large: "live_net n \<Longrightarrow> sdu n = Large"
  by (simp add: live_net_def)

lemma negotiate_rest:
  assumes live: "live_net n"
    and hello: "length f1 = 2" "0 \<notin> set accepted" "0 \<notin> set (str_bytes ban)" "utf8_valid (str_bytes ban)"
    and types: "length f2 = 2" "\<forall>q \<in> set qs. fst q \<noteq> 0" "8 + length recorded \<le> OCI_MAX_PACKET"
    and m1: "m1 = hello f1 ver accepted ban" and m2: "m2 = data_types_request f2 cs ncs enc ccaps rcaps qs tail"
    and readable: "readable m1" "readable m2" "readable call"
    and call: "3 \<le> length call" "call ! 2 = 0x03"
    and inb: "inbound n = data_frame m1 @ data_frame m2 @ data_frame call @ rest"
    and g': "g' = g\<lparr>proto_req := \<lparr>version = ver, accepted_versions = accepted, banner = ban\<rparr>,
        client_ccaps := ccaps, client_rcaps := rcaps\<rparr>"
  shows "negotiate recorded g n = (Inr (g', data_packet call), n\<lparr>inbound := rest,
     oci_client := oci_dialect (profile_of g'),
     outbound := outbound n
       @ data_frame (if na_done g \<and> accepted = [5] then build_protocol_response_oci else build_protocol_response)
       @ data_frame (types_reply recorded (profile_of g') m2)\<rparr>)"
proof -
  let ?r1 = "if na_done g \<and> accepted = [5] then build_protocol_response_oci else build_protocol_response"
  let ?g1 = "g\<lparr>proto_req := \<lparr>version = ver, accepted_versions = accepted, banner = ban\<rparr>\<rparr>"
  define n1 where "n1 = n\<lparr>inbound := data_frame m2 @ data_frame call @ rest,
    oci_client := na_done g \<and> accepted = [5], outbound := outbound n @ data_frame ?r1\<rparr>"
  define n2 where "n2 = n1\<lparr>inbound := data_frame call @ rest, oci_client := oci_dialect (profile_of g'),
    outbound := outbound n1 @ data_frame (types_reply recorded (profile_of g') m2)\<rparr>"
  have live1: "live_net n1" "live_net n2" using live by (simp_all add: n1_def n2_def)
  have "negotiate recorded g n = negotiate recorded ?g1 n1"
    using negotiate_data [OF live_large [OF live] readable(1) inb] live
    unfolding m1 by (simp add: negotiate_hello [OF hello _ refl] n1_def)
  also have "inbound n1 = data_frame m2 @ data_frame call @ rest" by (simp add: n1_def)
  from negotiate_data [OF live_large [OF live1(1)] readable(2) this]
  have "negotiate recorded ?g1 n1 = negotiate recorded g' n2"
    using live1 negotiate_request [OF types readable(2) _ m2 refl, of "n1\<lparr>inbound := data_frame call @ rest\<rparr>" ?g1]
    by (simp add: g' n2_def)
  also have "inbound n2 = data_frame call @ rest" by (simp add: n2_def)
  from negotiate_data [OF live_large [OF live1(2)] readable(3) this]
  have "negotiate recorded g' n2 = (Inr (g', data_packet call), n2\<lparr>inbound := rest\<rparr>)"
    by (simp add: negotiate_call [OF call])
  finally show ?thesis by (simp add: n2_def n1_def)
qed

lemma negotiate_client:
  assumes "live_net n"
    and "length f1 = 2" "0 \<notin> set accepted" "0 \<notin> set (str_bytes ban)" "utf8_valid (str_bytes ban)"
    and "length f2 = 2" "\<forall>q \<in> set qs. fst q \<noteq> 0" "8 + length recorded \<le> OCI_MAX_PACKET"
    and "m1 = hello f1 ver accepted ban" "m2 = data_types_request f2 cs ncs enc ccaps rcaps qs tail"
    and "readable m1" "readable m2" "readable call" and "3 \<le> length call" "call ! 2 = 0x03"
    and "na \<longrightarrow> readable m0 \<and> is_ano_negotiation m0"
    and "inbound n = (if na then data_frame m0 else []) @ data_frame m1 @ data_frame m2 @ data_frame call @ rest"
    and "prof = new_profile na \<lparr>version = ver, accepted_versions = accepted, banner = ban\<rparr> ccaps rcaps"
  shows "\<exists>g. negotiate recorded fresh_nego n = (Inr (g, data_packet call), n\<lparr>inbound := rest,
       oci_client := oci_dialect prof,
       outbound := outbound n
         @ (if na then data_frame build_ano_negotiation_response else [])
         @ data_frame (if na \<and> accepted = [5] then build_protocol_response_oci else build_protocol_response)
         @ data_frame (types_reply recorded prof m2)\<rparr>)
     \<and> profile_of g = prof"
proof (cases na)
  case False
  with assms(17) have inb: "inbound n = data_frame m1 @ data_frame m2 @ data_frame call @ rest" by simp
  show ?thesis
    using negotiate_rest [OF assms(1-15) inb refl, of fresh_nego] False assms(18)
    by (simp add: fresh_nego_def profile_of_def)
next
  case True
  let ?rest = "data_frame m1 @ data_frame m2 @ data_frame call @ rest"
  let ?n = "n\<lparr>inbound := ?rest, outbound := outbound n @ data_frame build_ano_negotiation_response\<rparr>"
  let ?g = "fresh_nego\<lparr>na_done := True\<rparr>"
  have "readable m0" "is_ano_negotiation m0" "inbound n = data_frame m0 @ ?rest" using True assms(16,17) by auto
  from negotiate_data [OF live_large [OF assms(1)] this(1,3)]
  have "negotiate recorded fresh_nego n = negotiate recorded ?g ?n"
    using assms(1) \<open>is_ano_negotiation m0\<close> by (simp add: negotiate_ano)
  moreover have "live_net ?n" "inbound ?n = ?rest" using assms(1) by simp_all
  ultimately show ?thesis
    using negotiate_rest [OF _ assms(2-15) _ refl, of ?n rest ?g] True assms(18)
    by (simp add: fresh_nego_def profile_of_def)
qed

section \<open>Properties\<close>

text \<open>
  A client that announces itself, sends its DataTypes request and calls, after the
  network services exchange or without it, is answered in this order, and the dialect of
  the session is the one of exactly the capabilities, versions and banner it sent: the
  stream is left after its call, and the packet layer is in that dialect.
\<close>

theorem client_negotiated:
  assumes "live_net n"
    and "length f1 = 2" "0 \<notin> set accepted" "0 \<notin> set (str_bytes ban)" "utf8_valid (str_bytes ban)"
    and "length f2 = 2" "\<forall>q \<in> set qs. fst q \<noteq> 0" "8 + length recorded \<le> OCI_MAX_PACKET"
    and "m1 = hello f1 ver accepted ban" "m2 = data_types_request f2 cs ncs enc ccaps rcaps qs tail"
    and "readable m1" "readable m2" "readable call" and "3 \<le> length call" "call ! 2 = 0x03"
    and "na \<longrightarrow> readable m0 \<and> is_ano_negotiation m0"
    and "inbound n = (if na then data_frame m0 else []) @ data_frame m1 @ data_frame m2 @ data_frame call @ rest"
    and "prof = new_profile na \<lparr>version = ver, accepted_versions = accepted, banner = ban\<rparr> ccaps rcaps"
  shows "\<exists>g. negotiate recorded fresh_nego n = (Inr (g, data_packet call), n\<lparr>inbound := rest,
       oci_client := oci_dialect prof,
       outbound := outbound n
         @ (if na then data_frame build_ano_negotiation_response else [])
         @ data_frame (if na \<and> accepted = [5] then build_protocol_response_oci else build_protocol_response)
         @ data_frame (types_reply recorded prof m2)\<rparr>)
     \<and> profile_of g = prof"
  by (rule negotiate_client [OF assms])

theorem client_negotiated_witness:
  "\<exists>g. negotiate [] fresh_nego (conn Large False
      (data_frame [0, 0, 0xde, 0xad, 0xbe, 0xef] @ data_frame (hello [0, 0] 6 [5, 4] ''jdbc'')
        @ data_frame (data_types_request [0, 0] 873 873 1 [6, 1] [2] [(1, 1, 1, 0)] [])
        @ data_frame [0, 0, 3, 0x76, 1] @ [1]) []) = (Inr (g, data_packet [0, 0, 3, 0x76, 1]),
      conn Large False [1] (data_frame build_ano_negotiation_response @ data_frame build_protocol_response
        @ data_frame (types_reply [] (profile_of g)
            (data_types_request [0, 0] 873 873 1 [6, 1] [2] [(1, 1, 1, 0)] []))))
    \<and> compile_caps (profile_of g) = [6, 1]"
proof -
  let ?m1 = "hello [0, 0] 6 [5, 4] ''jdbc''" and ?m2 = "data_types_request [0, 0] 873 873 1 [6, 1] [2] [(1, 1, 1, 0)] []"
  let ?n = "conn Large False (data_frame [0, 0, 0xde, 0xad, 0xbe, 0xef] @ data_frame ?m1 @ data_frame ?m2
     @ data_frame [0, 0, 3, 0x76, 1] @ [1]) []"
  let ?prof = "new_profile True \<lparr>version = 6, accepted_versions = [5, 4], banner = ''jdbc''\<rparr> [6, 1] [2]"
  have live: "live_net ?n" by (simp add: live_net_def conn_def)
  have short: "length ?m1 < 1000" "\<not> is_fetch_frame ?m1" "length ?m2 < 1000" "\<not> is_fetch_frame ?m2"
    "\<not> is_fetch_frame [0, 0, 3, 0x76, 1]" "utf8_valid (str_bytes ''jdbc'')" "0 \<notin> set (str_bytes ''jdbc'')"
    by code_simp+
  have ano: "True \<longrightarrow> readable [0, 0, 0xde, 0xad, 0xbe, 0xef] \<and> is_ano_negotiation [0, 0, 0xde, 0xad, 0xbe, 0xef]"
    by (auto intro!: short_readable simp: is_fetch_frame_def is_ano_negotiation_def)
  have "\<not> oci_dialect ?prof" by (simp add: oci_dialect_def new_profile_def ccap_def CCAP_OCI1_def get_at_def CCAP_OCI1_THICK_def)
  moreover have "\<exists>g. negotiate [] fresh_nego ?n = (Inr (g, data_packet [0, 0, 3, 0x76, 1]), ?n\<lparr>inbound := [1],
       oci_client := oci_dialect ?prof,
       outbound := outbound ?n @ (if True then data_frame build_ano_negotiation_response else [])
         @ data_frame (if True \<and> [5, 4] = [5 :: u8] then build_protocol_response_oci else build_protocol_response)
         @ data_frame (types_reply [] ?prof ?m2)\<rparr>) \<and> profile_of g = ?prof"
    by (rule client_negotiated [OF live _ _ _ _ _ _ _ refl refl short_readable short_readable short_readable _ _ ano _ refl])
      (simp_all add: short conn_def OCI_MAX_PACKET_def)
  ultimately show ?thesis by (auto simp: conn_def new_profile_def)
qed

end
