(* ===== verification/Auth_Wire.thy ===== *)
theory Auth_Wire
  imports Handshake_Wire
begin

text \<open>
  The key/value messages of the authentication exchange from \<^verbatim>\<open>src/src/wire.rs\<close>, in the thin and
  in the OCI framing.  The recorded body of the OCI phase-two response is a file the build
  embeds; it is the argument \<open>recorded\<close>.
\<close>

type_synonym auth_parameters = "(string \<times> bytes) list"

section \<open>The thin framing\<close>

definition write_auth_string :: "string \<Rightarrow> write_buffer \<Rightarrow> write_buffer" where
  "write_auth_string s =
     (if s = [] then write_u8 0
      else emit [write_u8 1, write_u8 (word_of_nat (length s)), write_u8 (word_of_nat (length s)),
             write_bytes (str_bytes s)])"

definition write_auth_kv :: "string \<Rightarrow> string \<Rightarrow> write_buffer \<Rightarrow> write_buffer" where
  "write_auth_kv key val = emit [write_auth_string key, write_auth_string val, write_ub4 0]"

definition write_auth_kv_vfr :: "string \<Rightarrow> u32 \<Rightarrow> write_buffer \<Rightarrow> write_buffer" where
  "write_auth_kv_vfr val verifier_type =
     emit [write_auth_string ''AUTH_VFR_DATA'', write_auth_string val, write_ub4 verifier_type]"

definition build_auth_phase_one_response_11g :: "string \<Rightarrow> string \<Rightarrow> bytes" where
  "build_auth_phase_one_response_11g auth_sesskey auth_vfr_data = emit [
     write_u16_be 0, write_u8 TTC_MSG_PARAMETER, write_ub2 4,
     write_auth_kv ''AUTH_SESSKEY'' auth_sesskey,
     write_auth_kv_vfr auth_vfr_data 0x1B25,
     write_auth_kv ''AUTH_VERSION_NO'' ''1900000000'',
     write_auth_kv ''AUTH_GLOBALLY_UNIQUE_DBID'' ''0000000000000000'',
     write_ttc_status] []"

text \<open>The block both 12c responses of phase one share.\<close>

definition phase_one_pairs :: "string \<Rightarrow> string \<Rightarrow> string \<Rightarrow> u32 \<Rightarrow> u32 \<Rightarrow> write_buffer \<Rightarrow> write_buffer" where
  "phase_one_pairs auth_sesskey auth_vfr_data csk_salt vgen_count sder_count = emit [
     write_u16_be 0, write_u8 TTC_MSG_PARAMETER, write_ub2 7,
     write_auth_kv ''AUTH_SESSKEY'' auth_sesskey,
     write_auth_kv_vfr auth_vfr_data 0x4815,
     write_auth_kv ''AUTH_PBKDF2_CSK_SALT'' csk_salt,
     write_auth_kv ''AUTH_PBKDF2_VGEN_COUNT'' (show_nat (unat vgen_count)),
     write_auth_kv ''AUTH_PBKDF2_SDER_COUNT'' (show_nat (unat sder_count)),
     write_auth_kv ''AUTH_VERSION_NO'' ''202375000'',
     write_auth_kv ''AUTH_GLOBALLY_UNIQUE_DBID'' ''0000000000000000'']"

definition build_auth_phase_one_response_12c ::
    "string \<Rightarrow> string \<Rightarrow> string \<Rightarrow> u32 \<Rightarrow> u32 \<Rightarrow> bytes" where
  "build_auth_phase_one_response_12c auth_sesskey auth_vfr_data csk_salt vgen_count sder_count =
     emit [phase_one_pairs auth_sesskey auth_vfr_data csk_salt vgen_count sder_count,
       write_ttc_status] []"

definition build_auth_phase_one_response_na_no_verlist ::
    "string \<Rightarrow> string \<Rightarrow> string \<Rightarrow> u32 \<Rightarrow> u32 \<Rightarrow> bytes" where
  "build_auth_phase_one_response_na_no_verlist auth_sesskey auth_vfr_data csk_salt vgen_count sder_count =
     emit [phase_one_pairs auth_sesskey auth_vfr_data csk_salt vgen_count sder_count,
       write_end_of_call_jdbc 0 None 0 False 0 0 0] []"

definition phase_two_pairs :: "string \<Rightarrow> u32 \<Rightarrow> u32 \<Rightarrow> string \<Rightarrow> write_buffer \<Rightarrow> write_buffer" where
  "phase_two_pairs auth_svr_response session_id version_no version_string = emit [
     write_u16_be 0, write_u8 TTC_MSG_PARAMETER, write_ub2 9,
     write_auth_kv ''AUTH_SVR_RESPONSE'' auth_svr_response,
     write_auth_kv ''AUTH_SESSION_ID'' (show_nat (unat session_id)),
     write_auth_kv ''AUTH_SERIAL_NUM'' ''1'',
     write_auth_kv ''AUTH_VERSION_NO'' (show_nat (unat version_no)),
     write_auth_kv ''AUTH_VERSION_STRING'' version_string,
     write_auth_kv ''AUTH_SC_DBUNIQUE_NAME'' ''DBSACI'',
     write_auth_kv ''AUTH_SC_SERVICE_NAME'' ''FREEPDB1'',
     write_auth_kv ''AUTH_MAX_OPEN_CURSORS'' ''1000'',
     write_auth_kv ''AUTH_MAX_IDEN_LENGTH'' ''128'']"

definition build_auth_phase_two_response :: "string \<Rightarrow> u32 \<Rightarrow> u32 \<Rightarrow> string \<Rightarrow> bytes" where
  "build_auth_phase_two_response auth_svr_response session_id version_no version_string =
     emit [phase_two_pairs auth_svr_response session_id version_no version_string,
       write_ttc_status] []"

definition build_auth_phase_two_response_na_no_verlist :: "string \<Rightarrow> u32 \<Rightarrow> u32 \<Rightarrow> string \<Rightarrow> bytes" where
  "build_auth_phase_two_response_na_no_verlist auth_svr_response session_id version_no version_string =
     emit [phase_two_pairs auth_svr_response session_id version_no version_string,
       write_end_of_call_jdbc 0 None 0 False 0 0 0] []"

subsection \<open>Requests\<close>

definition first_byte :: "read_buffer \<Rightarrow> u8 option" where
  "first_byte b = get_at (remaining_slice b) 0"

definition read_val :: "bool \<Rightarrow> bytes option reader" where
  "read_val one_byte_chunks =
     (if one_byte_chunks then read_bytes_with_length_1b_chunks else read_bytes_with_length)"

definition read_username :: "u32 \<Rightarrow> string reader" where
  "read_username user_len b =
     (if (case first_byte b of Some x \<Rightarrow> x \<noteq> 0 \<and> x < 0x20 | None \<Rightarrow> False)
      then let_ok read_bytes_with_length (\<lambda>r. ok (case r of Some bs \<Rightarrow> from_utf8_lossy bs | None \<Rightarrow> [])) b
      else if 0 < user_len
      then let_ok (read_bytes_vec (unat user_len)) (\<lambda>bs. ok (from_utf8_lossy bs)) b
      else ok [] b)"

definition read_auth_pair :: "bool \<Rightarrow> (string \<times> bytes) reader" where
  "read_auth_pair one_byte_chunks =
     let_ok (skip_fields [UB4]) (\<lambda>_.
     let_ok read_string_with_length (\<lambda>key.
     let_ok read_ub4 (\<lambda>val_len.
     let_ok (if 0 < val_len then let_ok (read_val one_byte_chunks) (\<lambda>v. ok (unwrap_or [] v)) else ok []) (\<lambda>val.
     let_ok (skip_fields [UB4]) (\<lambda>_. ok (unwrap_or [] key, val))))))"

fun read_auth_pairs :: "bool \<Rightarrow> nat \<Rightarrow> auth_parameters reader" where
  "read_auth_pairs one_byte_chunks 0 = ok []"
| "read_auth_pairs one_byte_chunks (Suc n) =
     let_ok (read_auth_pair one_byte_chunks) (\<lambda>p.
     let_ok (read_auth_pairs one_byte_chunks n) (\<lambda>ps. ok (p # ps)))"

definition parse_auth_request :: "bytes \<Rightarrow> bool \<Rightarrow> error + string \<times> auth_parameters" where
  "parse_auth_request payload one_byte_chunks = run_reader
     (let_ok (skip_fields [U16, U8, U8, U8]) (\<lambda>_.
      let_ok (\<lambda>b. if first_byte b = Some 0 then skip_fields [U8] b else ok () b) (\<lambda>_.
      let_ok (skip_fields [U8]) (\<lambda>_.
      let_ok read_ub4 (\<lambda>user_len.
      let_ok (skip_fields [UB4, U8]) (\<lambda>_.
      let_ok read_ub4 (\<lambda>pair_count.
      let_ok (skip_fields [U8, U8]) (\<lambda>_.
      let_ok (read_username user_len) (\<lambda>username.
      let_ok (read_auth_pairs one_byte_chunks (unat pair_count)) (\<lambda>pairs.
        ok (username, pairs))))))))))) payload"

definition parse_auth_phase_one_request :: "bytes \<Rightarrow> error + string \<times> auth_parameters" where
  "parse_auth_phase_one_request payload = parse_auth_request payload False"

definition parse_auth_phase_two_request :: "bytes \<Rightarrow> error + string \<times> auth_parameters" where
  "parse_auth_phase_two_request payload = parse_auth_request payload False"

definition parse_auth_phase_two_request_na_no_verlist :: "bytes \<Rightarrow> error + string \<times> auth_parameters" where
  "parse_auth_phase_two_request_na_no_verlist payload = parse_auth_request payload True"

section \<open>The OCI framing\<close>

definition OCI_AUTH1_TAIL :: bytes where
  "OCI_AUTH1_TAIL = [
     0x04, 0x01, 0x00, 0x00, 0x00, 0x26, 0x00, 0x00, 0x00, 0x00, 0x00, 0x00, 0x00, 0x00, 0x00, 0x00,
     0x00, 0x00, 0x00, 0x00, 0x00, 0x00, 0x00, 0x00, 0x00, 0x00, 0x00, 0x00, 0x00, 0x00, 0x00, 0x00,
     0x00, 0x00, 0x00, 0x00, 0x00, 0x00, 0x00, 0x00, 0x00, 0x00, 0x00, 0x00, 0x00, 0x02, 0x00, 0x00,
     0x00, 0x00, 0x00, 0x00, 0x00, 0x00, 0x00, 0x00, 0x00, 0x00, 0x00, 0x00, 0x00, 0x00, 0x00, 0x00,
     0x00, 0x00, 0x00, 0x00, 0x00, 0x00, 0x00]"

definition OCI_AUTH2_SVR_RESPONSE_OFFSET :: nat where "OCI_AUTH2_SVR_RESPONSE_OFFSET = 1909"
definition OCI_AUTH2_SVR_RESPONSE_LEN :: nat where "OCI_AUTH2_SVR_RESPONSE_LEN = 96"

definition oci_write_kv :: "bytes \<Rightarrow> bytes \<Rightarrow> u32 \<Rightarrow> write_buffer \<Rightarrow> write_buffer" where
  "oci_write_kv key val flags = emit [
     write_u32_le (word_of_nat (length key)), write_u8 (word_of_nat (length key)), write_bytes key,
     write_u32_le (word_of_nat (length val)),
     if val \<noteq> [] then emit [write_u8 (word_of_nat (length val)), write_bytes val] else emit [],
     write_u32_le flags]"

definition build_auth_phase_one_response_oci ::
    "string \<Rightarrow> string \<Rightarrow> string \<Rightarrow> u32 \<Rightarrow> u32 \<Rightarrow> bytes" where
  "build_auth_phase_one_response_oci auth_sesskey auth_vfr_data csk_salt vgen_count sder_count = emit [
     write_u16_be 0, write_u8 TTC_MSG_PARAMETER, write_u16_le 6,
     oci_write_kv (str_bytes ''AUTH_SESSKEY'') (str_bytes auth_sesskey) 0,
     oci_write_kv (str_bytes ''AUTH_VFR_DATA'') (str_bytes auth_vfr_data) 0x4815,
     oci_write_kv (str_bytes ''AUTH_PBKDF2_CSK_SALT'') (str_bytes csk_salt) 0,
     oci_write_kv (str_bytes ''AUTH_PBKDF2_VGEN_COUNT'') (str_bytes (show_nat (unat vgen_count))) 0,
     oci_write_kv (str_bytes ''AUTH_PBKDF2_SDER_COUNT'') (str_bytes (show_nat (unat sder_count))) 0,
     oci_write_kv (str_bytes ''AUTH_GLOBALLY_UNIQUE_DBID'' @ [0]) (str_bytes ''0000000000000000'') 0,
     write_bytes OCI_AUTH1_TAIL] []"

definition build_auth_phase_two_response_oci :: "bytes \<Rightarrow> string \<Rightarrow> bytes" where
  "build_auth_phase_two_response_oci recorded auth_svr_response =
     (let proof_bytes = str_bytes auth_svr_response in
      if length proof_bytes = OCI_AUTH2_SVR_RESPONSE_LEN
      then take OCI_AUTH2_SVR_RESPONSE_OFFSET recorded @ proof_bytes
        @ drop (OCI_AUTH2_SVR_RESPONSE_OFFSET + OCI_AUTH2_SVR_RESPONSE_LEN) recorded
      else recorded)"

definition le_len :: "bytes \<Rightarrow> nat" where
  "le_len bs = unat (from_le (take 4 bs) :: u32)"

text \<open>A key with a consistent length prefix starts at \<open>p\<close>.\<close>

definition auth_key_at :: "bytes \<Rightarrow> nat \<Rightarrow> bool" where
  "auth_key_at payload p \<longleftrightarrow>
     (take 4 (drop p payload) = str_bytes ''AUTH'' \<or> take 7 (drop p payload) = str_bytes ''SESSION'') \<and>
     (let klen = le_len (drop (p - 5) payload) in
      4 \<le> klen \<and> klen \<le> 64 \<and> unat (payload ! (p - 1)) = klen)"

definition graphic_byte :: "u8 \<Rightarrow> bool" where
  "graphic_byte b \<longleftrightarrow> 33 \<le> b \<and> b \<le> 126"

definition oci_username :: "bytes \<Rightarrow> nat \<Rightarrow> string option" where
  "oci_username payload kv_start = map_option
     (\<lambda>ulen. bytes_str (take ulen (drop (kv_start - ulen) payload)))
     (find (\<lambda>ulen. 1 + ulen \<le> kv_start \<and> unat (payload ! (kv_start - 1 - ulen)) = ulen \<and>
          list_all graphic_byte (take ulen (drop (kv_start - ulen) payload))) [1..<31])"

definition trim_nuls :: "string \<Rightarrow> string" where
  "trim_nuls s = rev (dropWhile (\<lambda>c. c = CHR 0x00) (rev s))"

text \<open>The loop over the pairs; the argument is the payload from the index on.\<close>

function oci_pairs :: "bytes \<Rightarrow> auth_parameters" where
  "oci_pairs p =
     (if length p < 5 then []
      else let klen = le_len p in
        if klen = 0 \<or> 64 < klen \<or> length p < 5 + klen \<or> unat (p ! 4) \<noteq> klen then []
        else let key = trim_nuls (from_utf8_lossy (take klen (drop 5 p))); p1 = drop (5 + klen) p in
          if length p1 < 4 then []
          else let vlen = le_len p1; p2 = drop 4 p1 in
            if vlen = 0 then (key, []) # oci_pairs (drop 4 p2)
            else if length p2 < 1 + vlen then []
            else (key, take vlen (drop 1 p2)) # oci_pairs (drop (1 + vlen + 4) p2))"
  by pat_completeness auto
termination
  by (relation "measure length") (auto simp: Let_def)

declare oci_pairs.simps [simp del]

definition parse_oci_auth :: "bytes \<Rightarrow> string option \<times> auth_parameters" where
  "parse_oci_auth payload =
     (case find (auth_key_at payload) [5..<length payload - 4] of
        None \<Rightarrow> (None, [])
      | Some p \<Rightarrow> (oci_username payload (p - 5), oci_pairs (drop (p - 5) payload)))"

section \<open>What clients send\<close>

definition put_auth_pair :: "string \<times> bytes \<Rightarrow> write_buffer \<Rightarrow> write_buffer" where
  "put_auth_pair p = emit [
     write_ub4 (word_of_nat (length (fst p))), write_string_with_length (Some (fst p)),
     write_ub4 (word_of_nat (length (snd p))),
     if snd p \<noteq> [] then write_bytes_with_length (Some (snd p)) else emit [],
     write_ub4 0]"

text \<open>Long values are chunked differently by the clients read with one-byte chunk lengths.\<close>

definition pair_ok :: "bool \<Rightarrow> string \<times> bytes \<Rightarrow> bool" where
  "pair_ok one_byte_chunks p \<longleftrightarrow> utf8_valid (str_bytes (fst p)) \<and> length (snd p) < 2 ^ 32 \<and>
     (one_byte_chunks \<longrightarrow> length (snd p) \<le> 252)"

lemma short_clr_both_ways:
  assumes "length v \<le> 252"
  shows "read_bytes_with_length_1b_chunks (buf_at pre (write_bytes_with_length (Some v) [] @ rest))
    = read_bytes_with_length (buf_at pre (write_bytes_with_length (Some v) [] @ rest))"
proof -
  obtain x t where w: "write_bytes_with_length (Some v) [] = x # t" "x \<noteq> LONG_INDICATOR"
  proof (cases "v = []")
    case True
    then show thesis using that by (simp add: write_bytes_with_length_def write_prims clr_marks)
  next
    case False
    have "(word_of_nat (length v) :: u8) \<noteq> 254"
    proof
      assume "(word_of_nat (length v) :: u8) = 254"
      then have "unat (word_of_nat (length v) :: u8) = 254" by simp
      with assms show False by (simp add: unat_of_nat take_bit_nat_eq_self)
    qed
    with False assms that show thesis
      by (simp add: write_bytes_with_length_def write_prims clr_marks)
  qed
  then show ?thesis
    by (simp add: read_bytes_with_length_1b_chunks_def read_bytes_with_length_def read_u8_Cons)
qed

lemma put_auth_pair_eq: "put_auth_pair p b = b @ write_ub4 (word_of_nat (length (fst p))) []
      @ write_string_with_length (Some (fst p)) [] @ write_ub4 (word_of_nat (length (snd p))) []
      @ (if snd p \<noteq> [] then write_bytes_with_length (Some (snd p)) [] else []) @ write_ub4 0 []"
  by (simp add: put_auth_pair_def write_ub4_app [of _ "write_string_with_length _ _"]
      write_ub4_app [of _ "write_bytes_with_length _ _"] write_ub4_app [of _ "_ @ _"] write_ub4_app [of _ b]
      write_string_with_length_app [of _ "_ @ _"] write_bytes_with_length_app [of _ "_ @ _"])

interpretation auth_pair: codec put_auth_pair "read_auth_pair obc" "pair_ok obc" for obc
proof
  show "put_auth_pair p b = b @ put_auth_pair p []" for p b
    by (subst (1 2) put_auth_pair_eq) simp
next
  fix p pre rest
  assume ok: "pair_ok obc p"
  obtain k v where p: "p = (k, v)" by (cases p)
  have n: "unat (word_of_nat (length v) :: u32) = length v"
    using ok p by (simp add: pair_ok_def unat_of_nat take_bit_nat_eq_self)
  then have z: "0 < (word_of_nat (length v) :: u32) \<longleftrightarrow> v \<noteq> []"
    by (auto simp: word_gt_0)
  have skip4: "skip_fields [UB4] (buf_at q (write_ub4 x [] @ r)) = (Inr (), buf_at (q @ write_ub4 x []) r)"
    for q x r by (simp add: discard_def ub4.get_put)
  have val: "read_val obc (buf_at q (write_bytes_with_length (Some v) [] @ r))
      = (Inr (Some v), buf_at (q @ write_bytes_with_length (Some v) []) r)" for q r
    using ok p by (cases obc) (simp_all add: read_val_def pair_ok_def short_clr_both_ways clr.get_put)
  have key: "read_string_with_length (buf_at q (write_string_with_length (Some k) [] @ r))
      = (Inr (Some k), buf_at (q @ write_string_with_length (Some k) []) r)" for q r
    using ok p by (intro str.get_put) (simp add: pair_ok_def utf8_opt_def)
  show "read_auth_pair obc (buf_at pre (put_auth_pair p [] @ rest)) = (Inr p, buf_at (pre @ put_auth_pair p []) rest)"
    unfolding p put_auth_pair_eq [of _ "[]"] read_auth_pair_def
    by (simp add: skip4 [simplified] key ub4.get_put z val discard_def)
qed

lemma read_auth_pairs_eq: "read_auth_pairs obc n = auth_pair.get_n obc n"
  by (induction n) simp_all

definition auth_request ::
    "u16 \<Rightarrow> u8 \<Rightarrow> u8 \<Rightarrow> u8 \<Rightarrow> bool \<Rightarrow> string \<Rightarrow> u32 \<Rightarrow> auth_parameters \<Rightarrow> bytes" where
  "auth_request flags fn seq user_ptr prefixed user auth_mode pairs =
     put_items [I16 flags, I8 0x03, I8 fn, I8 seq] [] @ put_items [I8 user_ptr] []
     @ write_ub4 (word_of_nat (length user)) [] @ put_items [IB4 auth_mode, I8 1] []
     @ write_ub4 (word_of_nat (length pairs)) [] @ put_items [I8 1, I8 1] []
     @ (if prefixed then write_bytes_with_length (Some (str_bytes user)) [] else str_bytes user)
     @ fold put_auth_pair pairs []"

lemma auth_request_read:
  assumes "user_ptr \<noteq> 0" and "utf8_valid (str_bytes user)" and "user \<noteq> []" and "length user < 2 ^ 32"
    and "if prefixed then length user < 32 else 0x20 \<le> byte_of (hd user)"
    and "list_all (pair_ok one_byte_chunks) pairs" and "length pairs < 2 ^ 32"
  shows "parse_auth_request (auth_request flags fn seq user_ptr prefixed user auth_mode pairs) one_byte_chunks
    = Inr (user, pairs)"
proof -
  have u: "unat (word_of_nat (length user) :: u32) = length user"
    using assms(4) by (simp add: unat_of_nat take_bit_nat_eq_self)
  have np: "unat (word_of_nat (length pairs) :: u32) = length pairs"
    using assms(7) by (simp add: unat_of_nat take_bit_nat_eq_self)
  have upos: "0 < (word_of_nat (length user) :: u32)"
    using u assms(3) by (auto simp: word_gt_0)
  have first: "first_byte (buf_at q (x # r)) = Some x" for q x r
    by (simp add: first_byte_def get_at_def)
  have name: "read_username (word_of_nat (length user))
      (buf_at q ((if prefixed then write_bytes_with_length (Some (str_bytes user)) [] else str_bytes user) @ r))
    = (Inr user, buf_at (q @ (if prefixed then write_bytes_with_length (Some (str_bytes user)) []
        else str_bytes user)) r)" for q r
  proof (cases prefixed)
    case True
    then have l: "length user < 32" using assms(5) by simp
    let ?l = "word_of_nat (length user) :: u8"
    have ul: "unat ?l = length user" using l by (simp add: unat_of_nat take_bit_nat_eq_self)
    have "0 < unat ?l" "unat ?l < 32" using ul l assms(3) by simp_all
    then have lb: "?l \<noteq> 0" "?l < 0x20" by (auto simp: word_less_nat_alt)
    have w: "write_bytes_with_length (Some (str_bytes user)) [] = ?l # str_bytes user"
      using l assms(3) by (simp add: write_bytes_with_length_def write_prims clr_marks str_bytes_def)
    have "read_bytes_with_length (buf_at q (write_bytes_with_length (Some (str_bytes user)) [] @ r))
        = (Inr (Some (str_bytes user)), buf_at (q @ write_bytes_with_length (Some (str_bytes user)) []) r)"
      by (rule clr.get_put) simp
    then show ?thesis
      using True lb assms(2) by (simp add: read_username_def w first from_utf8_lossy_def utf8_lossy_valid)
  next
    case False
    obtain c t where c: "user = c # t" using assms(3) by (cases user) auto
    have "\<not> byte_of c < 0x20" using assms(5) False c by (simp add: not_less)
    moreover have "read_bytes_vec (length user) (buf_at q (str_bytes user @ r))
        = (Inr (str_bytes user), buf_at (q @ str_bytes user) r)"
      by (rule read_bytes_vec_buf_at) (simp add: str_bytes_def)
    moreover have "first_byte (buf_at q (str_bytes user @ r)) = Some (byte_of c)"
      by (simp add: c str_bytes_def first)
    ultimately show ?thesis
      using False u upos assms(2) by (simp add: read_username_def from_utf8_lossy_def utf8_lossy_valid)
  qed
  have tok: "first_byte (buf_at q (put_items [I8 user_ptr] [] @ r)) \<noteq> Some 0" for q r
    using assms(1) by (simp add: write_prims first)
  note step = skip_items [of "[I16 flags, I8 0x03, I8 fn, I8 seq]"] skip_items [of "[I8 user_ptr]"]
    skip_items [of "[IB4 auth_mode, I8 1]"] skip_items [of "[I8 1, I8 1]"]
  have skips: "skip_fields [U16, U8, U8, U8] (buf_at q (put_items [I16 flags, I8 0x03, I8 fn, I8 seq] [] @ r))
      = (Inr (), buf_at (q @ put_items [I16 flags, I8 0x03, I8 fn, I8 seq] []) r)"
    "skip_fields [U8] (buf_at q (put_items [I8 user_ptr] [] @ r)) = (Inr (), buf_at (q @ put_items [I8 user_ptr] []) r)"
    "skip_fields [UB4, U8] (buf_at q (put_items [IB4 auth_mode, I8 1] [] @ r))
      = (Inr (), buf_at (q @ put_items [IB4 auth_mode, I8 1] []) r)"
    "skip_fields [U8, U8] (buf_at q (put_items [I8 1, I8 1] [] @ r)) = (Inr (), buf_at (q @ put_items [I8 1, I8 1] []) r)"
    for q r
    using step [of q r] by (simp_all del: put_items_simps skip_fields.simps)
  have pairs: "read_auth_pairs one_byte_chunks (length pairs) (buf_at q (fold put_auth_pair pairs []))
      = (Inr pairs, buf_at (q @ fold put_auth_pair pairs []) [])" for q
    using auth_pair.get_n_put [OF assms(6), of q "[]"] by (simp add: read_auth_pairs_eq)
  show ?thesis
    unfolding parse_auth_request_def run_reader_def from_slice_buf_at auth_request_def
    by (simp only: let_ok_apply prod.case on_ok_simps skips tok if_False ok_apply ub4.get_put [OF TrueI]
        name np pairs fst_conv)
qed

text \<open>
  An authentication request of a thin client yields the user name and all key/value
  pairs it was sent with, in order, whether the name stands with its own length before it
  (shorter than 32 bytes) or bare (its first byte printable), and for both framings of
  long values.
\<close>

theorem auth_request_parsed:
  assumes "user_ptr \<noteq> 0" and "utf8_valid (str_bytes user)" and "user \<noteq> []" and "length user < 2 ^ 32"
    and "if prefixed then length user < 32 else 0x20 \<le> byte_of (hd user)"
    and "list_all (pair_ok one_byte_chunks) pairs" and "length pairs < 2 ^ 32"
  shows "parse_auth_request (auth_request flags fn seq user_ptr prefixed user auth_mode pairs) one_byte_chunks
    = Inr (user, pairs)"
  by (rule auth_request_read [OF assms])

theorem auth_request_parsed_witness:
  "parse_auth_request (auth_request 0 0x76 1 1 True ''HR'' 257 [(''AUTH_TERMINAL'', [0x70, 0x63]), (''AUTH_SID'', [])]) True
     = Inr (''HR'', [(''AUTH_TERMINAL'', [0x70, 0x63]), (''AUTH_SID'', [])])"
proof -
  have "utf8_valid (str_bytes ''HR'')" "utf8_valid (str_bytes ''AUTH_TERMINAL'')" "utf8_valid (str_bytes ''AUTH_SID'')"
    by code_simp+
  then show ?thesis
    by (intro auth_request_parsed) (simp_all add: pair_ok_def)
qed

section \<open>OCI pairs\<close>

text \<open>A key as a client sends it: graphic, 1 to 64 bytes; a value that fits its length byte.\<close>

definition oci_pair_ok :: "string \<times> bytes \<Rightarrow> bool" where
  "oci_pair_ok p \<longleftrightarrow> fst p \<noteq> [] \<and> length (fst p) \<le> 64 \<and> list_all is_ascii_graphic (fst p)
     \<and> length (snd p) < 2 ^ 32"

definition put_oci_pair :: "u32 \<Rightarrow> string \<times> bytes \<Rightarrow> bytes" where
  "put_oci_pair flags p = oci_write_kv (str_bytes (fst p)) (snd p) flags []"

lemma graphic_text:
  assumes "list_all is_ascii_graphic s"
  shows "from_utf8_lossy (str_bytes s) = s" "trim_nuls s = s" "utf8_valid (str_bytes s)"
proof -
  have "b < 0x80" if "b \<in> set (str_bytes s)" for b
  proof -
    from that obtain c where c: "c \<in> set s" "b = byte_of c" by (auto simp: str_bytes_def)
    then have "code c \<le> 126" using assms by (auto simp: list_all_iff is_ascii_graphic_def)
    then show ?thesis using c by (simp add: word_less_nat_alt unat_byte_of)
  qed
  then show "utf8_valid (str_bytes s)" by (intro utf8_valid_ascii) blast
  then show "from_utf8_lossy (str_bytes s) = s"
    by (simp add: from_utf8_lossy_def utf8_lossy_valid)
  have "\<not> is_ascii_graphic (CHR 0x00)" by code_simp
  with assms show "trim_nuls s = s"
    by (cases s rule: rev_cases) (auto simp: trim_nuls_def)
qed

lemma le_len_le32: "le_len (le32 w @ r) = unat w"
  by (simp add: le_len_def)

lemma oci_pairs_step:
  assumes "oci_pair_ok p"
  shows "oci_pairs (put_oci_pair flags p @ rest) = p # oci_pairs rest"
proof -
  obtain k v where p: "p = (k, v)" by (cases p)
  have k: "k \<noteq> []" "length k \<le> 64" "list_all is_ascii_graphic k" and v: "length v < 2 ^ 32"
    using assms p by (simp_all add: oci_pair_ok_def)
  have n: "unat (word_of_nat (length k) :: u32) = length k" "unat (word_of_nat (length k) :: u8) = length k"
    "unat (word_of_nat (length v) :: u32) = length v"
    using k(2) v by (simp_all add: unat_of_nat take_bit_nat_eq_self)
  have l: "length (str_bytes k) = length k" by (simp add: str_bytes_def)
  let ?h = "le32 (word_of_nat (length k)) @ [word_of_nat (length k)]"
  have e: "put_oci_pair flags p @ rest = ?h @ str_bytes k @ le32 (word_of_nat (length v))
      @ (if v \<noteq> [] then word_of_nat (length v) # v else []) @ le32 flags @ rest"
    by (simp add: put_oci_pair_def oci_write_kv_def p write_prims l)
  have d: "drop (5 + length k) (?h @ str_bytes k @ r) = r" for r
    by (simp add: l)
  have t: "take (length k) (drop 5 (?h @ str_bytes k @ r)) = str_bytes k" for r
    by (simp add: l)
  have b: "(?h @ r) ! 4 = word_of_nat (length k)" for r
    by (simp add: nth_append)
  have "5 + length v = Suc (length v + 4)" by simp
  then have d5: "drop (5 + length v) (x # v @ le32 flags @ rest) = rest" for x
    by (simp only: drop_Suc_Cons) simp
  show ?thesis
    unfolding e
    by (subst oci_pairs.simps)
      (use k in \<open>auto simp: Let_def le_len_le32 [where r = "_ # _", simplified] d [simplified] t [simplified]
          b [simplified] n l le_len_le32 graphic_text p d5\<close>)
qed

text \<open>
  The pairs of an OCI authentication message are read back in order, each key without
  its padding and each value whole, as long as the keys are graphic and at most 64 bytes
  long; an incomplete pair at the end is dropped.
\<close>

theorem oci_pairs_read_back:
  assumes "list_all oci_pair_ok ps" and "length rest < 5"
  shows "oci_pairs (concat (map (put_oci_pair flags) ps) @ rest) = ps"
  using assms(1)
proof (induction ps)
  case Nil
  then show ?case using assms(2) by (simp add: oci_pairs.simps)
next
  case (Cons p ps)
  then show ?case by (simp add: oci_pairs_step)
qed

theorem oci_pairs_read_back_witness:
  "oci_pairs (concat (map (put_oci_pair 1) [(''AUTH_SESSKEY'', [0x41, 0x42]), (''AUTH_SID'', [])]) @ [0, 0])
     = [(''AUTH_SESSKEY'', [0x41, 0x42]), (''AUTH_SID'', [])]"
proof -
  have "list_all is_ascii_graphic ''AUTH_SESSKEY''" "list_all is_ascii_graphic ''AUTH_SID''"
    by code_simp+
  then show ?thesis by (intro oci_pairs_read_back) (simp_all add: oci_pair_ok_def)
qed

end
