(* ===== verification/Auth.thy ===== *)
theory Auth
  imports Rust_Std
begin

text \<open>
  The password verification of \<^verbatim>\<open>src/src/auth.rs\<close>.  Hashes, AES in CBC mode, PBKDF2 and hexadecimal
  come from other crates and are the fields of \<open>crypto\<close>; \<open>crypto_ok\<close> states what those crates
  document (decryption inverts encryption on whole blocks, PKCS 7 padding is removed, digests
  and keys have their lengths).  The random bytes are arguments.  Rust panics (an unset or too
  short client key, a partial block) are \<open>None\<close>.
\<close>

section \<open>The crates\<close>

record crypto =
  sha1 :: "bytes \<Rightarrow> bytes"
  sha512 :: "bytes \<Rightarrow> bytes"
  md5 :: "bytes \<Rightarrow> bytes"
  pbkdf2 :: "bytes \<Rightarrow> bytes \<Rightarrow> u32 \<Rightarrow> nat \<Rightarrow> bytes"
  aes_encrypt :: "bytes \<Rightarrow> bytes \<Rightarrow> bytes option"
  aes_decrypt :: "bytes \<Rightarrow> bytes \<Rightarrow> bytes option"
  aes_decrypt_pkcs7 :: "bytes \<Rightarrow> bytes \<Rightarrow> bytes option"
  hex_decode :: "string \<Rightarrow> string + bytes"
  hex_upper :: "bytes \<Rightarrow> string"

text \<open>PKCS 7: the number of missing bytes, one to sixteen, as often as it says.\<close>

definition pkcs7_pad :: "bytes \<Rightarrow> bytes" where
  "pkcs7_pad m = (let n = 16 - length m mod 16 in m @ replicate n (word_of_nat n))"

definition crypto_ok :: "crypto \<Rightarrow> bool" where
  "crypto_ok c \<longleftrightarrow>
     (\<forall>m. length (sha1 c m) = 20 \<and> length (sha512 c m) = 64 \<and> length (md5 c m) = 16) \<and>
     (\<forall>p s r n. length (pbkdf2 c p s r n) = n) \<and>
     (\<forall>k m. length k \<in> {24, 32} \<longrightarrow> 16 dvd length m \<longrightarrow>
        (\<exists>x. aes_encrypt c k m = Some x \<and> length x = length m \<and> aes_decrypt c k x = Some m)) \<and>
     (\<forall>k m x. length k \<in> {24, 32} \<longrightarrow> aes_encrypt c k (pkcs7_pad m) = Some x \<longrightarrow>
        aes_decrypt_pkcs7 c k x = Some m) \<and>
     (\<forall>m. hex_decode c (hex_upper c m) = Inr m)"

section \<open>The state\<close>

datatype verifier = V11G | V12C

record auth_state =
  verifier :: verifier
  a_password :: bytes
  vfr_data :: bytes
  server_a :: bytes
  client_b :: "bytes option"
  csk_salt :: "bytes option"
  vgen_count :: u32
  sder_count :: u32

definition new_11g :: "bytes \<Rightarrow> bytes \<Rightarrow> bytes \<Rightarrow> auth_state" where
  "new_11g pw vfr a = \<lparr>verifier = V11G, a_password = pw, vfr_data = vfr, server_a = a,
     client_b = None, csk_salt = None, vgen_count = 0, sder_count = 0\<rparr>"

definition new_12c :: "bytes \<Rightarrow> bytes \<Rightarrow> bytes \<Rightarrow> bytes \<Rightarrow> auth_state" where
  "new_12c pw vfr a salt = \<lparr>verifier = V12C, a_password = pw, vfr_data = vfr, server_a = a,
     client_b = None, csk_salt = Some salt, vgen_count = 4096, sder_count = 3\<rparr>"

section \<open>Keys\<close>

definition password_hash_11g :: "crypto \<Rightarrow> bytes \<Rightarrow> bytes \<Rightarrow> bytes" where
  "password_hash_11g c pw vfr = sha1 c (pw @ vfr) @ replicate 4 0"

definition password_key_12c :: "crypto \<Rightarrow> bytes \<Rightarrow> bytes \<Rightarrow> u32 \<Rightarrow> bytes" where
  "password_key_12c c pw vfr vgen = pbkdf2 c pw (vfr @ str_bytes ''AUTH_PBKDF2_SPEEDY_KEY'') vgen 64"

definition password_hash_12c :: "crypto \<Rightarrow> bytes \<Rightarrow> bytes \<Rightarrow> u32 \<Rightarrow> bytes" where
  "password_hash_12c c pw vfr vgen = take 32 (sha512 c (password_key_12c c pw vfr vgen @ vfr))"

definition password_hash :: "crypto \<Rightarrow> auth_state \<Rightarrow> bytes" where
  "password_hash c s = (case verifier s of
       V11G \<Rightarrow> password_hash_11g c (a_password s) (vfr_data s)
     | V12C \<Rightarrow> password_hash_12c c (a_password s) (vfr_data s) (vgen_count s))"

text \<open>\<^verbatim>\<open>slice[a..b]\<close>: out of range panics.\<close>

definition slice :: "nat \<Rightarrow> nat \<Rightarrow> bytes \<Rightarrow> bytes option" where
  "slice a b bs = (if a \<le> b \<and> b \<le> length bs then Some (take (b - a) (drop a bs)) else None)"

text \<open>The key both sides derive from the two session keys.\<close>

definition combo_of :: "crypto \<Rightarrow> auth_state \<Rightarrow> bytes \<Rightarrow> bytes option" where
  "combo_of c s b = (case verifier s of
       V11G \<Rightarrow> Option.bind (slice 16 40 (server_a s)) (\<lambda>x. Option.bind (slice 16 40 b) (\<lambda>y.
         let xored = map2 (XOR) x y
         in Some (md5 c (take 16 xored) @ take 8 (md5 c (drop 16 xored)))))
     | V12C \<Rightarrow> Option.bind (slice 0 32 b) (\<lambda>y. Option.bind (slice 0 32 (server_a s)) (\<lambda>x.
         Option.bind (csk_salt s) (\<lambda>salt.
           Some (pbkdf2 c (str_bytes (hex_upper c y @ hex_upper c x)) salt (sder_count s) 32)))))"

definition combo_key :: "crypto \<Rightarrow> auth_state \<Rightarrow> bytes option" where
  "combo_key c s = Option.bind (client_b s) (combo_of c s)"

section \<open>The exchange\<close>

definition phase_one_sesskey :: "crypto \<Rightarrow> auth_state \<Rightarrow> bytes option" where
  "phase_one_sesskey c s = aes_encrypt c (password_hash c s) (server_a s)"

definition set_client_sesskey :: "crypto \<Rightarrow> string \<Rightarrow> auth_state \<Rightarrow> string + auth_state" where
  "set_client_sesskey c client_sesskey_hex s =
     and_then (hex_decode c client_sesskey_hex) (\<lambda>ciphertext.
     map_ok (\<lambda>plaintext. s\<lparr>client_b := Some plaintext\<rparr>)
       (ok_or (case verifier s of V11G \<Rightarrow> ''invalid AES-192 session-key ciphertext''
            | V12C \<Rightarrow> ''invalid AES-256 session-key ciphertext'')
          (aes_decrypt c (password_hash c s) ciphertext)))"

text \<open>The outer option is the panic of \<open>combo_key\<close>.\<close>

definition verify_password :: "crypto \<Rightarrow> string \<Rightarrow> auth_state \<Rightarrow> (string + unit) option" where
  "verify_password c auth_password_hex s = (case hex_decode c auth_password_hex of
       Inl e \<Rightarrow> Some (Inl e)
     | Inr ciphertext \<Rightarrow> Option.bind (combo_key c s) (\<lambda>key. Some (
         and_then (ok_or (case verifier s of V11G \<Rightarrow> ''invalid AES-192 password proof''
              | V12C \<Rightarrow> ''invalid AES-256 password proof'') (aes_decrypt_pkcs7 c key ciphertext))
           (\<lambda>plaintext.
             let n = length (a_password s) in
             if length plaintext < 16 + n then Inl ''password plaintext too short''
             else if take n (drop 16 plaintext) \<noteq> a_password s then Inl ''password mismatch''
             else Inr ()))))"

definition verify_speedy_key :: "crypto \<Rightarrow> string \<Rightarrow> auth_state \<Rightarrow> (string + unit) option" where
  "verify_speedy_key c speedy_key_hex s = (case verifier s of
       V11G \<Rightarrow> Some (Inr ())
     | V12C \<Rightarrow> (case hex_decode c speedy_key_hex of
           Inl e \<Rightarrow> Some (Inl e)
         | Inr ciphertext \<Rightarrow> Option.bind (combo_key c s) (\<lambda>key. Some (
             and_then (ok_or ''invalid AES-256 session-key ciphertext'' (aes_decrypt c key ciphertext))
               (\<lambda>plaintext.
                 let pk = password_key_12c c (a_password s) (vfr_data s) (vgen_count s); n = length pk in
                 if length plaintext < 16 + n then Inl ''speedy key plaintext too short''
                 else if take n (drop 16 plaintext) \<noteq> pk then Inl ''speedy key mismatch''
                 else Inr ())))))"

definition svr_marker :: bytes where
  "svr_marker = replicate 16 0 @ str_bytes ''SERVER_TO_CLIENT'' @ replicate 16 0x10"

definition svr_response :: "crypto \<Rightarrow> auth_state \<Rightarrow> bytes option" where
  "svr_response c s = Option.bind (combo_key c s) (\<lambda>key. aes_encrypt c key svr_marker)"

section \<open>Keys have their lengths\<close>

definition state_ok :: "auth_state \<Rightarrow> bool" where
  "state_ok s \<longleftrightarrow> length (vfr_data s) = 16 \<and> (\<forall>salt. csk_salt s = Some salt \<longrightarrow> length salt = 16) \<and>
     length (server_a s) = (case verifier s of V11G \<Rightarrow> 48 | V12C \<Rightarrow> 32) \<and>
     (verifier s = V12C \<longrightarrow> csk_salt s \<noteq> None)"

definition key_length :: "verifier \<Rightarrow> nat" where
  "key_length v = (case v of V11G \<Rightarrow> 24 | V12C \<Rightarrow> 32)"

definition client_key_length :: "verifier \<Rightarrow> nat" where
  "client_key_length v = (case v of V11G \<Rightarrow> 48 | V12C \<Rightarrow> 32)"

lemma new_state_ok:
  "length vfr = 16 \<Longrightarrow> length a = 48 \<Longrightarrow> state_ok (new_11g pw vfr a)"
  "length vfr = 16 \<Longrightarrow> length a = 32 \<Longrightarrow> length salt = 16 \<Longrightarrow> state_ok (new_12c pw vfr a salt)"
  by (simp_all add: state_ok_def new_11g_def new_12c_def)

lemma password_hash_length: "crypto_ok c \<Longrightarrow> length (password_hash c s) = key_length (verifier s)"
  by (auto simp: crypto_ok_def password_hash_def password_hash_11g_def password_hash_12c_def key_length_def
      split: verifier.split)

lemma combo_of_some:
  assumes "crypto_ok c" "state_ok s" "length b = client_key_length (verifier s)"
  shows "\<exists>k. combo_of c s b = Some k \<and> length k = key_length (verifier s)"
  using assms by (cases "verifier s")
    (auto simp: combo_of_def state_ok_def client_key_length_def key_length_def slice_def crypto_ok_def Let_def)

lemma crypto_block:
  "crypto_ok c \<Longrightarrow> length k \<in> {24, 32} \<Longrightarrow> 16 dvd length m \<Longrightarrow>
     \<exists>x. aes_encrypt c k m = Some x \<and> length x = length m \<and> aes_decrypt c k x = Some m"
  unfolding crypto_ok_def by blast

lemma crypto_padding:
  "crypto_ok c \<Longrightarrow> length k \<in> {24, 32} \<Longrightarrow> aes_encrypt c k (pkcs7_pad m) = Some x \<Longrightarrow>
     aes_decrypt_pkcs7 c k x = Some m"
  unfolding crypto_ok_def by blast

lemma crypto_hex: "crypto_ok c \<Longrightarrow> hex_decode c (hex_upper c m) = Inr m"
  unfolding crypto_ok_def by blast

lemma key_length_aes: "key_length v \<in> {24, 32}"
  by (cases v) (simp_all add: key_length_def)

lemma encrypt_some:
  assumes "crypto_ok c" "length k = key_length v" "16 dvd length m"
  obtains x where "aes_encrypt c k m = Some x" "aes_decrypt c k x = Some m"
  using crypto_block [OF assms(1) _ assms(3), of k] key_length_aes [of v] assms(2) by force

lemma pad_blocks: "16 dvd length (pkcs7_pad m)"
proof -
  have "length (pkcs7_pad m) = length m + (16 - length m mod 16)"
    by (simp add: pkcs7_pad_def Let_def)
  also have "\<dots> = 16 * (length m div 16) + 16"
    using mult_div_mod_eq [of 16 "length m"] mod_less_divisor [of 16 "length m"] by linarith
  finally show ?thesis by simp
qed

lemma pkcs7_some:
  assumes "crypto_ok c" "length k = key_length v"
  obtains x where "aes_encrypt c k (pkcs7_pad m) = Some x" "aes_decrypt_pkcs7 c k x = Some m"
proof -
  obtain x where x: "aes_encrypt c k (pkcs7_pad m) = Some x"
    using encrypt_some [OF assms pad_blocks] .
  moreover have "aes_decrypt_pkcs7 c k x = Some m"
    using crypto_padding [OF assms(1) _ x] key_length_aes [of v] assms(2) by simp
  ultimately show thesis by (rule that)
qed

section \<open>An honest client\<close>

text \<open>
  What a client that knows the password sends: its session key \<open>b\<close> under the password hash,
  and under the derived key sixteen bytes \<open>nonce\<close> and the password, padded.
\<close>

definition client_sesskey :: "crypto \<Rightarrow> auth_state \<Rightarrow> bytes \<Rightarrow> string option" where
  "client_sesskey c s b = map_option (hex_upper c) (aes_encrypt c (password_hash c s) b)"

definition client_proof :: "crypto \<Rightarrow> auth_state \<Rightarrow> bytes \<Rightarrow> bytes \<Rightarrow> bytes \<Rightarrow> string option" where
  "client_proof c s b nonce pw = Option.bind (combo_of c s b) (\<lambda>key.
     map_option (hex_upper c) (aes_encrypt c key (pkcs7_pad (nonce @ pw))))"

lemma set_client_sesskey_honest:
  assumes "crypto_ok c" "length b = client_key_length (verifier s)"
  shows "\<exists>h. client_sesskey c s b = Some h \<and> set_client_sesskey c h s = Inr (s\<lparr>client_b := Some b\<rparr>)"
proof -
  have "16 dvd length b" using assms(2) by (cases "verifier s") (simp_all add: client_key_length_def)
  then obtain x where "aes_encrypt c (password_hash c s) b = Some x" "aes_decrypt c (password_hash c s) x = Some b"
    by (rule encrypt_some [OF assms(1) password_hash_length [OF assms(1)]])
  then show ?thesis
    by (simp add: client_sesskey_def set_client_sesskey_def crypto_hex [OF assms(1)])
qed

lemma combo_of_client_b: "combo_of c (s\<lparr>client_b := x\<rparr>) b = combo_of c s b"
  by (simp add: combo_of_def split: verifier.split)

lemma honest_verified:
  assumes "crypto_ok c" and "state_ok s" and "length b = client_key_length (verifier s)"
    and "length nonce = 16"
  shows "\<exists>h p r k. client_sesskey c s b = Some h \<and> client_proof c s b nonce (a_password s) = Some p \<and>
      set_client_sesskey c h s = Inr (s\<lparr>client_b := Some b\<rparr>) \<and>
      verify_password c p (s\<lparr>client_b := Some b\<rparr>) = Some (Inr ()) \<and>
      svr_response c (s\<lparr>client_b := Some b\<rparr>) = Some r \<and>
      combo_of c s b = Some k \<and> aes_decrypt c k r = Some svr_marker"
proof -
  obtain h where h: "client_sesskey c s b = Some h" "set_client_sesskey c h s = Inr (s\<lparr>client_b := Some b\<rparr>)"
    using set_client_sesskey_honest [OF assms(1,3)] by blast
  obtain k where k: "combo_of c s b = Some k" "length k = key_length (verifier s)"
    using combo_of_some [OF assms(1,2,3)] by blast
  obtain x where x: "aes_encrypt c k (pkcs7_pad (nonce @ a_password s)) = Some x"
      "aes_decrypt_pkcs7 c k x = Some (nonce @ a_password s)"
    by (rule pkcs7_some [OF assms(1) k(2)])
  have "16 dvd length svr_marker" by (simp add: svr_marker_def str_bytes_def)
  then obtain r where r: "aes_encrypt c k svr_marker = Some r" "aes_decrypt c k r = Some svr_marker"
    by (rule encrypt_some [OF assms(1) k(2)])
  have key: "combo_key c (s\<lparr>client_b := Some b\<rparr>) = Some k"
    using k(1) by (simp add: combo_key_def combo_of_client_b)
  have "client_proof c s b nonce (a_password s) = Some (hex_upper c x)"
    by (simp add: client_proof_def k x)
  moreover have "verify_password c (hex_upper c x) (s\<lparr>client_b := Some b\<rparr>) = Some (Inr ())"
    using assms(4) by (simp add: verify_password_def crypto_hex [OF assms(1)] key x(2))
  moreover have "svr_response c (s\<lparr>client_b := Some b\<rparr>) = Some r"
    by (simp add: svr_response_def key r)
  ultimately show ?thesis using h k r by blast
qed

section \<open>Properties\<close>

text \<open>
  A client that knows the password is let in: its session key is accepted, its proof
  verifies, and the server's answer decrypts under the key both sides derived to the
  marker the client checks.  This holds for both verifiers.
\<close>

theorem honest_client_verified:
  assumes "crypto_ok c" and "state_ok s" and "length b = client_key_length (verifier s)"
    and "length nonce = 16"
  shows "\<exists>h p r k. client_sesskey c s b = Some h \<and> client_proof c s b nonce (a_password s) = Some p \<and>
      set_client_sesskey c h s = Inr (s\<lparr>client_b := Some b\<rparr>) \<and>
      verify_password c p (s\<lparr>client_b := Some b\<rparr>) = Some (Inr ()) \<and>
      svr_response c (s\<lparr>client_b := Some b\<rparr>) = Some r \<and>
      combo_of c s b = Some k \<and> aes_decrypt c k r = Some svr_marker"
  by (rule honest_verified [OF assms])

text \<open>A concrete \<open>crypto\<close> with the documented laws: a cipher that does nothing.\<close>

definition null_crypto :: crypto where
  "null_crypto = \<lparr>sha1 = (\<lambda>m. take 20 (m @ replicate 20 0)), sha512 = (\<lambda>m. take 64 (m @ replicate 64 0)),
     md5 = (\<lambda>m. take 16 (m @ replicate 16 0)), pbkdf2 = (\<lambda>p s r n. take n (p @ s @ replicate n 0)),
     aes_encrypt = (\<lambda>k m. if length m mod 16 = 0 then Some m else None),
     aes_decrypt = (\<lambda>k m. if length m mod 16 = 0 then Some m else None),
     aes_decrypt_pkcs7 = (\<lambda>k m. if m = [] then None else Some (take (length m - unat (last m)) m)),
     hex_decode = (\<lambda>h. Inr (str_bytes h)), hex_upper = bytes_str\<rparr>"

lemma null_crypto_ok: "crypto_ok null_crypto"
proof -
  have pad: "pkcs7_pad m \<noteq> [] \<and> take (length (pkcs7_pad m) - unat (last (pkcs7_pad m))) (pkcs7_pad m) = m" for m
  proof -
    obtain n where n: "0 < n" "n \<le> 16" "pkcs7_pad m = m @ replicate n (word_of_nat n)"
      by (rule that [of "16 - length m mod 16"]) (simp_all add: pkcs7_pad_def Let_def)
    then show ?thesis by (simp add: unat_word_of_nat_u8)
  qed
  show ?thesis
    using pad by (auto simp: crypto_ok_def null_crypto_def dvd_eq_mod_eq_0 min_def split: if_splits)
qed

theorem honest_client_verified_witness:
  "\<exists>h p r k. client_sesskey null_crypto (new_12c [1, 2] (replicate 16 0) (replicate 32 3) (replicate 16 4)) (replicate 32 5) = Some h \<and>
      client_proof null_crypto (new_12c [1, 2] (replicate 16 0) (replicate 32 3) (replicate 16 4)) (replicate 32 5) (replicate 16 6)
        (a_password (new_12c [1, 2] (replicate 16 0) (replicate 32 3) (replicate 16 4))) = Some p \<and>
      set_client_sesskey null_crypto h (new_12c [1, 2] (replicate 16 0) (replicate 32 3) (replicate 16 4))
        = Inr ((new_12c [1, 2] (replicate 16 0) (replicate 32 3) (replicate 16 4))\<lparr>client_b := Some (replicate 32 5)\<rparr>) \<and>
      verify_password null_crypto p ((new_12c [1, 2] (replicate 16 0) (replicate 32 3) (replicate 16 4))\<lparr>client_b := Some (replicate 32 5)\<rparr>)
        = Some (Inr ()) \<and>
      svr_response null_crypto ((new_12c [1, 2] (replicate 16 0) (replicate 32 3) (replicate 16 4))\<lparr>client_b := Some (replicate 32 5)\<rparr>) = Some r \<and>
      combo_of null_crypto (new_12c [1, 2] (replicate 16 0) (replicate 32 3) (replicate 16 4)) (replicate 32 5) = Some k \<and>
      aes_decrypt null_crypto k r = Some svr_marker"
  by (rule honest_client_verified [OF null_crypto_ok new_state_ok(2)])
    (simp_all add: client_key_length_def new_12c_def)

text \<open>
  C39.  The proof is accepted exactly when it decrypts, under the derived key, to something
  that has the password after its first sixteen bytes; anything may follow the password.
  A missing or too short client key is no verdict at all: the source panics there.
\<close>

theorem verify_password_accepts:
  "verify_password c h s = Some (Inr ()) \<longleftrightarrow>
     (\<exists>x k salt rest. hex_decode c h = Inr x \<and> combo_key c s = Some k \<and> length salt = 16 \<and>
        aes_decrypt_pkcs7 c k x = Some (salt @ a_password s @ rest))"
proof
  assume v: "verify_password c h s = Some (Inr ())"
  then obtain x k m where x: "hex_decode c h = Inr x" "combo_key c s = Some k" "aes_decrypt_pkcs7 c k x = Some m"
    and m: "16 + length (a_password s) \<le> length m" "take (length (a_password s)) (drop 16 m) = a_password s"
    by (auto simp: verify_password_def and_then_Inr_conv ok_or_def Let_def bind_eq_Some_conv not_less
        split: sum.splits option.splits if_splits)
  have "m = take 16 m @ a_password s @ drop (length (a_password s)) (drop 16 m)"
    using m(2) by (metis append_take_drop_id)
  moreover have "length (take 16 m) = 16" using m(1) by simp
  ultimately show "\<exists>x k salt rest. hex_decode c h = Inr x \<and> combo_key c s = Some k \<and> length salt = 16 \<and>
        aes_decrypt_pkcs7 c k x = Some (salt @ a_password s @ rest)"
    using x by metis
next
  assume "\<exists>x k salt rest. hex_decode c h = Inr x \<and> combo_key c s = Some k \<and> length salt = 16 \<and>
        aes_decrypt_pkcs7 c k x = Some (salt @ a_password s @ rest)"
  then show "verify_password c h s = Some (Inr ())"
    by (auto simp: verify_password_def Let_def)
qed

end
