(* ===== verification/Login.thy ===== *)
theory Login
  imports Negotiation Session_Loop Auth_Wire Auth Credentials
begin

text \<open>
  A connection from its first packet to its end (\<open>handle_connection\<close> of \<^verbatim>\<open>src/src/server.rs\<close>):
  the user is looked up, proves the password, and only then the database is opened and the
  command loop entered.  \<open>connect\<close> opens the database for a user and a password and may
  change \<open>world\<close>; the random bytes, the recorded replies of the OCI dialect and the crates are
  fields of the configuration.
\<close>

section \<open>Configuration and state\<close>

record config =
  cfg_credentials :: credentials
  cfg_version :: oracle_version
  cfg_backend :: backend_kind
  cfg_idle :: "nat option"
  cfg_crypto :: crypto
  cfg_random :: "verifier \<Rightarrow> bytes \<times> bytes \<times> bytes"
  recorded_types :: bytes
  recorded_phase_two :: bytes
  next_session_id :: u64

record 'w conn_state =
  wire :: tns
  shown_user :: "string option"
  world :: 'w

text \<open>How a connection ends before its command loop: an error, a panic, or a plain return.\<close>

datatype ending = Stops stop | Panics | Returns

type_synonym ('w, 'a) login = "('w conn_state, ending, 'a) step"

definition on_wire :: "'a net \<Rightarrow> ('w, 'a) login" where
  "on_wire f s = (case f (wire s) of
       (Inl e, n) \<Rightarrow> (Inl (Stops e), s\<lparr>wire := n\<rparr>)
     | (Inr a, n) \<Rightarrow> (Inr a, s\<lparr>wire := n\<rparr>))"

definition or_panic :: "'a option \<Rightarrow> ('w, 'a) login" where
  "or_panic x = (case x of None \<Rightarrow> fail Panics | Some a \<Rightarrow> ok a)"

definition show_user :: "string \<Rightarrow> ('w, unit) login" where
  "show_user u s = (Inr (), s\<lparr>shown_user := Some u\<rparr>)"

section \<open>The dialect of the replies\<close>

definition newer_framing :: "wire_profile \<Rightarrow> bool" where
  "newer_framing p \<longleftrightarrow> newer_describe_framing p \<or> oci_dialect p"

definition env_of :: "config \<Rightarrow> wire_profile \<Rightarrow> (string \<Rightarrow> error + string) \<Rightarrow> ('b, 'c) backend \<Rightarrow> ('b, 'c) env" where
  "env_of C p tr b = \<lparr>oci = oci_dialect p, newer = newer_framing p, completion = wants_response_completion p,
     no_list = na_without_version_list p, kind = cfg_backend C, oracle_version = cfg_version C,
     translate = tr, ops = b\<rparr>"

definition invalid_login :: "wire_profile \<Rightarrow> bytes" where
  "invalid_login p = build_error_response (wants_response_completion p) (newer_framing p) (oci_dialect p)
     1017 ''invalid username/password''"

definition refuse :: "wire_profile \<Rightarrow> ending \<Rightarrow> ('w, 'a) login" where
  "refuse p e = let_ok (on_wire (write_packet Data (invalid_login p))) (\<lambda>_. fail e)"

section \<open>Phase one\<close>

definition login_user :: "wire_profile \<Rightarrow> bytes \<Rightarrow> error + string" where
  "login_user p request =
     (if oci_dialect p
      then ok_or (Protocol ''OCI auth phase one has no username'') (fst (parse_oci_auth request))
      else map_ok fst (parse_auth_phase_one_request request))"

definition use_11g :: "config \<Rightarrow> wire_profile \<Rightarrow> bool" where
  "use_11g C p \<longleftrightarrow> cfg_version C = V11g \<and> \<not> newer_framing p \<and> \<not> oci_dialect p"

definition challenge :: "config \<Rightarrow> wire_profile \<Rightarrow> string \<Rightarrow> auth_state" where
  "challenge C p password =
     (if use_11g C p
      then (case cfg_random C V11G of (vfr, a, _) \<Rightarrow> new_11g (str_bytes password) vfr a)
      else (case cfg_random C V12C of (vfr, a, salt) \<Rightarrow> new_12c (str_bytes password) vfr a salt))"

definition phase_one_reply :: "config \<Rightarrow> wire_profile \<Rightarrow> auth_state \<Rightarrow> bytes option" where
  "phase_one_reply C p st =
     Option.bind (phase_one_sesskey (cfg_crypto C) st) (\<lambda>key.
       let hex = hex_upper (cfg_crypto C); sesskey = hex key; vfr = hex (vfr_data st) in
       if use_11g C p then Some (build_auth_phase_one_response_11g sesskey vfr)
       else Option.bind (csk_salt st) (\<lambda>salt. Some (
         (if oci_dialect p then build_auth_phase_one_response_oci
          else if na_without_version_list p then build_auth_phase_one_response_na_no_verlist
          else build_auth_phase_one_response_12c) sesskey vfr (hex salt) (vgen_count st) (sder_count st))))"

section \<open>Phase two\<close>

definition login_pairs :: "wire_profile \<Rightarrow> bytes \<Rightarrow> error + auth_parameters" where
  "login_pairs p request =
     (if oci_dialect p then Inr (snd (parse_oci_auth request))
      else if na_without_version_list p
      then map_ok snd (parse_auth_phase_two_request_na_no_verlist request)
      else map_ok snd (parse_auth_phase_two_request request))"

text \<open>The loop over the pairs keeps the last value of a key.\<close>

definition last_value :: "string \<Rightarrow> auth_parameters \<Rightarrow> string option" where
  "last_value k pairs = map_option from_utf8_lossy (map_of (rev pairs) k)"

definition or_refuse :: "wire_profile \<Rightarrow> string + 'a \<Rightarrow> ('w, 'a) login" where
  "or_refuse p r = (case r of
       Inl e \<Rightarrow> refuse p (Stops (Failed (AuthenticationFailed e)))
     | Inr a \<Rightarrow> ok a)"

definition verify_client :: "config \<Rightarrow> wire_profile \<Rightarrow> auth_parameters \<Rightarrow> auth_state \<Rightarrow> ('w, auth_state) login" where
  "verify_client C p pairs st =
     (case last_value ''AUTH_SESSKEY'' pairs of
        None \<Rightarrow> fail (Stops (Failed (AuthenticationFailed ''missing AUTH_SESSKEY'')))
      | Some sesskey \<Rightarrow> (case last_value ''AUTH_PASSWORD'' pairs of
          None \<Rightarrow> fail (Stops (Failed (AuthenticationFailed ''missing AUTH_PASSWORD'')))
        | Some proof_hex \<Rightarrow>
            let_ok (or_refuse p (set_client_sesskey (cfg_crypto C) sesskey st)) (\<lambda>st.
            let_ok (or_panic (verify_password (cfg_crypto C) proof_hex st)) (\<lambda>v.
            let_ok (or_refuse p v) (\<lambda>_.
            let_ok (case last_value ''AUTH_PBKDF2_SPEEDY_KEY'' pairs of
                None \<Rightarrow> ok ()
              | Some sk \<Rightarrow> let_ok (or_panic (verify_speedy_key (cfg_crypto C) sk st)) (or_refuse p)) (\<lambda>_.
            ok st))))))"

definition phase_two_reply :: "config \<Rightarrow> wire_profile \<Rightarrow> auth_state \<Rightarrow> bytes option" where
  "phase_two_reply C p st =
     map_option (\<lambda>r. let answer = hex_upper (cfg_crypto C) r;
         sid = max (ucast (next_session_id C)) 1;
         no = version_no (cfg_version C); rel = release (cfg_version C) in
       if oci_dialect p then build_auth_phase_two_response_oci (recorded_phase_two C) answer
       else if na_without_version_list p then build_auth_phase_two_response_na_no_verlist answer sid no rel
       else build_auth_phase_two_response answer sid no rel)
     (svr_response (cfg_crypto C) st)"

section \<open>The database and the whole connection\<close>

type_synonym ('w, 'b) connector = "string \<Rightarrow> string \<Rightarrow> ('w, error, 'b) step"

definition backend_connect_error :: "wire_profile \<Rightarrow> error \<Rightarrow> ('w, 'a) login" where
  "backend_connect_error p e = (case oracle_error_for_pos e of (ora, message, pos) \<Rightarrow>
     let_ok (on_wire (write_packet Data (build_error_response_at (wants_response_completion p)
       (newer_framing p) (oci_dialect p) ora message pos))) (\<lambda>_.
     fail (Stops (Failed (Postgres (error_text e))))))"

definition open_database :: "('w, 'b) connector \<Rightarrow> wire_profile \<Rightarrow> string \<Rightarrow> string \<Rightarrow> ('w, 'b) login" where
  "open_database connect p user password s = (case connect user password (world s) of
       (Inl e, w) \<Rightarrow> backend_connect_error p e (s\<lparr>world := w\<rparr>)
     | (Inr b, w) \<Rightarrow> (Inr b, s\<lparr>world := w\<rparr>))"

text \<open>The part after the user has a password to prove.\<close>

definition authenticate :: "config \<Rightarrow> wire_profile \<Rightarrow> string \<Rightarrow> ('w, unit) login" where
  "authenticate C p password =
     (let st = challenge C p password in
      let_ok (or_panic (phase_one_reply C p st)) (\<lambda>reply.
      let_ok (on_wire (write_packet Data reply)) (\<lambda>_.
      let_ok (on_wire (expect_packet Data ''expected auth phase two DATA packet'')) (\<lambda>auth2.
      let_ok (on_wire (with_result (login_pairs p (payload auth2)))) (\<lambda>pairs.
      let_ok (verify_client C p pairs st) (\<lambda>st.
      let_ok (or_panic (phase_two_reply C p st)) (\<lambda>reply.
      on_wire (write_packet Data reply))))))))"

definition log_in :: "config \<Rightarrow> ('w, 'b) connector \<Rightarrow> ('w, wire_profile \<times> 'b) login" where
  "log_in C connect =
     let_ok (on_wire (update_net (\<lambda>n. n\<lparr>idle_timeout := cfg_idle C\<rparr>))) (\<lambda>_.
     let_ok (on_wire accept_connect) (\<lambda>_.
     let_ok (on_wire (negotiate (recorded_types C) fresh_nego)) (\<lambda>(g, auth1).
     let p = profile_of g in
     let_ok (on_wire (with_result (login_user p (payload auth1)))) (\<lambda>user.
     let_ok (show_user user) (\<lambda>_.
     case password_for (cfg_credentials C) user of
       None \<Rightarrow> refuse p Returns
     | Some password \<Rightarrow>
         let_ok (authenticate C p password) (\<lambda>_.
         let_ok (open_database connect p user password) (\<lambda>b.
         ok (p, b))))))))"

text \<open>\<open>Some\<close> session is one whose command loop was entered.\<close>

definition handle_connection ::
    "config \<Rightarrow> (string \<Rightarrow> error + string) \<Rightarrow> ('b, 'c) backend \<Rightarrow> ('w, 'b) connector \<Rightarrow> nat list \<Rightarrow> u64 list
      \<Rightarrow> 'w conn_state \<Rightarrow> (ending + unit) \<times> 'w conn_state \<times> ('b, 'c) session option" where
  "handle_connection C tr b connect ar cl s = (case log_in C connect s of
       (Inl e, t) \<Rightarrow> (Inl e, t, None)
     | (Inr (p, db), t) \<Rightarrow>
         (case serve (env_of C p tr b) (new_session (oci_dialect p) (wire t) db ar cl) of
            (Inl e, u) \<Rightarrow> (Inl (Stops e), t\<lparr>wire := net u\<rparr>, Some u)
          | (Inr _, u) \<Rightarrow> (Inr (), t\<lparr>wire := net u\<rparr>, Some u)))"

section \<open>The database waits for the proof\<close>

text \<open>The pairs of phase two hold a session key and a password proof that verify.\<close>

definition proved :: "config \<Rightarrow> wire_profile \<Rightarrow> string \<Rightarrow> auth_parameters \<Rightarrow> bool" where
  "proved C p password pairs \<longleftrightarrow> (\<exists>sesskey proof_hex st.
     last_value ''AUTH_SESSKEY'' pairs = Some sesskey \<and> last_value ''AUTH_PASSWORD'' pairs = Some proof_hex
     \<and> set_client_sesskey (cfg_crypto C) sesskey (challenge C p password) = Inr st
     \<and> verify_password (cfg_crypto C) proof_hex st = Some (Inr ()))"

definition offline :: "('w, 'a) login \<Rightarrow> bool" where
  "offline f \<longleftrightarrow> (\<forall>s. world (snd (f s)) = world s)"

named_theorems offline_intros

lemma offlineD: "offline f \<Longrightarrow> f s = (r, t) \<Longrightarrow> world t = world s"
  unfolding offline_def by (metis snd_conv)

lemma offline_basic [offline_intros]:
  "offline (ok a)" "offline (fail e)" "offline (on_wire g)" "offline (or_panic x)" "offline (show_user u)"
  by (auto simp: offline_def on_wire_def or_panic_def show_user_def split: prod.split sum.split option.split)

lemma offline_let_ok [offline_intros]:
  assumes "offline f" "\<And>a. offline (g a)"
  shows "offline (let_ok f g)"
  unfolding offline_def
proof
  fix s
  obtain x t where f: "f s = (x, t)" by force
  then show "world (snd (let_ok f g s)) = world s"
    using offlineD [OF assms(1) f] assms(2) by (cases x) (auto simp: offline_def)
qed

lemma offline_replies [offline_intros]:
  "offline (refuse p e)" "offline (or_refuse p r)" "offline (backend_connect_error p err)"
  unfolding refuse_def or_refuse_def backend_connect_error_def
  by (auto intro!: offline_intros split: sum.split prod.split)

lemma offline_verify [offline_intros]: "offline (verify_client C p pairs st)"
  unfolding verify_client_def
  by (auto intro!: offline_intros split: option.split simp del: let_ok_apply)

lemma offline_authenticate: "offline (authenticate C p password)"
  unfolding authenticate_def Let_def by (auto intro!: offline_intros)

lemma or_panic_Inr: "or_panic x s = (Inr a, t) \<Longrightarrow> x = Some a"
  by (simp add: or_panic_def split: option.splits)

lemma refuse_not_Inr: "refuse p e s \<noteq> (Inr a, t)"
  by (auto simp: refuse_def elim!: let_ok_InrE simp del: let_ok_apply)

lemma or_refuse_Inr: "or_refuse p r s = (Inr a, t) \<Longrightarrow> r = Inr a"
  by (cases r) (simp_all add: or_refuse_def refuse_not_Inr)

lemma verify_client_proved:
  assumes "verify_client C p pairs (challenge C p password) s = (Inr st, t)"
  shows "proved C p password pairs"
proof -
  obtain sesskey proof_hex where
    k: "last_value ''AUTH_SESSKEY'' pairs = Some sesskey" "last_value ''AUTH_PASSWORD'' pairs = Some proof_hex"
    using assms unfolding verify_client_def by (auto split: option.splits simp del: let_ok_apply)
  note run = assms [unfolded verify_client_def k option.case]
  from let_ok_InrE [OF run] obtain st1 s1 where
    1: "or_refuse p (set_client_sesskey (cfg_crypto C) sesskey (challenge C p password)) s = (Inr st1, s1)"
    and run1: "let_ok (or_panic (verify_password (cfg_crypto C) proof_hex st1)) (\<lambda>v.
            let_ok (or_refuse p v) (\<lambda>_.
            let_ok (case last_value ''AUTH_PBKDF2_SPEEDY_KEY'' pairs of
                None \<Rightarrow> ok ()
              | Some sk \<Rightarrow> let_ok (or_panic (verify_speedy_key (cfg_crypto C) sk st1)) (or_refuse p)) (\<lambda>_.
            ok st1))) s1 = (Inr st, t)" by blast
  from let_ok_InrE [OF run1] obtain v s2 where
    2: "or_panic (verify_password (cfg_crypto C) proof_hex st1) s1 = (Inr v, s2)"
    and run2: "let_ok (or_refuse p v) (\<lambda>_.
            let_ok (case last_value ''AUTH_PBKDF2_SPEEDY_KEY'' pairs of
                None \<Rightarrow> ok ()
              | Some sk \<Rightarrow> let_ok (or_panic (verify_speedy_key (cfg_crypto C) sk st1)) (or_refuse p)) (\<lambda>_.
            ok st1)) s2 = (Inr st, t)" by blast
  from let_ok_InrE [OF run2] obtain u s3 where 3: "or_refuse p v s2 = (Inr u, s3)" by blast
  from or_refuse_Inr [OF 1] or_panic_Inr [OF 2] or_refuse_Inr [OF 3] k show ?thesis
    unfolding proved_def by (cases u) auto
qed

text \<open>
  The exchange of a login, on the two byte streams: the packet the negotiation ends with names
  the user, the challenge of that user's password is written, and the next packet holds the
  pairs that prove it.
\<close>

definition login_exchange :: "config \<Rightarrow> tns \<Rightarrow> wire_profile \<Rightarrow> string \<Rightarrow> string \<Rightarrow> bool" where
  "login_exchange C n p user password \<longleftrightarrow> (\<exists>n1 g auth1 n2 reply n3 auth2 n4 pairs.
     accept_connect (n\<lparr>idle_timeout := cfg_idle C\<rparr>) = (Inr (), n1)
     \<and> negotiate (recorded_types C) fresh_nego n1 = (Inr (g, auth1), n2) \<and> p = profile_of g
     \<and> login_user p (payload auth1) = Inr user \<and> password_for (cfg_credentials C) user = Some password
     \<and> phase_one_reply C p (challenge C p password) = Some reply
     \<and> write_packet Data reply n2 = (Inr (), n3)
     \<and> expect_packet Data ''expected auth phase two DATA packet'' n3 = (Inr auth2, n4)
     \<and> login_pairs p (payload auth2) = Inr pairs \<and> proved C p password pairs)"

lemma on_wire_Inr: "on_wire f s = (Inr a, t) \<Longrightarrow> f (wire s) = (Inr a, wire t) \<and> world t = world s"
  by (auto simp: on_wire_def split: prod.splits sum.splits)

lemma or_panic_state: "or_panic x s = (Inr a, t) \<Longrightarrow> t = s"
  by (simp add: or_panic_def split: option.splits)

lemma on_wire_result: "on_wire (with_result r) s = (Inr a, t) \<Longrightarrow> r = Inr a \<and> wire t = wire s"
  by (auto simp: on_wire_def with_result_def split: sum.splits)

lemma authenticate_proved:
  fixes s :: "'w conn_state"
  assumes "authenticate C p password s = (Inr u, t)"
  obtains reply n3 auth2 n4 pairs where "phase_one_reply C p (challenge C p password) = Some reply"
    "write_packet Data reply (wire s) = (Inr (), n3)"
    "expect_packet Data ''expected auth phase two DATA packet'' n3 = (Inr auth2, n4)"
    "login_pairs p (payload auth2) = Inr pairs" "proved C p password pairs"
proof -
  obtain reply v auth2 pairs st and s1 s2 s3 s4 s5 :: "'w conn_state" where
    r: "or_panic (phase_one_reply C p (challenge C p password)) s = (Inr reply, s1)"
    and w: "on_wire (write_packet Data reply) s1 = (Inr v, s2)"
    and e: "on_wire (expect_packet Data ''expected auth phase two DATA packet'') s2 = (Inr auth2, s3)"
    and p: "on_wire (with_result (login_pairs p (payload auth2))) s3 = (Inr pairs, s4)"
    and v: "verify_client C p pairs (challenge C p password) s4 = (Inr st, s5)"
    using assms unfolding authenticate_def Let_def by (elim let_ok_InrE) blast
  show thesis
  proof (rule that)
    show "phase_one_reply C p (challenge C p password) = Some reply" using or_panic_Inr [OF r] .
    show "write_packet Data reply (wire s) = (Inr (), wire s2)"
      using on_wire_Inr [OF w] or_panic_state [OF r] by (cases v) simp
    show "expect_packet Data ''expected auth phase two DATA packet'' (wire s2) = (Inr auth2, wire s3)"
      using on_wire_Inr [OF e] by simp
    show "login_pairs p (payload auth2) = Inr pairs" using on_wire_result [OF p] by simp
    show "proved C p password pairs" using v by (rule verify_client_proved)
  qed
qed

text \<open>A login fails before the database is opened, or gets there with a proof.\<close>

lemma on_wire_update: "on_wire (update_net g) s = (Inr (), s\<lparr>wire := g (wire s)\<rparr>)"
  by (simp add: on_wire_def update_net_def)

text \<open>What \<open>log_in\<close> runs once the user of the connection is known.\<close>

abbreviation with_password :: "config \<Rightarrow> ('w, 'b) connector \<Rightarrow> wire_profile \<Rightarrow> string \<Rightarrow> ('w, wire_profile \<times> 'b) login" where
  "with_password C connect p user \<equiv> (case password_for (cfg_credentials C) user of
       None \<Rightarrow> refuse p Returns
     | Some password \<Rightarrow>
         let_ok (authenticate C p password) (\<lambda>_. let_ok (open_database connect p user password) (\<lambda>b. ok (p, b))))"

lemma log_in_start:
  fixes s :: "'w conn_state"
  assumes run: "log_in C connect s = (r, t)"
  obtains e where "r = Inl e" "world t = world s"
  | n1 g auth1 user s1 where "accept_connect ((wire s)\<lparr>idle_timeout := cfg_idle C\<rparr>) = (Inr (), n1)"
      "negotiate (recorded_types C) fresh_nego n1 = (Inr (g, auth1), wire s1)"
      "login_user (profile_of g) (payload auth1) = Inr user"
      "world s1 = world s" "with_password C connect (profile_of g) user s1 = (r, t)"
proof -
  note off = offlineD [OF offline_basic(3)]
  let ?s0 = "s\<lparr>wire := (wire s)\<lparr>idle_timeout := cfg_idle C\<rparr>\<rparr>"
  let ?named = "\<lambda>(g, auth1). let_ok (on_wire (with_result (login_user (profile_of g) (payload auth1))))
      (\<lambda>user. let_ok (show_user user) (\<lambda>_. with_password C connect (profile_of g) user))"
  have run0: "let_ok (on_wire accept_connect) (\<lambda>_. let_ok (on_wire (negotiate (recorded_types C) fresh_nego)) ?named) ?s0 = (r, t)"
    using run unfolding log_in_def Let_def let_ok_def by (simp add: on_wire_update)
  show thesis
  proof (rule let_ok_cases [OF run0])
    fix e assume "on_wire accept_connect ?s0 = (Inl e, t)" "r = Inl e"
    with that(1) off show thesis by fastforce
  next
    fix a s1 assume a: "on_wire accept_connect ?s0 = (Inr a, s1)"
      and run1: "let_ok (on_wire (negotiate (recorded_types C) fresh_nego)) ?named s1 = (r, t)"
    have w1: "accept_connect ((wire s)\<lparr>idle_timeout := cfg_idle C\<rparr>) = (Inr (), wire s1)" "world s1 = world s"
      using on_wire_Inr [OF a] by simp_all
    show thesis
    proof (rule let_ok_cases [OF run1])
      fix e assume "on_wire (negotiate (recorded_types C) fresh_nego) s1 = (Inl e, t)" "r = Inl e"
      with w1 that(1) off show thesis by fastforce
    next
      fix b s2 assume b: "on_wire (negotiate (recorded_types C) fresh_nego) s1 = (Inr b, s2)"
        and run2: "?named b s2 = (r, t)"
      obtain g auth1 where g: "b = (g, auth1)" by force
      have w2: "negotiate (recorded_types C) fresh_nego (wire s1) = (Inr (g, auth1), wire s2)" "world s2 = world s"
        using on_wire_Inr [OF b] g w1 by simp_all
      from run2 g have "let_ok (on_wire (with_result (login_user (profile_of g) (payload auth1))))
        (\<lambda>user. let_ok (show_user user) (\<lambda>_. with_password C connect (profile_of g) user)) s2 = (r, t)" by simp
      then show thesis
      proof (rule let_ok_cases)
        fix e assume "on_wire (with_result (login_user (profile_of g) (payload auth1))) s2 = (Inl e, t)" "r = Inl e"
        with w2 that(1) off show thesis by metis
      next
        fix user s3 assume u: "on_wire (with_result (login_user (profile_of g) (payload auth1))) s2 = (Inr user, s3)"
          and run3: "let_ok (show_user user) (\<lambda>_. with_password C connect (profile_of g) user) s3 = (r, t)"
        have "login_user (profile_of g) (payload auth1) = Inr user" "wire s3 = wire s2" "world s3 = world s"
          using on_wire_result [OF u] on_wire_Inr [OF u] w2 by simp_all
        moreover from run3 have "with_password C connect (profile_of g) user (s3\<lparr>shown_user := Some user\<rparr>) = (r, t)"
          by (simp add: let_ok_def show_user_def)
        ultimately show thesis using that(2) [OF w1(1), of g auth1 "s3\<lparr>shown_user := Some user\<rparr>" user] w2 by simp
      qed
    qed
  qed
qed

lemma log_in_cases:
  assumes "log_in C connect s = (r, t)"
  obtains e where "r = Inl e" "world t = world s"
  | user password p s1 where "login_exchange C (wire s) p user password" "world s1 = world s"
      "let_ok (open_database connect p user password) (\<lambda>b. ok (p, b)) s1 = (r, t)"
  using assms
proof (cases rule: log_in_start)
  case (1 e)
  with that(1) show thesis by blast
next
  case (2 n1 g auth1 user s1)
  let ?p = "profile_of g"
  note off = offlineD [OF offline_authenticate]
  show thesis
  proof (cases "password_for (cfg_credentials C) user")
    case None
    with 2 have "refuse ?p Returns s1 = (r, t)" by simp
    with 2 show thesis
      using that(1) offlineD [OF offline_replies(1)] refuse_not_Inr by (metis sum.exhaust)
  next
    case (Some password)
    with 2 have "let_ok (authenticate C ?p password) (\<lambda>_. let_ok (open_database connect ?p user password) (\<lambda>b. ok (?p, b))) s1 = (r, t)"
      by simp
    then show thesis
    proof (rule let_ok_cases)
      fix e assume "authenticate C ?p password s1 = (Inl e, t)" "r = Inl e"
      with 2 that(1) off show thesis by metis
    next
      fix a u assume a: "authenticate C ?p password s1 = (Inr a, u)"
        and o: "let_ok (open_database connect ?p user password) (\<lambda>b. ok (?p, b)) u = (r, t)"
      from a have "login_exchange C (wire s) ?p user password"
        by (rule authenticate_proved) (use 2 Some in \<open>unfold login_exchange_def, blast\<close>)
      moreover have "world u = world s" using off [OF a] 2 by simp
      ultimately show thesis using that(2) o by metis
    qed
  qed
qed

lemma backend_error_stops: "backend_connect_error p err s = (r, t) \<Longrightarrow> \<exists>why. r = Inl (Stops why)"
  by (auto simp: backend_connect_error_def on_wire_def split: prod.splits sum.splits elim!: let_ok_cases
      simp del: let_ok_apply)

section \<open>Properties\<close>

text \<open>
  C1.  The database is opened only for a client that proved the password on this connection: the
  connection either ends with the database untouched, or the database was opened exactly once,
  for the user named in the packet that ended the negotiation and with the stored password of
  that user, after a challenge of that password was written and the next packet of the client
  was read and held a session key and a password proof that verify against that challenge; the
  command loop gets the result of that opening.
\<close>

theorem database_needs_proof:
  "case log_in C connect s of
     (Inr (p, db), t) \<Rightarrow> \<exists>user password. login_exchange C (wire s) p user password
        \<and> connect user password (world s) = (Inr db, world t)
   | (Inl e, t) \<Rightarrow> world t = world s
        \<or> (\<exists>p user password err why. login_exchange C (wire s) p user password
             \<and> connect user password (world s) = (Inl err, world t) \<and> e = Stops why)"
proof -
  obtain r t where run: "log_in C connect s = (r, t)" by force
  then show ?thesis
  proof (cases rule: log_in_cases)
    case (1 e)
    with run show ?thesis by simp
  next
    case (2 user password p s1)
    obtain x w where c: "connect user password (world s) = (x, w)" by force
    show ?thesis
    proof (cases x)
      case (Inr db)
      with 2 c have "r = Inr (p, db)" "world t = w" by (auto simp: open_database_def)
      with 2 run c Inr show ?thesis by auto
    next
      case (Inl err)
      with 2 c have b: "let_ok (backend_connect_error p err) (\<lambda>b. ok (p, b)) (s1\<lparr>world := w\<rparr>) = (r, t)"
        by (auto simp: open_database_def)
      from b show ?thesis
      proof (rule let_ok_cases)
        fix e assume e: "backend_connect_error p err (s1\<lparr>world := w\<rparr>) = (Inl e, t)" "r = Inl e"
        with offlineD [OF offline_replies(3)] have "world t = w" by fastforce
        with e 2 run c Inl backend_error_stops [OF e(1)] show ?thesis by auto
      next
        fix a u assume "backend_connect_error p err (s1\<lparr>world := w\<rparr>) = (Inr a, u)"
        from backend_error_stops [OF this] show ?thesis by simp
      qed
    qed
  qed
qed

end
