(* ===== verification/Login_Client.thy ===== *)
theory Login_Client
  imports Login
begin

text \<open>
  The authentication replies as a thin or JDBC client reads them: the key/value pairs in the
  field formats of the protocol, the challenge they carry, and the answer a client that knows
  the password gives to it.
\<close>

section \<open>The pairs of the server\<close>

text \<open>A text is its length and, if it is not empty, its bytes with their length; a pair has flags.\<close>

type_synonym server_pair = "string \<times> string \<times> u32"

definition put_text :: "string \<Rightarrow> write_buffer \<Rightarrow> write_buffer" where
  "put_text s = emit [write_ub4 (word_of_nat (length s)),
     if s \<noteq> [] then write_bytes_with_length (Some (str_bytes s)) else emit []]"

definition read_text :: "string reader" where
  "read_text = let_ok read_ub4 (\<lambda>n.
     if n = 0 then ok [] else let_ok read_bytes_with_length (\<lambda>v. ok (bytes_str (unwrap_or [] v))))"

definition put_server_pair :: "server_pair \<Rightarrow> write_buffer \<Rightarrow> write_buffer" where
  "put_server_pair p = emit [put_text (fst p), put_text (fst (snd p)), write_ub4 (snd (snd p))]"

definition read_server_pair :: "server_pair reader" where
  "read_server_pair = let_ok read_text (\<lambda>k. let_ok read_text (\<lambda>v. let_ok read_ub4 (\<lambda>f. ok (k, v, f))))"

definition short_text :: "string \<Rightarrow> bool" where
  "short_text s \<longleftrightarrow> length s \<le> 252"

lemma put_text_eq: "put_text s b = b @ write_ub4 (word_of_nat (length s)) []
    @ (if s \<noteq> [] then write_bytes_with_length (Some (str_bytes s)) [] else [])"
  by (simp add: put_text_def write_ub4_app [of _ b] write_bytes_with_length_app [of _ "_ @ _"])

interpretation wire_text: codec put_text read_text short_text
proof
  show "put_text s b = b @ put_text s []" for s b by (simp add: put_text_eq)
next
  fix s pre rest
  assume "short_text s"
  then have "unat (word_of_nat (length s) :: u32) = length s"
    by (simp add: short_text_def unat_of_nat take_bit_nat_eq_self)
  then have n: "(word_of_nat (length s) :: u32) = 0 \<longleftrightarrow> s = []"
    by (metis length_0_conv unat_eq_zero)
  show "read_text (buf_at pre (put_text s [] @ rest)) = (Inr s, buf_at (pre @ put_text s []) rest)"
    by (simp add: put_text_eq read_text_def ub4.get_put n clr.get_put)
qed

definition pair_fits :: "server_pair \<Rightarrow> bool" where
  "pair_fits p \<longleftrightarrow> short_text (fst p) \<and> short_text (fst (snd p))"

lemma put_server_pair_eq:
  "put_server_pair p b = b @ put_text (fst p) [] @ put_text (fst (snd p)) [] @ write_ub4 (snd (snd p)) []"
  by (simp add: put_server_pair_def put_text_eq write_ub4_app [of _ "_ @ _"])

interpretation server_pair: codec put_server_pair read_server_pair pair_fits
proof
  show "put_server_pair p b = b @ put_server_pair p []" for p b by (simp add: put_server_pair_eq)
  show "read_server_pair (buf_at pre (put_server_pair p [] @ rest)) = (Inr p, buf_at (pre @ put_server_pair p []) rest)"
    if "pair_fits p" for p pre rest
    using that by (cases p) (simp add: put_server_pair_eq read_server_pair_def pair_fits_def wire_text.get_put ub4.get_put)
qed

text \<open>The server writes these formats, a text of up to 252 bytes with its length twice.\<close>

lemma write_auth_string_text: "short_text s \<Longrightarrow> write_auth_string s b = put_text s b"
proof -
  assume "short_text s"
  then have l: "length s < 2 ^ 32" "length s \<le> 252" by (simp_all add: short_text_def)
  show ?thesis
  proof (cases "s = []")
    case False
    with l have "0 < length s" by simp
    then have "(word_of_nat (length s) :: u32) \<noteq> 0" "(word_of_nat (length s) :: u32) \<le> 255"
      "(ucast (word_of_nat (length s) :: u32) :: u8) = word_of_nat (length s)"
      using l by (auto simp: word_le_nat_alt unat_of_nat unsigned_of_nat take_bit_nat_eq_self
          dest: arg_cong [where f = unat])
    with False l show ?thesis
      by (simp add: write_auth_string_def put_text_def write_ub4_def write_bytes_with_length_def write_prims clr_marks
          str_bytes_def)
  qed (simp add: write_auth_string_def put_text_def write_ub4_def write_prims)
qed

lemma write_auth_pairs:
  "short_text k \<Longrightarrow> short_text v \<Longrightarrow> write_auth_kv k v b = put_server_pair (k, v, 0) b"
  "short_text v \<Longrightarrow> write_auth_kv_vfr v f b = put_server_pair (''AUTH_VFR_DATA'', v, f) b"
  by (simp_all add: write_auth_kv_def write_auth_kv_vfr_def put_server_pair_def write_auth_string_text)
     (simp add: write_auth_string_text short_text_def)

text \<open>A parameter message and how its pairs are read; what follows them is the end of the call.\<close>

definition parameter_message :: "server_pair list \<Rightarrow> bytes" where
  "parameter_message ps = emit [write_u16_be 0, write_u8 TTC_MSG_PARAMETER, write_ub2 (word_of_nat (length ps)),
     fold put_server_pair ps] []"

definition read_parameters :: "bytes \<Rightarrow> error + server_pair list" where
  "read_parameters reply = run_reader
     (let_ok (skip_fields [U16, U8]) (\<lambda>_. let_ok read_ub2 (\<lambda>n. server_pair.get_n (unat n)))) reply"

lemma parameters_read:
  assumes "list_all pair_fits ps" "length ps < 2 ^ 16"
  shows "read_parameters (parameter_message ps @ rest) = Inr ps"
proof -
  have n: "unat (word_of_nat (length ps) :: u16) = length ps"
    using assms(2) by (simp add: unat_of_nat take_bit_nat_eq_self)
  have e: "parameter_message ps @ rest = put_items [I16 0, I8 TTC_MSG_PARAMETER] []
      @ write_ub2 (word_of_nat (length ps)) [] @ fold put_server_pair ps [] @ rest"
    by (simp add: parameter_message_def write_prims write_ub2_app [of _ "_ # _"] server_pair.fold_put be16_def)
  have "skip_fields [U16, U8] (buf_at [] (put_items [I16 0, I8 TTC_MSG_PARAMETER] [] @ r))
      = (Inr (), buf_at (put_items [I16 0, I8 TTC_MSG_PARAMETER] []) r)" for r
    using skip_items [of "[I16 0, I8 TTC_MSG_PARAMETER]" "[]" r] by (simp del: put_items_simps skip_fields.simps)
  then show ?thesis
    unfolding read_parameters_def run_reader_def from_slice_buf_at e
    by (simp add: ub2.get_put n server_pair.get_n_put [OF assms(1)] del: put_items_simps skip_fields.simps)
qed

section \<open>The client\<close>

record client =
  k_connect :: bytes
  k_services :: "bytes option"
  k_version :: u8
  k_accepted :: bytes
  k_banner :: string
  k_ccaps :: bytes
  k_rcaps :: bytes
  k_types :: "(u16 \<times> u16 \<times> u16 \<times> u16) list"
  k_user :: string
  k_prefixed :: bool
  k_pairs :: auth_parameters
  k_key :: "verifier \<Rightarrow> bytes"
  k_nonce :: bytes
  k_password :: string

text \<open>
  The challenge in the pairs of phase one, as far as a client can know it: the server's session
  key is decrypted with the hash of the password, whose kind the flags of the verifier tell.
\<close>

definition client_challenge :: "crypto \<Rightarrow> bytes \<Rightarrow> server_pair list \<Rightarrow> auth_state option" where
  "client_challenge c pw ps =
     (case (map_of ps ''AUTH_SESSKEY'', map_of ps ''AUTH_VFR_DATA'') of
        (Some (key_hex, _), Some (vfr_hex, flag)) \<Rightarrow>
          (case (hex_decode c key_hex, hex_decode c vfr_hex) of
             (Inr key, Inr vfr) \<Rightarrow>
               if flag = 0x1B25 then map_option (new_11g pw vfr) (aes_decrypt c (password_hash_11g c pw vfr) key)
               else if flag = 0x4815 then
                 (case (map_of ps ''AUTH_PBKDF2_CSK_SALT'', map_of ps ''AUTH_PBKDF2_VGEN_COUNT'', map_of ps ''AUTH_PBKDF2_SDER_COUNT'') of
                    (Some (salt_hex, _), Some (vgen, _), Some (sder, _)) \<Rightarrow>
                      (case (hex_decode c salt_hex, parse_usize vgen, parse_usize sder) of
                         (Inr salt, Some g, Some d) \<Rightarrow>
                           map_option (\<lambda>a. (new_12c pw vfr a salt)\<lparr>vgen_count := word_of_nat g, sder_count := word_of_nat d\<rparr>)
                             (aes_decrypt c (password_hash_12c c pw vfr (word_of_nat g)) key)
                       | _ \<Rightarrow> None)
                  | _ \<Rightarrow> None)
               else None
           | _ \<Rightarrow> None)
      | _ \<Rightarrow> None)"

definition client_view :: "crypto \<Rightarrow> client \<Rightarrow> bytes \<Rightarrow> auth_state option" where
  "client_view c K reply = (case read_parameters reply of
       Inl _ \<Rightarrow> None | Inr ps \<Rightarrow> client_challenge c (str_bytes (k_password K)) ps)"

text \<open>Its answer: its own session key and the proof of the password.\<close>

definition client_pairs :: "crypto \<Rightarrow> auth_state \<Rightarrow> client \<Rightarrow> auth_parameters option" where
  "client_pairs c st K =
     Option.bind (client_sesskey c st (k_key K (verifier st))) (\<lambda>h.
     map_option (\<lambda>p. [(''AUTH_SESSKEY'', str_bytes h), (''AUTH_PASSWORD'', str_bytes p)])
       (client_proof c st (k_key K (verifier st)) (k_nonce K) (str_bytes (k_password K))))"

definition client_answer :: "crypto \<Rightarrow> client \<Rightarrow> bytes \<Rightarrow> auth_parameters option" where
  "client_answer c K reply1 = Option.bind (client_view c K reply1) (\<lambda>st. client_pairs c st K)"

text \<open>The client in turn checks the server: its answer must decrypt to the marker.\<close>

definition client_accepts :: "crypto \<Rightarrow> client \<Rightarrow> bytes \<Rightarrow> bytes \<Rightarrow> bool" where
  "client_accepts c K reply1 reply2 \<longleftrightarrow> (case (client_view c K reply1, read_parameters reply2) of
       (Some st, Inr ps) \<Rightarrow> (case map_of ps ''AUTH_SVR_RESPONSE'' of
           Some (h, _) \<Rightarrow> (case (hex_decode c h, combo_of c st (k_key K (verifier st))) of
               (Inr r, Some k) \<Rightarrow> aes_decrypt c k r = Some svr_marker
             | _ \<Rightarrow> False)
         | None \<Rightarrow> False)
     | _ \<Rightarrow> False)"

section \<open>The challenge arrives\<close>

text \<open>What the hexadecimal crate documents besides inverting: two printable digits for a byte.\<close>

definition hex_ok :: "crypto \<Rightarrow> bool" where
  "hex_ok c \<longleftrightarrow> (\<forall>m. list_all is_ascii_graphic (hex_upper c m) \<and> length (hex_upper c m) = 2 * length m)"

text \<open>The random bytes have the lengths \<open>auth.rs\<close> draws them with.\<close>

definition random_ok :: "config \<Rightarrow> bool" where
  "random_ok C \<longleftrightarrow> (\<forall>v. case cfg_random C v of (vfr, a, salt) \<Rightarrow>
     length vfr = 16 \<and> length salt = 16 \<and> length a = (case v of V11G \<Rightarrow> 48 | V12C \<Rightarrow> 32))"

lemma challenge_ok:
  assumes "random_ok C"
  shows "state_ok (challenge C p pw) \<and> a_password (challenge C p pw) = str_bytes pw"
proof -
  obtain v1 a1 s1 where r1: "cfg_random C V11G = (v1, a1, s1)" by (rule prod_cases3)
  obtain v2 a2 s2 where r2: "cfg_random C V12C = (v2, a2, s2)" by (rule prod_cases3)
  have "length v1 = 16" "length a1 = 48" "length v2 = 16" "length a2 = 32" "length s2 = 16"
    using spec [OF assms [unfolded random_ok_def], of V11G] spec [OF assms [unfolded random_ok_def], of V12C]
    by (simp_all add: r1 r2)
  then show ?thesis by (simp add: challenge_def r1 r2 state_ok_def new_11g_def new_12c_def)
qed

lemma ends_append: "write_ttc_status b = b @ write_ttc_status []"
  "write_end_of_call_jdbc 0 None 0 False 0 0 0 b = b @ write_end_of_call_jdbc 0 None 0 False 0 0 0 []"
  by (simp_all add: write_ttc_status_def jdbc_items [of _ _ _ _ _ _ _ b] jdbc_items [of _ _ _ _ _ _ _ "[]"] appends
      write_ub4_app [of _ "_ @ _"])

definition eleven_pairs :: "string \<Rightarrow> string \<Rightarrow> server_pair list" where
  "eleven_pairs key vfr = [(''AUTH_SESSKEY'', key, 0), (''AUTH_VFR_DATA'', vfr, 0x1B25),
     (''AUTH_VERSION_NO'', ''1900000000'', 0), (''AUTH_GLOBALLY_UNIQUE_DBID'', ''0000000000000000'', 0)]"

definition twelve_pairs :: "string \<Rightarrow> string \<Rightarrow> string \<Rightarrow> server_pair list" where
  "twelve_pairs key vfr salt = [(''AUTH_SESSKEY'', key, 0), (''AUTH_VFR_DATA'', vfr, 0x4815),
     (''AUTH_PBKDF2_CSK_SALT'', salt, 0), (''AUTH_PBKDF2_VGEN_COUNT'', ''4096'', 0),
     (''AUTH_PBKDF2_SDER_COUNT'', ''3'', 0), (''AUTH_VERSION_NO'', ''202375000'', 0),
     (''AUTH_GLOBALLY_UNIQUE_DBID'', ''0000000000000000'', 0)]"

definition answer_pairs :: "string \<Rightarrow> u32 \<Rightarrow> u32 \<Rightarrow> string \<Rightarrow> server_pair list" where
  "answer_pairs r sid no rel = [(''AUTH_SVR_RESPONSE'', r, 0), (''AUTH_SESSION_ID'', show_nat (unat sid), 0),
     (''AUTH_SERIAL_NUM'', ''1'', 0), (''AUTH_VERSION_NO'', show_nat (unat no), 0), (''AUTH_VERSION_STRING'', rel, 0),
     (''AUTH_SC_DBUNIQUE_NAME'', ''DBSACI'', 0), (''AUTH_SC_SERVICE_NAME'', ''FREEPDB1'', 0),
     (''AUTH_MAX_OPEN_CURSORS'', ''1000'', 0), (''AUTH_MAX_IDEN_LENGTH'', ''128'', 0)]"

lemma short_constants: "length s \<le> 20 \<Longrightarrow> short_text s" "length s \<le> 30 \<Longrightarrow> short_text s"
  by (simp_all add: short_text_def)

lemma count_texts: "show_nat 4096 = ''4096''" "show_nat 3 = ''3''"
  by (simp_all add: show_nat.simps digit_chars)

lemma eleven_shape:
  assumes "short_text key" "short_text vfr"
  shows "build_auth_phase_one_response_11g key vfr = parameter_message (eleven_pairs key vfr) @ write_ttc_status []"
  using assms
  by (simp add: build_auth_phase_one_response_11g_def parameter_message_def eleven_pairs_def write_auth_pairs
      short_text_def ends_append(1) [of "put_server_pair _ _"])

lemma twelve_shape:
  assumes "short_text key" "short_text vfr" "short_text salt"
  shows "phase_one_pairs key vfr salt 4096 3 [] = parameter_message (twelve_pairs key vfr salt)"
  using assms
  by (simp add: phase_one_pairs_def parameter_message_def twelve_pairs_def write_auth_pairs short_text_def count_texts)

lemma answer_shape:
  assumes "short_text r" "short_text (show_nat (unat sid))" "short_text (show_nat (unat no))" "short_text rel"
  shows "phase_two_pairs r sid no rel [] = parameter_message (answer_pairs r sid no rel)"
  using assms
  by (simp add: phase_two_pairs_def parameter_message_def answer_pairs_def write_auth_pairs short_text_def)

lemma pairs_fit:
  "short_text key \<Longrightarrow> short_text vfr \<Longrightarrow> list_all pair_fits (eleven_pairs key vfr)"
  "short_text key \<Longrightarrow> short_text vfr \<Longrightarrow> short_text salt \<Longrightarrow> list_all pair_fits (twelve_pairs key vfr salt)"
  "short_text r \<Longrightarrow> short_text (show_nat (unat sid)) \<Longrightarrow> short_text (show_nat (unat no)) \<Longrightarrow> short_text rel
     \<Longrightarrow> list_all pair_fits (answer_pairs r sid no rel)"
  by (simp_all add: eleven_pairs_def twelve_pairs_def answer_pairs_def pair_fits_def short_text_def)

text \<open>The client sees the server's challenge, and it sees all of it.\<close>

lemma challenge_seen:
  assumes c: "crypto_ok (cfg_crypto C)" "hex_ok (cfg_crypto C)" "random_ok C"
    and st: "st = challenge C p (k_password K)" and reply: "phase_one_reply C p st = Some reply" "\<not> oci_dialect p"
  shows "client_view (cfg_crypto C) K reply = Some st"
proof -
  let ?c = "cfg_crypto C" and ?pw = "str_bytes (k_password K)"
  let ?hex = "hex_upper ?c"
  have ok: "state_ok st" "a_password st = ?pw" using challenge_ok [OF c(3)] by (simp_all add: st)
  have len: "16 dvd length (server_a st)" "length (server_a st) \<le> 48" "length (vfr_data st) = 16"
    using ok(1) by (cases "verifier st"; simp add: state_ok_def)+
  obtain key where key: "phase_one_sesskey ?c st = Some key" "length key \<le> 48"
      "aes_decrypt ?c (password_hash ?c st) key = Some (server_a st)"
    using crypto_block [OF c(1) _ len(1), of "password_hash ?c st"] password_hash_length [OF c(1), of st]
      key_length_aes [of "verifier st"] len(2) by (auto simp: phase_one_sesskey_def)
  have hex: "length (?hex m) = 2 * length m" "hex_decode ?c (?hex m) = Inr m" for m
    using c(2) crypto_hex [OF c(1)] by (simp_all add: hex_ok_def)
  have short: "short_text (?hex key)" "short_text (?hex (vfr_data st))"
    using key(2) len(3) hex(1) by (simp_all add: short_text_def)
  show ?thesis
  proof (cases "use_11g C p")
    case True
    then have s: "st = new_11g ?pw (vfr_data st) (server_a st)"
      by (auto simp: st challenge_def new_11g_def split: prod.splits)
    have "reply = parameter_message (eleven_pairs (?hex key) (?hex (vfr_data st))) @ write_ttc_status []"
      using True reply key(1) eleven_shape [OF short] by (simp add: phase_one_reply_def Let_def)
    then have "read_parameters reply = Inr (eleven_pairs (?hex key) (?hex (vfr_data st)))"
      using parameters_read [OF pairs_fit(1) [OF short]] by (simp add: eleven_pairs_def)
    moreover have "password_hash ?c st = password_hash_11g ?c ?pw (vfr_data st)"
      by (subst s) (simp add: password_hash_def new_11g_def)
    ultimately show ?thesis
      using key(3) s by (simp add: client_view_def client_challenge_def eleven_pairs_def hex(2))
  next
    case False
    obtain v a salt where "cfg_random C V12C = (v, a, salt)" by (rule prod_cases3)
    with False have s: "st = new_12c ?pw (vfr_data st) (server_a st) salt"
      by (simp add: st challenge_def new_12c_def)
    then have f: "csk_salt st = Some salt" "vgen_count st = 4096" "sder_count st = 3"
      by (metis new_12c_def auth_state.select_convs(6-8))+
    with ok(1) have "length salt = 16" by (simp add: state_ok_def)
    then have short3: "short_text (?hex salt)" by (simp add: short_text_def hex(1))
    let ?ps = "twelve_pairs (?hex key) (?hex (vfr_data st)) (?hex salt)"
    let ?m = "parameter_message ?ps"
    have "reply = write_ttc_status ?m \<or> reply = write_end_of_call_jdbc 0 None 0 False 0 0 0 ?m"
      using False reply key(1) f twelve_shape [OF short short3]
      by (auto simp: phase_one_reply_def Let_def build_auth_phase_one_response_12c_def
          build_auth_phase_one_response_na_no_verlist_def split: if_splits)
    then have "\<exists>e. reply = ?m @ e"
      by (simp only: ends_append(1) [of ?m] ends_append(2) [of ?m]) blast
    then have "read_parameters reply = Inr ?ps"
      using parameters_read [OF pairs_fit(2) [OF short short3]] by (auto simp: twelve_pairs_def)
    moreover have "password_hash ?c st = password_hash_12c ?c ?pw (vfr_data st) 4096"
      by (subst s) (simp add: password_hash_def new_12c_def)
    moreover have "parse_usize ''4096'' = Some 4096" "parse_usize ''3'' = Some 3"
      using parse_usize_show [of 4096] parse_usize_show [of 3] by (simp_all add: count_texts)
    moreover have "(new_12c ?pw (vfr_data st) (server_a st) salt)\<lparr>vgen_count := 4096, sder_count := 3\<rparr> = st"
      by (subst s) (simp add: new_12c_def)
    ultimately show ?thesis
      using key(3) by (simp add: client_view_def client_challenge_def twelve_pairs_def hex(2))
  qed
qed

end
