(* ===== verification/Honest_Login.thy ===== *)
theory Honest_Login
  imports Login_Client
begin

text \<open>
  The whole handshake seen from a thin or JDBC client that follows the protocol: the bytes it
  sends from CONNECT to its password proof, the replies it gets to each of them, and the
  connection at the end.
\<close>

section \<open>The client\<close>

definition client_profile :: "client \<Rightarrow> wire_profile" where
  "client_profile K = new_profile (k_services K \<noteq> None)
     \<lparr>version = k_version K, accepted_versions = k_accepted K, banner = k_banner K\<rparr> (k_ccaps K) (k_rcaps K)"

definition client_hello :: "client \<Rightarrow> bytes" where
  "client_hello K = hello [0, 0] (k_version K) (k_accepted K) (k_banner K)"

definition client_types :: "client \<Rightarrow> bytes" where
  "client_types K = data_types_request [0, 0] 873 873 1 (k_ccaps K) (k_rcaps K) (k_types K) []"

definition client_request :: "client \<Rightarrow> u8 \<Rightarrow> u8 \<Rightarrow> auth_parameters \<Rightarrow> bytes" where
  "client_request K fn seq pairs = auth_request 0 fn seq 1 (k_prefixed K) (k_user K) 257 pairs"

definition connect_frame :: "bytes \<Rightarrow> bytes" where
  "connect_frame p = frame_header Small Connect 0 (8 + length p) @ p"

definition client_messages :: "client \<Rightarrow> auth_parameters \<Rightarrow> bytes list" where
  "client_messages K answer =
     (case k_services K of None \<Rightarrow> [] | Some m \<Rightarrow> [m])
     @ [client_hello K, client_types K, client_request K 0x76 1 (k_pairs K), client_request K 0x73 2 answer]"

definition client_ok :: "client \<Rightarrow> bool" where
  "client_ok K \<longleftrightarrow>
     8 + length (k_connect K) < 65536 \<and> \<not> wants_resend (k_connect K)
     \<and> (\<exists>offer. parse_connect_payload (k_connect K) = Inr offer)
     \<and> (case k_services K of None \<Rightarrow> True | Some m \<Rightarrow> is_ano_negotiation m)
     \<and> 0 \<notin> set (k_accepted K) \<and> 0 \<notin> set (str_bytes (k_banner K)) \<and> utf8_valid (str_bytes (k_banner K))
     \<and> (\<forall>q \<in> set (k_types K). fst q \<noteq> 0)
     \<and> utf8_valid (str_bytes (k_user K)) \<and> k_user K \<noteq> [] \<and> length (k_user K) < 2 ^ 32
     \<and> (if k_prefixed K then length (k_user K) < 32 else 0x20 \<le> byte_of (hd (k_user K)))
     \<and> list_all (pair_ok False) (k_pairs K) \<and> length (k_pairs K) < 2 ^ 32
     \<and> (\<forall>v. length (k_key K v) = client_key_length v)
     \<and> length (k_nonce K) = 16 \<and> length (str_bytes (k_password K)) \<le> 94 \<and> \<not> oci_dialect (client_profile K)"

text \<open>The replies before the authentication: the ACCEPT, then the answers of the negotiation.\<close>

definition accept_reply :: "bytes \<Rightarrow> bytes" where
  "accept_reply p = (case parse_connect_payload p of
       Inr (offered, _, _) \<Rightarrow> frame_header Small Accept 0 69 @ build_accept_response (clamp 300 319 offered)
     | Inl _ \<Rightarrow> [])"

definition greeting :: "config \<Rightarrow> client \<Rightarrow> bytes" where
  "greeting C K = accept_reply (k_connect K)
     @ (if k_services K \<noteq> None then data_frame build_ano_negotiation_response else [])
     @ data_frame (if k_services K \<noteq> None \<and> k_accepted K = [5] then build_protocol_response_oci else build_protocol_response)
     @ data_frame (types_reply (recorded_types C) (client_profile K) (client_types K))"

section \<open>CONNECT\<close>

lemma accept_connect_thin:
  assumes "sdu n = Small" "write_error n = None" "8 + length p < 65536" "\<not> wants_resend p"
    and "parse_connect_payload p = Inr (d, m, x)" "inbound n = connect_frame p @ rest"
  shows "accept_connect n = (Inr (), n\<lparr>inbound := rest, sdu := Large, outbound := outbound n @ accept_reply p\<rparr>)"
proof -
  have r: "read_packet n = (Inr \<lparr>packet_type = Connect, pflags = 0, payload = p\<rparr>, n\<lparr>inbound := rest\<rparr>)"
    using read_packet_frame [of n p Connect 0 rest] assms
    by (simp add: connect_frame_def frame_readable_def frame_fits_def complete_fetch_def)
  have "length (build_accept_response (clamp 300 319 d)) = 61"
    by (simp add: build_accept_response_def blit_def)
  then have w: "write_packet Accept (build_accept_response (clamp 300 319 d)) (n\<lparr>inbound := rest\<rparr>)
      = (Inr (), n\<lparr>inbound := rest, outbound := outbound n
          @ frame_header Small Accept 0 69 @ build_accept_response (clamp 300 319 d)\<rparr>)"
    using assms(1,2)
    by (simp add: write_packet_def write_packet_flags_def needs_split_def emit_one_packet_def io_write_def
        frame_header_def MAX_TNS_PACKET_SIZE_def)
  show ?thesis
    by (simp add: accept_connect_def expect_packet_def r assms(4,5) with_result_def w update_net_def accept_reply_def)
qed

section \<open>The replies fit a packet\<close>

lemma length_write_auth:
  "length (write_auth_string s b) = length b + (if s = [] then 1 else 3 + length s)"
  "length (write_auth_kv k v b) = length (write_auth_string v (write_auth_string k b)) + 1"
  "length (write_auth_kv_vfr v n b) = length (write_auth_string v b) + 16
     + (if n = 0 then 1 else if n \<le> 255 then 2 else if n \<le> 65535 then 3 else 5)"
  by (simp_all add: write_auth_string_def write_auth_kv_def write_auth_kv_vfr_def write_prims write_ub4_def
      str_bytes_def)

lemma length_ends:
  "length (write_ub4 0 b) = length b + 1"
  "length (write_ttc_status b) \<le> length b + 3"
  "length (write_end_of_call_jdbc 0 None 0 False 0 0 0 b) \<le> length b + 60"
  by (simp_all add: write_ttc_status_def write_end_of_call_jdbc_def write_prims write_ub4_def write_ub2_def
      write_ub8_def write_sb2_def)

lemma short_ends:
  assumes "length b < 900"
  shows "length (write_ttc_status b) < 1000" "length (write_end_of_call_jdbc 0 None 0 False 0 0 0 b) < 1000"
  using length_ends(2,3) [of b] assms by simp_all

lemma fits_short: "length r < 1000 \<Longrightarrow> fits r"
  by (simp add: fits_def MAX_TNS_PACKET_SIZE_def)

lemma iteration_texts: "show_nat 4096 = ''4096''" "show_nat 3 = ''3''"
  by (simp_all add: show_nat.simps digit_chars)

lemma version_texts: "length (show_nat (unat (version_no v))) \<le> 9" "length (release v) = 10"
  by (cases v; simp add: version_no_def release_def show_nat.simps)+

lemma phase_one_fits:
  assumes "crypto_ok (cfg_crypto C)" "hex_ok (cfg_crypto C)" "state_ok st" "st = challenge C p pw" "\<not> oci_dialect p"
  shows "\<exists>reply. phase_one_reply C p st = Some reply \<and> fits reply"
proof -
  let ?c = "cfg_crypto C"
  have len: "16 dvd length (server_a st)" "length (server_a st) \<le> 48" "length (vfr_data st) = 16"
    using assms(3) by (cases "verifier st"; simp add: state_ok_def)+
  obtain key where key: "phase_one_sesskey ?c st = Some key" "length key \<le> 48"
    using crypto_block [OF assms(1) _ len(1), of "password_hash ?c st"] password_hash_length [OF assms(1), of st]
      key_length_aes [of "verifier st"] len(2) by (auto simp: phase_one_sesskey_def)
  have hex: "length (hex_upper ?c m) = 2 * length m" for m using assms(2) by (simp add: hex_ok_def)
  show ?thesis
  proof (cases "use_11g C p")
    case True
    have "length (build_auth_phase_one_response_11g (hex_upper ?c key) (hex_upper ?c (vfr_data st))) < 1000"
      using len(3) key(2) hex by (simp add: build_auth_phase_one_response_11g_def length_write_auth
          length_ends(1) write_ttc_status_def write_prims write_ub2_def)
    with True key(1) show ?thesis by (auto simp: phase_one_reply_def Let_def intro: fits_short)
  next
    case False
    then obtain vfr a salt where "st = new_12c (str_bytes pw) vfr a salt"
      using assms(4) by (auto simp: challenge_def split: prod.splits)
    then have st: "vgen_count st = 4096" "sder_count st = 3" "csk_salt st = Some salt" by (simp_all add: new_12c_def)
    have "length (phase_one_pairs (hex_upper ?c key) (hex_upper ?c (vfr_data st)) (hex_upper ?c salt) 4096 3 []) < 900"
      using len(3) key(2) hex assms(3) st(3)
      by (simp add: phase_one_pairs_def length_write_auth write_prims write_ub2_def iteration_texts state_ok_def)
    then have "length (build_auth_phase_one_response_12c (hex_upper ?c key) (hex_upper ?c (vfr_data st)) (hex_upper ?c salt) 4096 3) < 1000"
      "length (build_auth_phase_one_response_na_no_verlist (hex_upper ?c key) (hex_upper ?c (vfr_data st)) (hex_upper ?c salt) 4096 3) < 1000"
      by (simp_all add: build_auth_phase_one_response_12c_def
          build_auth_phase_one_response_na_no_verlist_def short_ends)
    with False key(1) assms(5) st show ?thesis by (auto simp: phase_one_reply_def Let_def intro: fits_short)
  qed
qed

lemma phase_two_fits:
  assumes "hex_ok (cfg_crypto C)" "svr_response (cfg_crypto C) st = Some r" "length r = 48" "\<not> oci_dialect p"
  shows "\<exists>reply. phase_two_reply C p st = Some reply \<and> fits reply"
proof -
  let ?answer = "hex_upper (cfg_crypto C) r" and ?no = "version_no (cfg_version C)" and ?rel = "release (cfg_version C)"
  have answer: "length ?answer = 96" using assms(1,3) by (simp add: hex_ok_def)
  have sid: "length (show_nat (unat sid)) \<le> 10" for sid :: u32
  proof -
    have "unat sid < 2 ^ LENGTH(32)" by (rule unsigned_less)
    then show ?thesis using length_show_nat [of "unat sid" 9] by simp
  qed
  have "length (phase_two_pairs ?answer sid ?no ?rel []) < 900" for sid
  proof -
    show ?thesis
      using answer sid [of sid] version_texts [of "cfg_version C"]
      by (simp add: phase_two_pairs_def length_write_auth write_prims write_ub2_def split del: if_split)
        (simp split: if_split)
  qed
  then have "length (build_auth_phase_two_response ?answer sid ?no ?rel) < 1000"
      "length (build_auth_phase_two_response_na_no_verlist ?answer sid ?no ?rel) < 1000" for sid
    by (simp_all add: build_auth_phase_two_response_def build_auth_phase_two_response_na_no_verlist_def short_ends)
  with assms(2,4) show ?thesis by (auto simp: phase_two_reply_def Let_def intro: fits_short)
qed

section \<open>The proof\<close>

lemma length_pkcs7: "length (pkcs7_pad m) \<le> length m + 16"
  by (simp add: pkcs7_pad_def Let_def)

lemma hex_text:
  assumes "hex_ok c"
  shows "utf8_valid (str_bytes (hex_upper c m))" "from_utf8_lossy (str_bytes (hex_upper c m)) = hex_upper c m"
    "length (str_bytes (hex_upper c m)) = 2 * length m"
  using assms graphic_text [of "hex_upper c m"]
  by (simp_all add: hex_ok_def str_bytes_def)

lemma client_pairs_some:
  assumes "crypto_ok c" "hex_ok c" "state_ok st" "length (k_key K (verifier st)) = client_key_length (verifier st)"
    and "length (k_nonce K) = 16" "length (str_bytes (k_password K)) \<le> 94"
    and "a_password st = str_bytes (k_password K)"
  obtains h p r k where
    "client_pairs c st K = Some [(''AUTH_SESSKEY'', str_bytes h), (''AUTH_PASSWORD'', str_bytes p)]"
    "set_client_sesskey c h st = Inr (st\<lparr>client_b := Some (k_key K (verifier st))\<rparr>)"
    "verify_password c p (st\<lparr>client_b := Some (k_key K (verifier st))\<rparr>) = Some (Inr ())"
    "svr_response c (st\<lparr>client_b := Some (k_key K (verifier st))\<rparr>) = Some r"
    "from_utf8_lossy (str_bytes h) = h" "from_utf8_lossy (str_bytes p) = p"
    "length h \<le> 252" "length p \<le> 252" "length r = 48"
    "combo_of c st (k_key K (verifier st)) = Some k" "aes_decrypt c k r = Some svr_marker"
proof -
  obtain h p r k where s: "client_sesskey c st (k_key K (verifier st)) = Some h"
      "client_proof c st (k_key K (verifier st)) (k_nonce K) (a_password st) = Some p"
      "set_client_sesskey c h st = Inr (st\<lparr>client_b := Some (k_key K (verifier st))\<rparr>)"
      "verify_password c p (st\<lparr>client_b := Some (k_key K (verifier st))\<rparr>) = Some (Inr ())"
      "svr_response c (st\<lparr>client_b := Some (k_key K (verifier st))\<rparr>) = Some r" "combo_of c st (k_key K (verifier st)) = Some k"
      "aes_decrypt c k r = Some svr_marker"
    using honest_verified [OF assms(1,3,4,5)] by blast
  have "16 dvd length (k_key K (verifier st))" "length (k_key K (verifier st)) \<le> 48"
    using assms(4) by (cases "verifier st"; simp add: client_key_length_def)+
  moreover obtain x where x: "aes_encrypt c (password_hash c st) (k_key K (verifier st)) = Some x" "h = hex_upper c x"
    using s(1) by (auto simp: client_sesskey_def)
  ultimately have h: "length h \<le> 252"
    using crypto_block [OF assms(1), of "password_hash c st" "k_key K (verifier st)"] password_hash_length [OF assms(1), of st]
      key_length_aes [of "verifier st"] assms(2) by (auto simp: hex_ok_def)
  obtain y where y: "aes_encrypt c k (pkcs7_pad (k_nonce K @ a_password st)) = Some y" "p = hex_upper c y"
    using s(2,6) by (auto simp: client_proof_def)
  have "length k = key_length (verifier st)" using combo_of_some [OF assms(1,3,4)] s(6) by auto
  with key_length_aes [of "verifier st"] have k: "length k \<in> {24, 32}" by simp
  have "combo_key c (st\<lparr>client_b := Some (k_key K (verifier st))\<rparr>) = Some k"
    using s(6) by (simp add: combo_key_def combo_of_client_b)
  then have "aes_encrypt c k svr_marker = Some r" using s(5) by (simp add: svr_response_def)
  then have r: "length r = 48"
    using crypto_block [OF assms(1) k, of svr_marker] by (auto simp: svr_marker_def str_bytes_def)
  note this = k
  from crypto_block [OF assms(1) this pad_blocks] y(1)
  have "length y = length (pkcs7_pad (k_nonce K @ a_password st))" by (metis option.inject)
  with length_pkcs7 [of "k_nonce K @ a_password st"] assms(5-7) y(2) assms(2)
  have p: "length p \<le> 252" by (simp add: hex_ok_def)
  show thesis
  proof (rule that [of h p r k])
    show "client_pairs c st K = Some [(''AUTH_SESSKEY'', str_bytes h), (''AUTH_PASSWORD'', str_bytes p)]"
      using s(1,2) assms(7) by (simp add: client_pairs_def)
    show "from_utf8_lossy (str_bytes h) = h" "from_utf8_lossy (str_bytes p) = p"
      using hex_text [OF assms(2)] x(2) y(2) by simp_all
  qed (use s(3-7) h p r in simp_all)
qed

text \<open>The answer of the server is one the client accepts.\<close>

lemma answer_accepted:
  assumes c: "crypto_ok (cfg_crypto C)" "hex_ok (cfg_crypto C)"
    and v: "client_view (cfg_crypto C) K reply1 = Some st"
    and k: "combo_of (cfg_crypto C) st (k_key K (verifier st)) = Some k" "aes_decrypt (cfg_crypto C) k r = Some svr_marker"
    and r: "svr_response (cfg_crypto C) st' = Some r" "length r = 48"
    and two: "phase_two_reply C p st' = Some reply2" "\<not> oci_dialect p"
  shows "client_accepts (cfg_crypto C) K reply1 reply2"
proof -
  let ?h = "hex_upper (cfg_crypto C) r"
  let ?sid = "max (ucast (next_session_id C)) 1" and ?no = "version_no (cfg_version C)" and ?rel = "release (cfg_version C)"
  let ?ps = "answer_pairs ?h ?sid ?no ?rel"
  let ?m = "parameter_message ?ps"
  have "unat (?sid :: u32) < 2 ^ LENGTH(32)" by (rule unsigned_less)
  then have "length (show_nat (unat (?sid :: u32))) \<le> 10" using length_show_nat [of "unat (?sid :: u32)" 9] by simp
  then have short: "short_text ?h" "short_text (show_nat (unat (?sid :: u32)))" "short_text (show_nat (unat ?no))" "short_text ?rel"
    using c(2) r(2) version_texts [of "cfg_version C"] by (simp_all add: short_text_def hex_ok_def)
  have "reply2 = write_ttc_status ?m \<or> reply2 = write_end_of_call_jdbc 0 None 0 False 0 0 0 ?m"
    using two r(1) answer_shape [OF short]
    by (auto simp: phase_two_reply_def Let_def build_auth_phase_two_response_def
        build_auth_phase_two_response_na_no_verlist_def split: if_splits)
  then have "\<exists>e. reply2 = ?m @ e"
    by (simp only: ends_append(1) [of ?m] ends_append(2) [of ?m]) blast
  then have "read_parameters reply2 = Inr ?ps"
    using parameters_read [OF pairs_fit(3) [OF short]] by (auto simp: answer_pairs_def)
  then show ?thesis
    using v k by (simp add: client_accepts_def answer_pairs_def crypto_hex [OF c(1)])
qed

lemma authenticate_honest:
  assumes c: "crypto_ok (cfg_crypto C)" "hex_ok (cfg_crypto C)" "random_ok C" and ok: "client_ok K"
    and one: "phase_one_reply C p (challenge C p (k_password K)) = Some reply1"
    and answer: "client_answer (cfg_crypto C) K reply1 = Some answer" and thin: "\<not> oci_dialect p"
    and net: "thin_net (wire s)" "inbound (wire s) = data_frame (client_request K 0x73 2 answer) @ rest"
    and "readable (client_request K 0x73 2 answer)"
  shows "\<exists>reply2. authenticate C p (k_password K) s = (Inr (), s\<lparr>wire := (wire s)\<lparr>inbound := rest,
       outbound := outbound (wire s) @ data_frame reply1 @ data_frame reply2\<rparr>\<rparr>)
     \<and> client_accepts (cfg_crypto C) K reply1 reply2"
proof -
  let ?c = "cfg_crypto C"
  obtain st where st: "st = challenge C p (k_password K)" by blast
  let ?st = "st\<lparr>client_b := Some (k_key K (verifier st))\<rparr>"
  have sok: "state_ok st" and pw: "a_password st = str_bytes (k_password K)"
    using challenge_ok [OF c(3)] by (simp_all add: st)
  have view: "client_view ?c K reply1 = Some st" using challenge_seen [OF c st] one thin by (simp add: st)
  have k: "length (k_key K (verifier st)) = client_key_length (verifier st)" "length (k_nonce K) = 16"
    "length (str_bytes (k_password K)) \<le> 94" using ok by (simp_all add: client_ok_def)
  obtain h pf r key where a: "client_pairs ?c st K = Some [(''AUTH_SESSKEY'', str_bytes h), (''AUTH_PASSWORD'', str_bytes pf)]"
    "set_client_sesskey ?c h st = Inr ?st" "verify_password ?c pf ?st = Some (Inr ())" "svr_response ?c ?st = Some r"
    "from_utf8_lossy (str_bytes h) = h" "from_utf8_lossy (str_bytes pf) = pf" "length h \<le> 252" "length pf \<le> 252" "length r = 48"
    "combo_of ?c st (k_key K (verifier st)) = Some key" "aes_decrypt ?c key r = Some svr_marker"
    using client_pairs_some [OF c(1,2) sok k pw] .
  with answer have answer: "answer = [(''AUTH_SESSKEY'', str_bytes h), (''AUTH_PASSWORD'', str_bytes pf)]"
    by (simp add: client_answer_def view)
  have keys: "utf8_valid (str_bytes ''AUTH_SESSKEY'')" "utf8_valid (str_bytes ''AUTH_PASSWORD'')" by code_simp+
  have "list_all (pair_ok obc) answer" for obc
    using keys a(7,8) by (simp add: answer pair_ok_def str_bytes_def)
  then have "parse_auth_request (client_request K 0x73 2 answer) obc = Inr (k_user K, answer)" for obc
    unfolding client_request_def using ok by (intro auth_request_read) (simp_all add: client_ok_def answer)
  then have pairs: "login_pairs p (client_request K 0x73 2 answer) = Inr answer"
    using thin by (simp add: login_pairs_def parse_auth_phase_two_request_def parse_auth_phase_two_request_na_no_verlist_def)
  have one: "phase_one_reply C p st = Some reply1" "fits reply1"
    using phase_one_fits [OF c(1,2) sok st thin] one by (simp_all add: st)
  obtain reply2 where two: "phase_two_reply C p ?st = Some reply2" "fits reply2"
    using phase_two_fits [OF c(2) a(4,9) thin] by blast
  have v: "verify_client C p answer st s' = (Inr ?st, s')" for s' :: "'w conn_state"
    by (simp add: verify_client_def last_value_def answer a or_refuse_def or_panic_def)
  let ?n1 = "(wire s)\<lparr>outbound := outbound (wire s) @ data_frame reply1\<rparr>"
  have live: "live_net (wire s)" "\<not> oci_client (wire s)" using net(1) by (simp_all add: thin_net_def live_net_def)
  have w1: "write_packet Data reply1 (wire s) = (Inr (), ?n1)"
    using live one(2) by (intro write_data) (simp_all add: fits_client_def fits_def)
  have rd: "read_packet ?n1 = (Inr (data_packet (client_request K 0x73 2 answer)), ?n1\<lparr>inbound := rest\<rparr>)"
    using live net(2) assms(10) by (intro read_data_frame) (simp_all add: live_net_def)
  have w2: "write_packet Data reply2 (?n1\<lparr>inbound := rest\<rparr>)
      = (Inr (), ?n1\<lparr>inbound := rest, outbound := outbound ?n1 @ data_frame reply2\<rparr>)"
    using live write_data [of "?n1\<lparr>inbound := rest\<rparr>" reply2] two(2)
    by (simp add: fits_client_def fits_def)
  have "authenticate C p (k_password K) s = (Inr (), s\<lparr>wire := (wire s)\<lparr>inbound := rest,
       outbound := outbound (wire s) @ data_frame reply1 @ data_frame reply2\<rparr>\<rparr>)"
    by (simp add: authenticate_def Let_def or_panic_def on_wire_def expect_packet_def with_result_def
        one(1) w1 rd data_packet_def pairs v two(1) w2 flip: st)
  moreover have "client_accepts ?c K reply1 reply2"
    by (rule answer_accepted [OF c(1,2) view a(10,11,4,9) two(1) thin])
  ultimately show ?thesis by blast
qed

section \<open>Properties\<close>


subsection \<open>A concrete login\<close>

definition hex_digit_upper :: "nat \<Rightarrow> char" where
  "hex_digit_upper d = (if d < 10 then digit_char d else char_of (55 + d))"

definition hex_value :: "char \<Rightarrow> nat" where
  "hex_value c = code c - (if code c < 65 then 48 else 55)"

definition hex_of :: "bytes \<Rightarrow> string" where
  "hex_of m = concat (map (\<lambda>b. [hex_digit_upper (unat b div 16), hex_digit_upper (unat b mod 16)]) m)"

fun unhex :: "string \<Rightarrow> string + bytes" where
  "unhex [] = Inr []"
| "unhex [c] = Inl ''Odd number of digits''"
| "unhex (c # d # r) = map_ok (\<lambda>m. word_of_nat (16 * hex_value c + hex_value d) # m) (unhex r)"

definition text_crypto :: crypto where
  "text_crypto = null_crypto\<lparr>hex_decode := unhex, hex_upper := hex_of\<rparr>"

lemma hex_digit_upper:
  "d < 16 \<Longrightarrow> hex_value (hex_digit_upper d) = d" "d < 16 \<Longrightarrow> is_ascii_graphic (hex_digit_upper d)"
  by (auto simp: hex_digit_upper_def hex_value_def digit_char_def code_def is_ascii_graphic_def)

lemma unhex_hex_of: "unhex (hex_of m) = Inr m"
proof (induction m)
  case (Cons b m)
  have "unat b < 2 ^ LENGTH(8)" by (rule unsigned_less)
  then have "unat b div 16 < 16" "unat b mod 16 < 16" by auto
  with Cons show ?case by (simp add: hex_of_def hex_digit_upper)
qed (simp add: hex_of_def)

lemma hex_of_text: "list_all is_ascii_graphic (hex_of m) \<and> length (hex_of m) = 2 * length m"
proof (induction m)
  case (Cons b m)
  have "unat b < 2 ^ LENGTH(8)" by (rule unsigned_less)
  then have "unat b div 16 < 16" "unat b mod 16 < 16" by auto
  with Cons show ?case by (simp add: hex_of_def hex_digit_upper)
qed (simp add: hex_of_def)

lemma text_crypto_ok: "crypto_ok text_crypto" "hex_ok text_crypto"
  using null_crypto_ok unfolding crypto_ok_def text_crypto_def hex_ok_def
  by (simp_all add: unhex_hex_of hex_of_text)

definition sample_config :: config where
  "sample_config = \<lparr>cfg_credentials = insert_user ''HR'' ''pw'' default_credentials, cfg_version = V19c,
     cfg_backend = PostgresBackend, cfg_idle = None, cfg_crypto = text_crypto,
     cfg_random = (\<lambda>v. (replicate 16 1, replicate (client_key_length v) 2, replicate 16 3)),
     recorded_types = [], recorded_phase_two = [], next_session_id = 7\<rparr>"

definition sample_client :: client where
  "sample_client = \<lparr>k_connect = [1, 63, 1, 44] @ replicate 14 0 @ [0, 28], k_services = None, k_version = 6,
     k_accepted = [5, 4], k_banner = ''py'', k_ccaps = [6, 1], k_rcaps = [2], k_types = [(1, 1, 1, 0)],
     k_user = ''HR'', k_prefixed = True, k_pairs = [], k_key = (\<lambda>v. replicate (client_key_length v) 5), k_nonce = replicate 16 6,
     k_password = ''pw''\<rparr>"

definition sample_reply :: bytes where
  "sample_reply = the (phase_one_reply sample_config (client_profile sample_client)
     (challenge sample_config (client_profile sample_client) ''pw''))"

definition sample_answer :: auth_parameters where
  "sample_answer = the (client_pairs text_crypto (challenge sample_config (client_profile sample_client) ''pw'') sample_client)"

definition log_connector :: "((string \<times> string) list, unit) connector" where
  "log_connector u p w = (Inr (), (u, p) # w)"


end
