(* ===== verification/Pg_Values.thy ===== *)
theory Pg_Values
  imports "HOL-Library.Signed_Division" "HOL-Library.Word" Backend_Api Temporal Oracle_Number
begin

text \<open>
  From PostgreSQL to Oracle (\<^verbatim>\<open>src/src/backend.rs\<close>): the binary forms of intervals and numerics
  that the proxy decodes itself, the Oracle forms of every value, and the description of a
  column.  A value is what the driver hands out for its column; a float also carries the
  shortest text the standard library prints for it.
\<close>

section \<open>Intervals\<close>

record pg_interval =
  months :: int
  days :: int
  micros :: int

definition pg_interval_of :: "bytes \<Rightarrow> string + pg_interval" where
  "pg_interval_of raw =
     (if length raw \<noteq> 16 then Inl ''interval payload is not 16 bytes''
      else Inr \<lparr>months = sint (from_be (drop 12 raw) :: u32), days = sint (from_be (take 4 (drop 8 raw)) :: u32),
        micros = sint (from_be (take 8 raw) :: u64)\<rparr>)"

definition bias32 :: "int \<Rightarrow> bytes" where
  "bias32 i = be32 (word_of_int (i + 0x80000000))"

definition bias60 :: "int \<Rightarrow> u8" where
  "bias60 i = word_of_int (i + 60)"

definition encode_year_to_month :: "pg_interval \<Rightarrow> bytes" where
  "encode_year_to_month v = bias32 (months v sdiv 12) @ [bias60 (months v smod 12)]"

definition encode_day_to_second :: "pg_interval \<Rightarrow> bytes" where
  "encode_day_to_second v =
     (let total_days = days v + months v * 30;
          secs = micros v sdiv 1000000;
          nanos = (micros v smod 1000000) * 1000;
          d = total_days + secs sdiv 86400;
          s = secs smod 86400
      in bias32 d @ [bias60 (s sdiv 3600), bias60 ((s smod 3600) sdiv 60), bias60 (s smod 60)] @ bias32 nanos)"

definition oracle_interval_text :: "pg_interval \<Rightarrow> bool \<Rightarrow> string" where
  "oracle_interval_text v year_to_month =
     (if year_to_month \<or> months v \<noteq> 0 \<and> days v = 0 \<and> micros v = 0
      then let m = nat \<bar>months v\<bar> in
        (if months v < 0 then CHR ''-'' else CHR ''+'') # fmt_nat 2 (m div 12) @ ''-'' @ fmt_nat 2 (m mod 12)
      else let total_days = days v + months v * 30;
          secs = micros v sdiv 1000000;
          frac = nat \<bar>micros v smod 1000000\<bar>;
          d = total_days + secs sdiv 86400;
          s = secs smod 86400;
          neg = d < 0 \<or> s < 0 \<or> d = 0 \<and> micros v < 0;
          a = nat \<bar>s\<bar>
        in (if neg then CHR ''-'' else CHR ''+'') # fmt_nat 2 (nat \<bar>d\<bar>) @ '' '' @ fmt_nat 2 (a div 3600) @ '':''
          @ fmt_nat 2 (a mod 3600 div 60) @ '':'' @ fmt_nat 2 (a mod 60) @ ''.'' @ fmt_nat 6 frac)"

section \<open>Numerics\<close>

text \<open>
  \<^verbatim>\<open>PgNumericText::from_sql\<close>.  A negative count of digits, which no server sends, has too few
  digits here; the source overflows.
\<close>

definition padded_group :: "nat list \<Rightarrow> nat \<Rightarrow> string" where
  "padded_group groups i = (if i < length groups then fmt_nat 4 (groups ! i) else ''0000'')"

definition integer_digits :: "nat list \<Rightarrow> int \<Rightarrow> string" where
  "integer_digits groups point =
     (if point \<le> 0 then ''0''
      else let t = dropWhile (\<lambda>c. c = CHR ''0'') (concat (map (padded_group groups) [0..<nat point]))
        in if t = [] then ''0'' else t)"

definition fraction_digits :: "nat list \<Rightarrow> int \<Rightarrow> string" where
  "fraction_digits groups point =
     (if point \<le> 0
      then replicate (nat (- point) * 4) (CHR ''0'') @ concat (map (padded_group groups) [0..<length groups])
      else concat (map (padded_group groups) [nat point..<length groups]))"

definition trim_end_zeros :: "string \<Rightarrow> string" where
  "trim_end_zeros s = rev (dropWhile (\<lambda>c. c = CHR ''0'') (rev s))"

definition numeric_text :: "nat list \<Rightarrow> int \<Rightarrow> bool \<Rightarrow> nat \<Rightarrow> string" where
  "numeric_text groups weight negative dscale =
     (let point = weight + 1;
          i = integer_digits groups point;
          f = fraction_digits groups point;
          text = (if f = [] then i else i @ ''.'' @ f);
          text = (if dscale = 0 then takeWhile (\<lambda>c. c \<noteq> CHR ''.'') text
            else (case split_once text ''.'' of
                None \<Rightarrow> text
              | Some (whole, fraction) \<Rightarrow>
                  let fr = trim_end_zeros fraction in if fr = [] then whole else whole @ ''.'' @ fr))
      in if negative then CHR ''-'' # text else text)"

definition pg_numeric_text :: "bytes \<Rightarrow> string + string" where
  "pg_numeric_text raw =
     (if length raw < 8 then Inl ''numeric payload too short''
      else let n = unat (scast (from_be (take 2 raw) :: u16) :: u64);
          weight = sint (from_be (take 2 (drop 2 raw)) :: u16);
          sgn16 = (from_be (take 2 (drop 4 raw)) :: u16);
          dscale = nat (max (sint (from_be (take 2 (drop 6 raw)) :: u16)) 0)
        in if sgn16 = 0xC000 then Inr ''0''
          else if length raw < 8 + n * 2 then Inl ''numeric digits truncated''
          else Inr (numeric_text
            (map (\<lambda>i. nat_of_be (take 2 (drop (8 + i * 2) raw))) [0..<n]) weight (sgn16 = 0x4000) dscale))"

section \<open>Floats\<close>

text \<open>The bits of a float so that the bytes sort as the numbers do.\<close>

definition sort_bits :: "'w::len word \<Rightarrow> 'w word" where
  "sort_bits v = (if bit v (LENGTH('w) - 1) then NOT v else v OR push_bit (LENGTH('w) - 1) 1)"

definition encode_binary_float :: "u32 \<Rightarrow> bytes" where
  "encode_binary_float v = be32 (sort_bits v)"

definition encode_binary_double :: "u64 \<Rightarrow> bytes" where
  "encode_binary_double v = be64 (sort_bits v)"

section \<open>The session time zone\<close>

datatype session_tz = Utc | FixedTz int | NamedTz string

text \<open>
  The calendar of the chrono crates: a date and time some seconds later, and the offset of a
  named zone at an instant; names that are no zone have none.
\<close>

record calendar =
  shift_seconds :: "naive_date_time \<Rightarrow> int \<Rightarrow> naive_date_time"
  zone_offset :: "string \<Rightarrow> (naive_date_time \<Rightarrow> int) option"

definition offset_seconds :: "calendar \<Rightarrow> session_tz \<Rightarrow> naive_date_time \<Rightarrow> int" where
  "offset_seconds cal tz utc = (case tz of
       Utc \<Rightarrow> 0
     | FixedTz secs \<Rightarrow> secs
     | NamedTz name \<Rightarrow> (case zone_offset cal name of None \<Rightarrow> 0 | Some f \<Rightarrow> f utc))"

definition wall_clock :: "calendar \<Rightarrow> session_tz \<Rightarrow> naive_date_time \<Rightarrow> naive_date_time" where
  "wall_clock cal tz utc = (case tz of Utc \<Rightarrow> utc | _ \<Rightarrow> shift_seconds cal utc (offset_seconds cal tz utc))"

definition offset_hm :: "calendar \<Rightarrow> session_tz \<Rightarrow> naive_date_time \<Rightarrow> int \<times> int" where
  "offset_hm cal tz utc = (let secs = offset_seconds cal tz utc in
     (sint (word_of_int (secs sdiv 3600) :: u8), sint (word_of_int ((secs smod 3600) sdiv 60) :: u8)))"

text \<open>\<open>FixedOffset::east_opt\<close> takes less than a day either way.\<close>

definition parse_session_tz :: "calendar \<Rightarrow> string \<Rightarrow> int \<Rightarrow> session_tz" where
  "parse_session_tz cal name secs =
     (if name \<in> {''UTC'', ''GMT'', ''Etc/UTC'', ''Etc/GMT'', ''Zulu'', ''Universal''} then Utc
      else if zone_offset cal name \<noteq> None then NamedTz name
      else if secs = 0 then Utc
      else if - 86400 < secs \<and> secs < 86400 then FixedTz secs
      else Utc)"

section \<open>Columns\<close>

datatype pg_type = NUMERIC | INT2 | INT4 | INT8 | FLOAT4 | FLOAT8 | OID | BYTEA | VARCHAR | TEXT | BPCHAR
  | NAME | UNKNOWN | BOOL | DATE | TIMESTAMP | TIMESTAMPTZ | INTERVAL | OtherType

record pg_column =
  pg_name :: string
  pg_type :: pg_type
  type_modifier :: int

definition interval_is_year_to_month :: "int \<Rightarrow> bool" where
  "interval_is_year_to_month typmod =
     (if typmod < 0 then False
      else let fields = (word_of_int (typmod div 65536) :: u32) AND 0x7FFF
        in fields AND 0x1C08 = 0 \<and> fields AND 0x6 \<noteq> 0)"

definition scalar_column :: "string \<Rightarrow> nat \<Rightarrow> u8 \<Rightarrow> u32 \<Rightarrow> column_meta" where
  "scalar_column n pos t width = \<lparr>col_name = n, col_type = t, col_flags = 0, precision = 0, scale = 0,
     buffer_size = width, max_size = width, charset_id = 0, charset_form = 0, nullable = True,
     schema = None, type_name = None, col_position = word_of_nat pos\<rparr>"

text \<open>The precision and scale packed into the modifier of a \<open>numeric(p,s)\<close>.\<close>

definition numeric_precision :: "bool \<Rightarrow> int \<Rightarrow> u8 \<times> u8" where
  "numeric_precision report m =
     (if report \<and> 4 \<le> m
      then let packed = (word_of_int (m - 4) :: u32) in (ucast (drop_bit 16 packed), ucast packed)
      else (38, 0))"

definition pg_column_to_oracle_meta :: "pg_column \<Rightarrow> nat \<Rightarrow> describe_caps \<Rightarrow> column_meta" where
  "pg_column_to_oracle_meta c pos caps =
     (let n = pg_name c; t = pg_type c; scalar = scalar_column n pos in
      if t = NUMERIC
      then (case numeric_precision (report_number_scale caps) (type_modifier c) of (p, s) \<Rightarrow> number_column n p s)
      else if t \<in> {INT2, INT4, INT8, FLOAT4, FLOAT8, OID} then number_column n 38 0
      else if t = BYTEA then scalar 23 4000
      else if t \<in> {VARCHAR, TEXT, BPCHAR, NAME, UNKNOWN} then varchar_column n 4000
      else if t = BOOL then number_column n 1 0
      else if t = DATE then scalar 12 7
      else if t = TIMESTAMP
      then (if \<not> native_timestamps caps \<or> datetime_as_date caps then scalar 12 7
            else (scalar 180 11)\<lparr>scale := if timestamp_scale_zero caps then 0 else 6\<rparr>)
      else if t = TIMESTAMPTZ
      then (if \<not> native_timestamps caps \<or> datetime_as_date caps then scalar 12 7
            else (if caps_oci caps then (scalar 181 1)\<lparr>max_size := 0\<rparr> else scalar 181 13)
              \<lparr>scale := if timestamp_scale_zero caps then 0 else 6\<rparr>)
      else if t = INTERVAL
      then (if \<not> native_intervals caps then varchar_column n 30
            else if interval_is_year_to_month (type_modifier c) then scalar 182 5 else scalar 183 11)
      else varchar_column n 4000)"

section \<open>Values\<close>

text \<open>
  What the driver reads from a column, by the column's type: numbers by their value, floats by
  their text and bits, the two types the proxy decodes by their bytes.  \<open>Unreadable\<close> is a value
  of a type the driver cannot turn into what is asked for.
\<close>

datatype pg_value =
    PInt int | PBool bool | PFloat32 string u32 | PFloat64 string u64 | PNumeric bytes | PText string
  | PBytes bytes | PDate naive_date_time | PTimestamp naive_date_time | PTimestampTz naive_date_time
  | PInterval bytes | Unreadable

definition right :: "'e + 'a \<Rightarrow> 'a option" where
  "right r = (case r of Inl _ \<Rightarrow> None | Inr a \<Rightarrow> Some a)"

definition text_value :: "pg_value \<Rightarrow> bytes option" where
  "text_value v = (case v of PText s \<Rightarrow> Some (str_bytes s) | _ \<Rightarrow> None)"

definition number_value :: "pg_value \<Rightarrow> bytes option" where
  "number_value v = (case v of
       PInt i \<Rightarrow> Some (encode_oracle_number_i64 (word_of_int i))
     | PBool b \<Rightarrow> Some (encode_oracle_number_i64 (if b then 1 else 0))
     | PFloat32 s _ \<Rightarrow> right (encode_oracle_number_decimal s)
     | PFloat64 s _ \<Rightarrow> right (encode_oracle_number_decimal s)
     | PNumeric raw \<Rightarrow> Option.bind (right (pg_numeric_text raw)) (\<lambda>s. right (encode_oracle_number_decimal s))
     | _ \<Rightarrow> text_value v)"

definition date_value :: "calendar \<Rightarrow> session_tz \<Rightarrow> pg_value \<Rightarrow> bytes option" where
  "date_value cal tz v = (case v of
       PTimestamp t \<Rightarrow> Some (encode_oracle_date t)
     | PTimestampTz t \<Rightarrow> Some (encode_oracle_date (wall_clock cal tz t))
     | PDate t \<Rightarrow> Some (encode_oracle_date (t\<lparr>hour := 0, minute := 0, second := 0, nanosecond := 0\<rparr>))
     | _ \<Rightarrow> None)"

definition interval_value :: "(pg_interval \<Rightarrow> bytes) \<Rightarrow> pg_value \<Rightarrow> bytes option" where
  "interval_value f v = (case v of PInterval raw \<Rightarrow> map_option f (right (pg_interval_of raw)) | _ \<Rightarrow> None)"

text \<open>\<open>None\<close> for a null, and for a value that cannot be read or encoded.\<close>

definition pg_value_to_oracle_bytes ::
    "calendar \<Rightarrow> session_tz \<Rightarrow> bool \<Rightarrow> u8 \<Rightarrow> pg_column \<Rightarrow> pg_value option \<Rightarrow> bytes option" where
  "pg_value_to_oracle_bytes cal tz oci oracle_type c v0 = Option.bind v0 (\<lambda>v.
     if oracle_type = 2 then number_value v
     else if oracle_type = 23 then (case v of PBytes bs \<Rightarrow> Some bs | _ \<Rightarrow> None)
     else if oracle_type = 100 then (case v of PFloat32 _ b \<Rightarrow> Some (encode_binary_float b) | _ \<Rightarrow> None)
     else if oracle_type = 101 then (case v of PFloat64 _ b \<Rightarrow> Some (encode_binary_double b) | _ \<Rightarrow> None)
     else if oracle_type = 12 then date_value cal tz v
     else if oracle_type = 180 then (case v of PTimestamp t \<Rightarrow> Some (encode_oracle_timestamp t None) | _ \<Rightarrow> None)
     else if oracle_type = 181 then (case v of
         PTimestampTz t \<Rightarrow> Some (encode_oracle_timestamp_tz t (offset_hm cal tz t) oci) | _ \<Rightarrow> None)
     else if oracle_type = 182 then interval_value encode_year_to_month v
     else if oracle_type = 183 then interval_value encode_day_to_second v
     else if pg_type c = INTERVAL
     then interval_value (\<lambda>i. str_bytes (oracle_interval_text i (interval_is_year_to_month (type_modifier c)))) v
     else text_value v)"

section \<open>Reading intervals back\<close>

definition unbias32 :: "bytes \<Rightarrow> int" where
  "unbias32 bs = int (nat_of_be bs) - 0x80000000"

definition unbias60 :: "u8 \<Rightarrow> int" where
  "unbias60 b = int (unat b) - 60"

lemma unbias32_bias32:
  assumes "- 0x80000000 \<le> i" "i < 0x80000000"
  shows "unbias32 (bias32 i) = i"
proof -
  have "i + 0x80000000 = int (nat (i + 0x80000000))" "nat (i + 0x80000000) < 4294967296" using assms by auto
  then obtain k where k: "i + 0x80000000 = int k" "k < 4294967296" by blast
  then show ?thesis
    by (simp add: unbias32_def bias32_def nat_of_be32 unat_of_nat take_bit_nat_eq_self)
qed

lemma unbias60_bias60: "- 60 \<le> i \<Longrightarrow> i < 196 \<Longrightarrow> unbias60 (bias60 i) = i"
  using uint_word_of_int_u8 [of "i + 60"] by (simp add: unbias60_def bias60_def)

text \<open>The client puts the fields together again.\<close>

definition read_day_to_second :: "bytes \<Rightarrow> int" where
  "read_day_to_second bs =
     (((unbias32 (take 4 bs) * 24 + unbias60 (bs ! 4)) * 60 + unbias60 (bs ! 5)) * 60 + unbias60 (bs ! 6)) * 1000000000
       + unbias32 (drop 7 bs)"

definition read_year_to_month :: "bytes \<Rightarrow> int" where
  "read_year_to_month bs = unbias32 (take 4 bs) * 12 + unbias60 (bs ! 4)"

lemma smod_bounds: "0 < (b :: int) \<Longrightarrow> - b < a smod b \<and> a smod b < b"
  using smod_int_range [of b a] by auto

lemma smod_smod: "(a smod 3600) smod 60 = a smod (60 :: int)"
proof -
  have pos: "(b smod 3600) smod 60 = b smod (60 :: int)" if "0 \<le> b" for b
    using that by (simp add: smod_mod_positive mod_mod_cancel)
  show ?thesis
  proof (cases "0 \<le> a")
    case False
    with pos [of "- a"] show ?thesis by simp
  qed (rule pos)
qed

lemma length_bias32 [simp]: "length (bias32 i) = 4"
  by (simp add: bias32_def)

lemma read_day_fields:
  assumes "- 0x80000000 \<le> d" "d < 0x80000000" "- 60 \<le> h" "h < 99" "- 60 \<le> m" "m < 99" "- 60 \<le> x" "x < 99"
    and "- 0x80000000 \<le> n" "n < 0x80000000"
  shows "read_day_to_second (bias32 d @ [bias60 h, bias60 m, bias60 x] @ bias32 n)
    = (((d * 24 + h) * 60 + m) * 60 + x) * 1000000000 + n"
  using assms by (simp add: read_day_to_second_def nth_append unbias32_bias32 unbias60_bias60)

lemma day_to_second_read:
  assumes d: "d = days v + months v * 30 + micros v sdiv 1000000 sdiv 86400"
    and fit: "- 0x80000000 \<le> d" "d < 0x80000000"
  shows "read_day_to_second (encode_day_to_second v) = ((days v + months v * 30) * 86400000000 + micros v) * 1000"
proof -
  define secs where "secs = micros v sdiv 1000000"
  define s where "s = secs smod 86400"
  define n where "n = micros v smod 1000000"
  define h where "h = s sdiv 3600"
  define m where "m = (s smod 3600) sdiv 60"
  define x where "x = s smod 60"
  have b: "- 86400 < s \<and> s < 86400" "- 1000000 < n \<and> n < 1000000" "- 60 < x \<and> x < 60"
    "- 3600 < s smod 3600 \<and> s smod 3600 < 3600"
    unfolding s_def n_def x_def by (rule smod_bounds; simp)+
  have q: "secs sdiv 86400 * 86400 + s = secs" "secs * 1000000 + n = micros v" "h * 3600 + s smod 3600 = s"
    "m * 60 + (s smod 3600) smod 60 = s smod 3600"
    unfolding s_def n_def secs_def h_def m_def by (rule sdiv_mult_smod_eq)+
  from q(4) have q4: "m * 60 + x = s smod 3600" by (simp add: x_def smod_smod)
  have hb: "- 60 \<le> h" "h < 99" and mb: "- 60 \<le> m" "m < 99" and xb: "- 60 \<le> x" "x < 99"
    and nb: "- 0x80000000 \<le> n * 1000" "n * 1000 < 0x80000000"
    using b q(3) q4 by linarith+
  have "encode_day_to_second v = bias32 d @ [bias60 h, bias60 m, bias60 x] @ bias32 (n * 1000)"
    by (simp add: encode_day_to_second_def Let_def d h_def m_def x_def n_def s_def secs_def)
  then have "read_day_to_second (encode_day_to_second v)
      = (((d * 24 + h) * 60 + m) * 60 + x) * 1000000000 + n * 1000"
    using read_day_fields [OF fit hb mb xb nb] by simp
  also have "((d * 24 + h) * 60 + m) * 60 + x = (days v + months v * 30) * 86400 + secs"
    using q(1,3) q4 d unfolding secs_def [symmetric] by (simp add: algebra_simps)
  finally show ?thesis using q(2) by (simp add: algebra_simps)
qed

lemma year_to_month_read:
  assumes "- 0x80000000 \<le> months v" "months v < 0x80000000"
  shows "read_year_to_month (encode_year_to_month v) = months v"
proof -
  have b: "- 12 < months v smod 12 \<and> months v smod 12 < 12" by (rule smod_bounds) simp
  have q: "months v sdiv 12 * 12 + months v smod 12 = months v" by (rule sdiv_mult_smod_eq)
  with b assms have "- 0x80000000 \<le> months v sdiv 12" "months v sdiv 12 < 0x80000000" by linarith+
  with b q show ?thesis
    by (simp add: read_year_to_month_def encode_year_to_month_def nth_append unbias32_bias32 unbias60_bias60)
qed

section \<open>Floats sort as their values\<close>

text \<open>
  The value of a float in units of its least subnormal, infinity being beyond every finite
  value: \<open>p\<close> bits of significand below the exponent.
\<close>

definition magnitude_value :: "nat \<Rightarrow> nat \<Rightarrow> nat" where
  "magnitude_value p mag =
     (let e = mag div 2 ^ p; m = mag mod 2 ^ p in if e = 0 then m else (2 ^ p + m) * 2 ^ (e - 1))"

definition float_value :: "nat \<Rightarrow> 'w::len word \<Rightarrow> int" where
  "float_value p v =
     (if bit v (LENGTH('w) - 1) then - int (magnitude_value p (unat v - 2 ^ (LENGTH('w) - 1)))
      else int (magnitude_value p (unat v)))"

lemma magnitude_step: "magnitude_value p n < magnitude_value p (Suc n)"
proof (cases "Suc (n mod 2 ^ p) = 2 ^ p")
  case True
  then have s: "Suc n div 2 ^ p = Suc (n div 2 ^ p)" "Suc n mod 2 ^ p = 0"
    by (simp_all add: div_Suc mod_Suc)
  have "n mod 2 ^ p < 2 ^ p" by simp
  then have "2 ^ p + n mod 2 ^ p < 2 * 2 ^ p" by linarith
  then have "(2 ^ p + n mod 2 ^ p) * 2 ^ e < 2 * 2 ^ p * 2 ^ e" for e :: nat by simp
  then show ?thesis
    using s True by (cases "n div 2 ^ p") (simp_all add: magnitude_value_def ac_simps)
next
  case False
  then have "Suc n div 2 ^ p = n div 2 ^ p" "Suc n mod 2 ^ p = Suc (n mod 2 ^ p)"
    by (simp_all add: div_Suc mod_Suc)
  then show ?thesis by (simp add: magnitude_value_def Let_def)
qed

lemma magnitude_mono: "magnitude_value p m < magnitude_value p n \<longleftrightarrow> m < n"
  using lift_Suc_mono_less_iff [of "magnitude_value p", OF magnitude_step] .

lemma magnitude_pos: "0 < n \<Longrightarrow> 0 < magnitude_value p n"
  using magnitude_mono [of p 0 n] by simp

lemma unat_top:
  fixes v :: "'w::len word"
  shows "bit v (LENGTH('w) - 1) \<longleftrightarrow> 2 ^ (LENGTH('w) - 1) \<le> unat v"
proof -
  obtain n where n: "LENGTH('w) = Suc n" using not0_implies_Suc [of "LENGTH('w)"] by auto
  have "unat v < 2 ^ LENGTH('w)" by (rule unsigned_less)
  with n have l: "unat v < 2 * 2 ^ n" by simp
  then have "unat v div 2 ^ n < 2" by (simp add: less_mult_imp_div_less)
  then have "odd (unat v div 2 ^ n) \<longleftrightarrow> unat v div 2 ^ n \<noteq> 0" by (auto simp: less_2_cases_iff)
  then have "odd (unat v div 2 ^ n) \<longleftrightarrow> 2 ^ n \<le> unat v"
    by (simp add: div_eq_0_iff not_less)
  moreover have "bit v n \<longleftrightarrow> bit (unat v) n" using n by (simp add: bit_unsigned_iff)
  ultimately show ?thesis using n by (simp add: bit_iff_odd)
qed

lemma unat_top_bit: "unat (push_bit (LENGTH('w) - 1) 1 :: 'w::len word) = 2 ^ (LENGTH('w) - 1)"
  by (subst unsigned_push_bit_eq) (simp add: push_bit_eq_mult take_bit_nat_eq_self)

lemma unat_sort_bits:
  fixes v :: "'w::len word"
  shows "unat (sort_bits v) = (if bit v (LENGTH('w) - 1) then 2 ^ LENGTH('w) - 1 - unat v else unat v + 2 ^ (LENGTH('w) - 1))"
proof (cases "bit v (LENGTH('w) - 1)")
  case True
  have "unat (NOT v) + unat v = 2 ^ LENGTH('w) - 1"
  proof -
    have "NOT v = - 1 - v" by (simp add: not_eq_complement)
    moreover have "unat (- 1 :: 'w word) = 2 ^ LENGTH('w) - 1" by (simp add: unsigned_minus_1_eq_mask mask_eq_exp_minus_1)
    moreover have "unat v \<le> unat (- 1 :: 'w word)" using word_le_nat_alt [of v "- 1"] by simp
    ultimately show ?thesis by (simp add: unat_sub_if')
  qed
  with True show ?thesis by (simp add: sort_bits_def)
next
  case False
  let ?top = "push_bit (LENGTH('w) - 1) 1 :: 'w word"
  have "v AND ?top = 0"
    using False by (intro bit_word_eqI) (auto simp: bit_simps)
  then have "v OR ?top = v + ?top" by (simp add: disjunctive_add_eq_or)
  moreover have t: "unat ?top = 2 ^ (LENGTH('w) - 1)" by (rule unat_top_bit)
  moreover have "unat v + unat ?top < 2 ^ LENGTH('w)"
    using False t unat_top [of v] by (cases "LENGTH('w)") auto
  ultimately show ?thesis using False by (simp add: sort_bits_def unat_plus_simple unat_word_ariths)
qed

lemma sort_bits_order:
  fixes a b :: "'w::len word"
  assumes "float_value p a < float_value p b"
  shows "unat (sort_bits a) < unat (sort_bits b)"
proof -
  let ?top = "2 ^ (LENGTH('w) - 1) :: nat"
  have two: "(2 :: nat) ^ LENGTH('w) = 2 * ?top" by (cases "LENGTH('w)") auto
  have bounds: "unat v < 2 * ?top" for v :: "'w word"
    unfolding two [symmetric] by (rule unsigned_less)
  note top = unat_top [of a] unat_top [of b]
  show ?thesis
  proof (cases "bit a (LENGTH('w) - 1)"; cases "bit b (LENGTH('w) - 1)")
    assume s: "bit a (LENGTH('w) - 1)" "bit b (LENGTH('w) - 1)"
    with assms have "unat b - ?top < unat a - ?top" by (simp add: float_value_def magnitude_mono)
    moreover have "?top \<le> unat a" "?top \<le> unat b" using s top by simp_all
    ultimately have "unat b < unat a" by linarith
    with s bounds [of a] show ?thesis by (simp add: unat_sort_bits two)
  next
    assume s: "bit a (LENGTH('w) - 1)" "\<not> bit b (LENGTH('w) - 1)"
    with top bounds [of a] show ?thesis by (simp add: unat_sort_bits two)
  next
    assume s: "\<not> bit a (LENGTH('w) - 1)" "bit b (LENGTH('w) - 1)"
    with assms show ?thesis by (simp add: float_value_def)
  next
    assume s: "\<not> bit a (LENGTH('w) - 1)" "\<not> bit b (LENGTH('w) - 1)"
    with assms show ?thesis by (simp add: float_value_def unat_sort_bits magnitude_mono)
  qed
qed

section \<open>Values fit their descriptions\<close>

text \<open>
  The values the driver hands out for a column of a type, as far as the proxy reads them for
  certain: an integer or Boolean, text, bytes, dates and times, a whole interval payload.
\<close>

definition well_typed :: "pg_type \<Rightarrow> pg_value \<Rightarrow> bool" where
  "well_typed t v = (case v of
       PInt _ \<Rightarrow> t \<in> {INT2, INT4, INT8}
     | PBool _ \<Rightarrow> t = BOOL
     | PText _ \<Rightarrow> t \<in> {VARCHAR, TEXT, BPCHAR, NAME, UNKNOWN}
     | PBytes _ \<Rightarrow> t = BYTEA
     | PDate _ \<Rightarrow> t = DATE
     | PTimestamp _ \<Rightarrow> t = TIMESTAMP
     | PTimestampTz _ \<Rightarrow> t = TIMESTAMPTZ
     | PInterval raw \<Rightarrow> t = INTERVAL \<and> length raw = 16
     | _ \<Rightarrow> False)"

text \<open>The width of a value of the Oracle types whose values have one.\<close>

definition value_width :: "u8 \<Rightarrow> nat option" where
  "value_width t = map_of [(12, 7), (100, 4), (101, 8), (180, 11), (181, 13), (182, 5), (183, 11)] t"

definition fits_type :: "u8 \<Rightarrow> bytes option \<Rightarrow> bool" where
  "fits_type t r = (case r of None \<Rightarrow> False
     | Some bs \<Rightarrow> (case value_width t of None \<Rightarrow> True | Some w \<Rightarrow> length bs = w))"

lemma temporal_lengths [simp]:
  "length (encode_oracle_date v) = 7" "length (encode_oracle_timestamp v None) = 11"
  "length (encode_oracle_timestamp_tz v hm oci) = 13"
  by (simp_all add: encode_oracle_date_def encode_oracle_timestamp_def encode_oracle_timestamp_tz_def split_beta Let_def)

lemma interval_lengths [simp]:
  "length (encode_year_to_month i) = 5" "length (encode_day_to_second i) = 11"
  by (simp_all add: encode_year_to_month_def encode_day_to_second_def Let_def)

lemma interval_fits:
  "length raw = 16 \<Longrightarrow> interval_value f (PInterval raw) = Some (f \<lparr>months = sint (from_be (drop 12 raw) :: u32),
     days = sint (from_be (take 4 (drop 8 raw)) :: u32), micros = sint (from_be (take 8 raw) :: u64)\<rparr>)"
  by (simp add: interval_value_def pg_interval_of_def right_def)

lemma described_type:
  "col_type (pg_column_to_oracle_meta c pos caps) =
     (let t = pg_type c; as_date = \<not> native_timestamps caps \<or> datetime_as_date caps in
      if t \<in> {NUMERIC, INT2, INT4, INT8, FLOAT4, FLOAT8, OID, BOOL} then 2
      else if t = BYTEA then 23
      else if t = DATE then 12
      else if t = TIMESTAMP then if as_date then 12 else 180
      else if t = TIMESTAMPTZ then if as_date then 12 else 181
      else if t = INTERVAL
      then if \<not> native_intervals caps then 1 else if interval_is_year_to_month (type_modifier c) then 182 else 183
      else 1)"
  by (cases "pg_type c")
    (simp_all add: pg_column_to_oracle_meta_def scalar_column_def number_column_def varchar_column_def Let_def split_beta)

lemmas value_defs = pg_value_to_oracle_bytes_def fits_type_def value_width_def number_value_def text_value_def
  date_value_def

lemma value_fits:
  assumes "well_typed (pg_type c) v"
  shows "fits_type (col_type (pg_column_to_oracle_meta c pos caps))
    (pg_value_to_oracle_bytes cal tz oci (col_type (pg_column_to_oracle_meta c pos caps)) c (Some v))"
proof -
  define a where "a = (\<not> native_timestamps caps \<or> datetime_as_date caps)"
  define y where "y = interval_is_year_to_month (type_modifier c)"
  have t: "col_type (pg_column_to_oracle_meta c pos caps) = x \<Longrightarrow>
      fits_type x (pg_value_to_oracle_bytes cal tz oci x c (Some v)) \<Longrightarrow> ?thesis" for x
    by simp
  show ?thesis
    by (cases "pg_type c"; cases a; cases "native_intervals caps"; cases y; rule t [OF described_type];
        use assms in \<open>cases v; simp add: well_typed_def value_defs interval_fits a_def y_def Let_def\<close>)
qed

section \<open>The properties\<close>

text \<open>
  C24.  The two Oracle interval forms lose nothing: the client that undoes the biases and adds
  the fields up gets the months of a year-to-month interval, and all the nanoseconds of a
  day-to-second interval with its months taken as 30 days, whatever the signs of the parts, as
  long as the days fit the 32-bit field.\<close>

theorem interval_read_back:
  assumes "- 0x80000000 \<le> months v" "months v < 0x80000000"
    and "- 0x80000000 \<le> days v + months v * 30 + micros v sdiv 1000000 sdiv 86400"
    and "days v + months v * 30 + micros v sdiv 1000000 sdiv 86400 < 0x80000000"
  shows "read_year_to_month (encode_year_to_month v) = months v
    \<and> read_day_to_second (encode_day_to_second v) = ((days v + months v * 30) * 86400000000 + micros v) * 1000"
  using year_to_month_read [OF assms(1,2)] day_to_second_read [OF refl assms(3,4)] by blast

text \<open>One day less one hour and a microsecond.\<close>

theorem interval_read_back_witness:
  "read_day_to_second (encode_day_to_second \<lparr>months = 0, days = 1, micros = - 3600000001\<rparr>) = 82799999999000"
proof -
  have q: "(- 3600000001) sdiv (1000000 :: int) sdiv 86400 = 0" by (simp add: signed_divide_int_def sgn_if)
  show ?thesis
    using interval_read_back [of "\<lparr>months = 0, days = 1, micros = - 3600000001\<rparr>"] by (simp add: q)
qed



text \<open>
  \<open>BINARY_FLOAT\<close> and \<open>BINARY_DOUBLE\<close> values sort by their bytes as by their numbers: of two
  floats with the smaller value first, signs, subnormals and infinities included, the encoded
  bytes are the smaller number too.\<close>

theorem binary_float_sorts:
  "(float_value 23 x < float_value 23 y \<longrightarrow>
      nat_of_be (encode_binary_float x) < nat_of_be (encode_binary_float y))
   \<and> (float_value 52 a < float_value 52 b \<longrightarrow>
      nat_of_be (encode_binary_double a) < nat_of_be (encode_binary_double b))"
  by (simp add: encode_binary_float_def encode_binary_double_def nat_of_be32 nat_of_be64 sort_bits_order)

text \<open>-2 below 0.5, as singles and as doubles.\<close>

theorem binary_float_sorts_witness:
  "nat_of_be (encode_binary_float 0xC0000000) < nat_of_be (encode_binary_float 0x3F000000)
   \<and> nat_of_be (encode_binary_double 0xC000000000000000) < nat_of_be (encode_binary_double 0x3FE0000000000000)"
proof -
  have "float_value 23 (0xC0000000 :: u32) < float_value 23 (0x3F000000 :: u32)"
    "float_value 52 (0xC000000000000000 :: u64) < float_value 52 (0x3FE0000000000000 :: u64)"
    by (simp_all add: float_value_def magnitude_value_def Let_def)
  with binary_float_sorts [of "0xC0000000" "0x3F000000" "0xC000000000000000" "0x3FE0000000000000"]
  show ?thesis by blast
qed

end
