(* ===== verification/Pg_Numeric.thy ===== *)
theory Pg_Numeric
  imports Complex_Main Pg_Values
begin

text \<open>
  The text that \<open>pg_numeric_text\<close> makes of a binary \<open>numeric\<close> denotes its number: the groups of
  the payload are base-10000 digits, the first of weight \<open>10000 powi weight\<close>, and reading the
  decimal text back gives their sum, wherever the point falls.
\<close>

section \<open>Reading decimal text\<close>

definition decimal_value :: "string \<Rightarrow> rat" where
  "decimal_value s =
     (let whole = takeWhile (\<lambda>c. c \<noteq> CHR ''.'') s; frac = drop 1 (dropWhile (\<lambda>c. c \<noteq> CHR ''.'') s)
      in of_nat (parse_digits whole) + of_nat (parse_digits frac) / 10 ^ length frac)"

definition signed_value :: "string \<Rightarrow> rat" where
  "signed_value s = (case s of c # t \<Rightarrow> if c = CHR ''-'' then - decimal_value t else decimal_value s | [] \<Rightarrow> 0)"

lemma digit_no_point: "is_ascii_digit c \<Longrightarrow> c \<noteq> CHR ''.'' \<and> c \<noteq> CHR ''-''"
  by (auto simp: is_ascii_digit_def code_def)

lemma digits_no_point: "list_all is_ascii_digit s \<Longrightarrow> c \<in> set s \<Longrightarrow> c \<noteq> CHR ''.''"
  using digit_no_point by (auto simp: list_all_iff)

lemma takeWhile_digits:
  assumes "list_all is_ascii_digit i"
  shows "takeWhile (\<lambda>c. c \<noteq> CHR ''.'') i = i" "dropWhile (\<lambda>c. c \<noteq> CHR ''.'') i = []"
    "takeWhile (\<lambda>c. c \<noteq> CHR ''.'') (i @ CHR ''.'' # f) = i"
    "dropWhile (\<lambda>c. c \<noteq> CHR ''.'') (i @ CHR ''.'' # f) = CHR ''.'' # f"
  using digits_no_point [OF assms]
  by (simp_all add: takeWhile_eq_all_conv dropWhile_eq_Nil_conv takeWhile_append2 dropWhile_append2)

lemma decimal_value_parts:
  assumes "list_all is_ascii_digit i"
  shows "decimal_value i = of_nat (parse_digits i)"
    and "decimal_value (i @ CHR ''.'' # f) = of_nat (parse_digits i) + of_nat (parse_digits f) / 10 ^ length f"
  by (simp_all add: decimal_value_def parse_digits_def takeWhile_digits [OF assms])

lemma split_once_digits:
  "list_all is_ascii_digit i \<Longrightarrow> split_once i ''.'' = None"
  "list_all is_ascii_digit i \<Longrightarrow> split_once (i @ CHR ''.'' # f) ''.'' = Some (i, f)"
  by (induction i) (auto simp: starts_with_iff dest: digit_no_point)

section \<open>Digits\<close>

lemma parse_digits_append: "parse_digits (a @ b) = parse_digits a * 10 ^ length b + parse_digits b"
proof (induction b rule: rev_induct)
  case (snoc c b)
  have "parse_digits (a @ b @ [c]) = parse_digits (a @ b) * 10 + digit_val c"
    using parse_digits_snoc [of "a @ b" c] by simp
  with snoc show ?case by (simp add: parse_digits_snoc algebra_simps)
qed (simp add: parse_digits_def)

lemma parse_digits_zeros [simp]: "parse_digits (replicate k (CHR ''0'')) = 0"
  by (induction k) (simp_all add: replicate_append_same [symmetric] parse_digits_snoc parse_digits_def digit_val_def code_def
      del: replicate_append_same)

lemma parse_digits_cons0: "parse_digits (CHR ''0'' # s) = parse_digits s"
  by (simp add: parse_digits_def digit_val_def code_def)

lemma parse_digits_trim: "parse_digits (dropWhile (\<lambda>c. c = CHR ''0'') s) = parse_digits s"
  by (induction s) (simp_all add: parse_digits_cons0)

lemma trim_end_split: "\<exists>k. s = trim_end_zeros s @ replicate k (CHR ''0'')"
proof -
  let ?z = "\<lambda>c. c = CHR ''0''"
  have "s = rev (takeWhile ?z (rev s) @ dropWhile ?z (rev s))" by simp
  also have "\<dots> = trim_end_zeros s @ rev (takeWhile ?z (rev s))"
    by (simp only: rev_append trim_end_zeros_def)
  also have "rev (takeWhile ?z (rev s)) = replicate (length (takeWhile ?z (rev s))) (CHR ''0'')"
    by (rule replicate_eqI) (auto dest: set_takeWhileD)
  finally show ?thesis by blast
qed

lemma trim_end_value:
  "(of_nat (parse_digits (trim_end_zeros f)) :: rat) / 10 ^ length (trim_end_zeros f)
     = of_nat (parse_digits f) / 10 ^ length f"
proof -
  obtain k where k: "f = trim_end_zeros f @ replicate k (CHR ''0'')" using trim_end_split by blast
  define t where "t = trim_end_zeros f"
  from k have "f = t @ replicate k (CHR ''0'')" by (simp add: t_def)
  then have "parse_digits f = parse_digits t * 10 ^ k" "length f = length t + k"
    by (simp_all add: parse_digits_append)
  then show ?thesis by (simp add: t_def [symmetric] power_add)
qed

section \<open>Groups\<close>

definition group_at :: "nat list \<Rightarrow> nat \<Rightarrow> nat" where
  "group_at gs i = (if i < length gs then gs ! i else 0)"

lemma fmt_group:
  assumes "g < 10000"
  shows "length (fmt_nat 4 g) = 4 \<and> list_all is_ascii_digit (fmt_nat 4 g) \<and> parse_digits (fmt_nat 4 g) = g"
proof -
  have "length (show_nat g) \<le> 4" using length_show_nat [of g 3] assms by simp
  moreover have "is_ascii_digit (CHR ''0'')" by (simp add: is_ascii_digit_def code_def)
  ultimately show ?thesis
    using show_nat_digits [of g] by (auto simp add: fmt_nat_def pad0_def parse_digits_append list_all_iff)
qed

lemma padded_group_at: "padded_group gs i = fmt_nat 4 (group_at gs i)"
proof -
  have "fmt_nat 4 0 = ''0000''"
    by (simp add: fmt_nat_def pad0_def show_nat.simps [of 0] zero_char numeral_eq_Suc)
  then show ?thesis by (simp add: padded_group_def group_at_def)
qed

lemma group_at_bound: "list_all (\<lambda>g. g < 10000) gs \<Longrightarrow> group_at gs i < 10000"
  by (simp add: group_at_def list_all_length)

lemma padded_groups:
  assumes "list_all (\<lambda>g. g < 10000) gs" "a \<le> b"
  shows "list_all is_ascii_digit (concat (map (padded_group gs) [a..<b]))
    \<and> length (concat (map (padded_group gs) [a..<b])) = 4 * (b - a)
    \<and> (of_nat (parse_digits (concat (map (padded_group gs) [a..<b]))) :: rat)
        = (\<Sum>i\<in>{a..<b}. of_nat (group_at gs i) * 10000 ^ (b - 1 - i))"
  using assms(2)
proof (induction b rule: dec_induct)
  case base
  then show ?case by (simp add: parse_digits_def)
next
  case (step b)
  let ?s = "concat (map (padded_group gs) [a..<b])"
  let ?d = "\<lambda>b. \<Sum>i\<in>{a..<b}. of_nat (group_at gs i) * 10000 ^ (b - 1 - i) :: rat"
  have e: "concat (map (padded_group gs) [a..<Suc b]) = ?s @ fmt_nat 4 (group_at gs b)"
    using step.hyps by (simp add: padded_group_at)
  note g = fmt_group [OF group_at_bound [OF assms(1), of b]]
  have m: "10000 * ?d b = (\<Sum>i\<in>{a..<b}. of_nat (group_at gs i) * 10000 ^ (b - i))"
  proof -
    have "10000 * (of_nat (group_at gs i) * 10000 ^ (b - 1 - i)) = (of_nat (group_at gs i) * 10000 ^ (b - i) :: rat)"
      if "i \<in> {a..<b}" for i
    proof -
      from that have "b - i = Suc (b - 1 - i)" by auto
      then show ?thesis by simp
    qed
    then show ?thesis unfolding sum_distrib_left by (rule sum.cong [OF refl])
  qed
  have "(of_nat (parse_digits (?s @ fmt_nat 4 (group_at gs b))) :: rat)
      = 10000 * of_nat (parse_digits ?s) + of_nat (group_at gs b)"
    using g by (simp add: parse_digits_append)
  also have "\<dots> = 10000 * ?d b + of_nat (group_at gs b)" using step.IH by (simp only:)
  also have "\<dots> = ?d (Suc b)"
    unfolding m using step.hyps by (simp add: sum.atLeastLessThan_Suc)
  finally show ?case
    using step.IH step.hyps g unfolding e by simp
qed

text \<open>The groups from \<open>a\<close> to \<open>b\<close> at their weights.\<close>

definition weigh :: "nat list \<Rightarrow> int \<Rightarrow> nat \<Rightarrow> nat \<Rightarrow> rat" where
  "weigh gs w a b = (\<Sum>i\<in>{a..<b}. of_nat (group_at gs i) * 10000 powi (w - int i))"

lemma weigh_shift:
  "(\<Sum>i\<in>{a..<b}. of_nat (group_at gs i) * 10000 ^ (b - 1 - i)) = weigh gs w a b * 10000 powi (int b - 1 - w)"
proof -
  have "of_nat (group_at gs i) * 10000 ^ (b - 1 - i)
      = of_nat (group_at gs i) * 10000 powi (w - int i) * (10000 powi (int b - 1 - w) :: rat)"
    if "i \<in> {a..<b}" for i
  proof -
    from that have "int (b - 1 - i) = (w - int i) + (int b - 1 - w)" by auto
    then have "(10000 :: rat) ^ (b - 1 - i) = 10000 powi ((w - int i) + (int b - 1 - w))"
      by (simp only: power_int_of_nat [symmetric])
    also have "\<dots> = 10000 powi (w - int i) * 10000 powi (int b - 1 - w)" by (rule power_int_add) simp
    finally show ?thesis by (simp only: mult.assoc)
  qed
  then show ?thesis unfolding weigh_def sum_distrib_right by (rule sum.cong [OF refl])
qed

lemma padded_value:
  assumes "list_all (\<lambda>g. g < 10000) gs" "a \<le> b"
  shows "(of_nat (parse_digits (concat (map (padded_group gs) [a..<b]))) :: rat)
     = weigh gs w a b * 10000 powi (int b - 1 - w)"
  using padded_groups [OF assms] weigh_shift [of gs b a w] by simp

lemma weigh_split: "a \<le> m \<Longrightarrow> m \<le> b \<Longrightarrow> weigh gs w a b = weigh gs w a m + weigh gs w m b"
  by (simp add: weigh_def sum.atLeastLessThan_concat)

lemma weigh_beyond: "length gs \<le> b \<Longrightarrow> weigh gs w 0 b = weigh gs w 0 (length gs)"
proof -
  assume l: "length gs \<le> b"
  have "weigh gs w (length gs) b = 0" by (simp add: weigh_def group_at_def)
  with weigh_split [of 0 "length gs" b gs w] l show ?thesis by simp
qed

section \<open>The text of a numeric\<close>

lemma zero_digit [simp]: "is_ascii_digit (CHR ''0'')"
  by (simp add: is_ascii_digit_def code_def)

lemma list_all_dropWhile: "list_all P xs \<Longrightarrow> list_all P (dropWhile Q xs)"
  by (meson list_all_iff set_dropWhileD)

lemma integer_part:
  assumes "list_all (\<lambda>g. g < 10000) gs"
  shows "list_all is_ascii_digit (integer_digits gs (w + 1)) \<and> integer_digits gs (w + 1) \<noteq> []
    \<and> of_nat (parse_digits (integer_digits gs (w + 1))) = weigh gs w 0 (nat (w + 1))"
proof (cases "w + 1 \<le> 0")
  case True
  then show ?thesis
    by (simp add: integer_digits_def weigh_def parse_digits_def digit_val_def code_def)
next
  case False
  let ?t = "concat (map (padded_group gs) [0..<nat (w + 1)])"
  from False have v: "of_nat (parse_digits ?t) = weigh gs w 0 (nat (w + 1))"
    using padded_value [OF assms, of 0 "nat (w + 1)" w] by simp
  have d: "list_all is_ascii_digit (dropWhile (\<lambda>c. c = CHR ''0'') ?t)"
    using padded_groups [OF assms, of 0 "nat (w + 1)"] by (blast intro: list_all_dropWhile)
  show ?thesis
  proof (cases "dropWhile (\<lambda>c. c = CHR ''0'') ?t = []")
    case True
    then have "parse_digits ?t = parse_digits []" using parse_digits_trim [of ?t] by (simp only:)
    with v have "weigh gs w 0 (nat (w + 1)) = 0" by (simp add: parse_digits_def)
    with True False show ?thesis
      by (simp add: integer_digits_def Let_def parse_digits_def digit_val_def code_def)
  next
    case nonempty: False
    with False have "integer_digits gs (w + 1) = dropWhile (\<lambda>c. c = CHR ''0'') ?t"
      unfolding integer_digits_def Let_def by (simp only: if_False)
    with d v nonempty show ?thesis by (simp only: parse_digits_trim) simp
  qed
qed

lemma ten_thousand: "(10 :: rat) ^ (4 * k) = 10000 ^ k"
  by (simp add: power_mult)

lemma fraction_part:
  assumes "list_all (\<lambda>g. g < 10000) gs"
  shows "of_nat (parse_digits (fraction_digits gs (w + 1))) / 10 ^ length (fraction_digits gs (w + 1))
    = weigh gs w (nat (w + 1)) (length gs)"
proof (cases "nat (w + 1) \<le> length gs")
  case False
  then show ?thesis by (simp add: fraction_digits_def weigh_def parse_digits_def)
next
  case le: True
  let ?p = "nat (w + 1)"
  let ?t = "concat (map (padded_group gs) [?p..<length gs])"
  define k where "k = nat (int (length gs) - (w + 1))"
  from le have k: "int (length gs) - 1 - w = int k" "length ?t = 4 * (length gs - ?p)"
    using padded_groups [OF assms le] by (auto simp: k_def)
  have v: "of_nat (parse_digits ?t) = weigh gs w ?p (length gs) * 10000 ^ k"
    using padded_value [OF assms le, of w] by (simp add: k(1))
  have f: "fraction_digits gs (w + 1) = replicate (nat (- (w + 1)) * 4) (CHR ''0'') @ ?t"
    by (auto simp: fraction_digits_def)
  have "length (fraction_digits gs (w + 1)) = 4 * k"
    unfolding f using k(2) le by (auto simp: k_def)
  moreover have "parse_digits (fraction_digits gs (w + 1)) = parse_digits ?t"
    unfolding f by (simp add: parse_digits_append)
  ultimately show ?thesis by (simp add: v ten_thousand)
qed

text \<open>The number of a payload: the sign and the groups at their weights.\<close>

definition numeric_number :: "nat list \<Rightarrow> int \<Rightarrow> bool \<Rightarrow> rat" where
  "numeric_number gs w negative =
     (if negative then - 1 else 1) * (\<Sum>i<length gs. of_nat (gs ! i) * 10000 powi (w - int i))"

lemma numeric_number_weigh:
  "numeric_number gs w negative = (if negative then - 1 else 1) * weigh gs w 0 (length gs)"
  by (simp add: numeric_number_def weigh_def group_at_def atLeast0LessThan)

lemma unsigned_text:
  assumes gs: "list_all (\<lambda>g. g < 10000) gs" and d: "dscale \<noteq> 0 \<or> int (length gs) \<le> w + 1"
  shows "decimal_value (numeric_text gs w False dscale) = weigh gs w 0 (length gs)
    \<and> (\<exists>c t. numeric_text gs w False dscale = c # t \<and> is_ascii_digit c)"
proof -
  define i where "i = integer_digits gs (w + 1)"
  define f where "f = fraction_digits gs (w + 1)"
  have ip: "list_all is_ascii_digit i" "i \<noteq> []" "of_nat (parse_digits i) = weigh gs w 0 (nat (w + 1))"
    using integer_part [OF gs] by (simp_all add: i_def)
  have fp: "of_nat (parse_digits f) / 10 ^ length f = weigh gs w (nat (w + 1)) (length gs)"
    using fraction_part [OF gs] by (simp add: f_def)
  have sum: "weigh gs w 0 (nat (w + 1)) + weigh gs w (nat (w + 1)) (length gs) = weigh gs w 0 (length gs)"
  proof (cases "nat (w + 1) \<le> length gs")
    case True
    then show ?thesis using weigh_split [of 0 "nat (w + 1)" "length gs" gs w] by simp
  next
    case False
    then show ?thesis using weigh_beyond [of gs "nat (w + 1)" w] by (simp add: weigh_def)
  qed
  obtain c t where c: "i = c # t" "is_ascii_digit c" using ip(1,2) by (cases i) auto
  note parts = decimal_value_parts [OF ip(1)]
  note splits = split_once_digits [OF ip(1)] takeWhile_digits [OF ip(1)]
  consider (whole) "f = []" | (cut) "f \<noteq> []" "dscale = 0" | (frac) "f \<noteq> []" "dscale \<noteq> 0" by blast
  then show ?thesis
  proof cases
    case whole
    then have "numeric_text gs w False dscale = i"
      by (simp add: numeric_text_def Let_def i_def [symmetric] f_def [symmetric] splits)
    moreover have "weigh gs w (nat (w + 1)) (length gs) = 0" using whole fp by (simp add: parse_digits_def)
    ultimately show ?thesis using ip(3) sum c(2) by (simp add: parts) (simp add: c)
  next
    case cut
    with d have "nat (w + 1) \<ge> length gs" by simp
    then have "weigh gs w (nat (w + 1)) (length gs) = 0" by (simp add: weigh_def)
    moreover from cut have "numeric_text gs w False dscale = i"
      by (simp add: numeric_text_def Let_def i_def [symmetric] f_def [symmetric] splits)
    ultimately show ?thesis using ip(3) sum c(2) by (simp add: parts) (simp add: c)
  next
    case frac
    let ?r = "trim_end_zeros f"
    have t: "numeric_text gs w False dscale = (if ?r = [] then i else i @ CHR ''.'' # ?r)"
      using frac by (simp add: numeric_text_def Let_def i_def [symmetric] f_def [symmetric] splits)
    have "of_nat (parse_digits ?r) / 10 ^ length ?r = weigh gs w (nat (w + 1)) (length gs)"
      using trim_end_value [of f] fp by simp
    then have "decimal_value (numeric_text gs w False dscale) = weigh gs w 0 (length gs)"
      using t ip(3) sum by (cases "?r = []") (simp_all add: parts parse_digits_def)
    with t c show ?thesis by (auto split: if_splits)
  qed
qed

lemma numeric_text_sign: "numeric_text gs w True d = CHR ''-'' # numeric_text gs w False d"
  by (simp add: numeric_text_def Let_def)

lemma numeric_text_number:
  assumes "list_all (\<lambda>g. g < 10000) gs" "dscale \<noteq> 0 \<or> int (length gs) \<le> w + 1"
  shows "signed_value (numeric_text gs w negative dscale) = numeric_number gs w negative"
proof (cases negative)
  case True
  then show ?thesis
    using unsigned_text [OF assms] by (simp add: numeric_text_sign signed_value_def numeric_number_weigh)
next
  case False
  with unsigned_text [OF assms] show ?thesis
    by (auto simp: signed_value_def numeric_number_weigh dest: digit_no_point)
qed

section \<open>The payload\<close>

text \<open>The bytes a server sends for a number that is not \<open>NaN\<close>.\<close>

definition numeric_payload :: "nat list \<Rightarrow> int \<Rightarrow> bool \<Rightarrow> nat \<Rightarrow> bytes" where
  "numeric_payload gs w negative dscale =
     be16 (word_of_nat (length gs)) @ be16 (word_of_int w) @ be16 (if negative then 0x4000 else 0)
       @ be16 (word_of_nat dscale) @ concat (map (\<lambda>g. be16 (word_of_nat g)) gs)"

lemma nth_pairs:
  "i < length gs \<Longrightarrow> take 2 (drop (i * 2) (concat (map (\<lambda>g. be16 (f g)) gs))) = be16 (f (gs ! i))"
proof (induction gs arbitrary: i)
  case (Cons g gs)
  then show ?case by (cases i) (simp_all add: drop_append)
qed simp

lemma length_pairs: "length (concat (map (\<lambda>g. be16 (f g)) gs)) = 2 * length gs"
  by (induction gs) simp_all

lemma pg_numeric_payload:
  assumes "list_all (\<lambda>g. g < 10000) gs" "length gs < 32768" "dscale < 32768" "- 32768 \<le> w" "w < 32768"
  shows "pg_numeric_text (numeric_payload gs w negative dscale) = Inr (numeric_text gs w negative dscale)"
proof -
  let ?raw = "numeric_payload gs w negative dscale"
  let ?tail = "concat (map (\<lambda>g. be16 (word_of_nat g)) gs)"
  have f: "from_be (take 2 ?raw) = (word_of_nat (length gs) :: u16)"
    "from_be (take 2 (drop 2 ?raw)) = (word_of_int w :: u16)"
    "from_be (take 2 (drop 4 ?raw)) = ((if negative then 0x4000 else 0) :: u16)"
    "from_be (take 2 (drop 6 ?raw)) = (word_of_nat dscale :: u16)"
    "length ?raw = 8 + 2 * length gs"
    by (simp_all add: numeric_payload_def length_pairs)
  have s: "sint (word_of_int v :: u16) = v" if "- 32768 \<le> v" "v < 32768" for v :: int
    using that by (simp add: signed_of_int signed_take_bit_int_eq_self)
  have n: "sint (word_of_nat m :: u16) = int m" if "m < 32768" for m
    using s [of "int m"] that by simp
  have u: "unat (scast (word_of_nat (length gs) :: u16) :: u64) = length gs"
  proof -
    have "(scast (word_of_nat (length gs) :: u16) :: u64) = word_of_int (sint (word_of_nat (length gs) :: u16))"
      by (rule scast_eq)
    also have "\<dots> = word_of_nat (length gs)" using n [OF assms(2)] by simp
    finally show ?thesis using assms(2) by (simp add: unat_of_nat take_bit_nat_eq_self)
  qed
  have t: "take 2 (drop (8 + i * 2) ?raw) = be16 (word_of_nat (gs ! i))" if "i < length gs" for i
    using nth_pairs [OF that, of word_of_nat] by (simp add: numeric_payload_def)
  have g: "nat_of_be (take 2 (drop (8 + i * 2) ?raw)) = gs ! i" if "i < length gs" for i
  proof -
    have "gs ! i < 10000" using assms(1) that by (simp add: list_all_length)
    then show ?thesis using t [OF that] by (simp add: nat_of_be16 unat_of_nat take_bit_nat_eq_self)
  qed
  have m: "map (\<lambda>i. nat_of_be (take 2 (drop (8 + i * 2) ?raw))) [0..<length gs] = gs"
    using g by (intro nth_equalityI) simp_all
  show ?thesis
    unfolding pg_numeric_text_def Let_def f u using assms(3-) by (simp add: f(5) m s n)
qed

section \<open>The properties\<close>

text \<open>
  C12.  A PostgreSQL \<open>numeric\<close> reaches the client as the same number: decoding the binary payload
  of a sign and base-10000 groups gives a decimal text whose value is the sum of the groups at
  their weights, with leading and trailing zero groups anywhere.  A column of scale zero carries
  no fraction groups.\<close>

theorem numeric_value_kept:
  assumes "list_all (\<lambda>g. g < 10000) gs" "dscale \<noteq> 0 \<or> int (length gs) \<le> w + 1"
    and "length gs < 32768" "dscale < 32768" "- 32768 \<le> w" "w < 32768"
  shows "map_sum id signed_value (pg_numeric_text (numeric_payload gs w negative dscale))
    = Inr (numeric_number gs w negative)"
  using assms by (simp add: pg_numeric_payload numeric_text_number)

text \<open>The groups of -0.05: one group of 500 just behind the point.\<close>

theorem numeric_value_kept_witness:
  "map_sum id signed_value (pg_numeric_text (numeric_payload [500] (- 1) True 2)) = Inr (- (5 / 100))
    \<and> pg_numeric_text (numeric_payload [500] (- 1) True 2) = Inr ''-0.05''"
proof
  show "map_sum id signed_value (pg_numeric_text (numeric_payload [500] (- 1) True 2)) = Inr (- (5 / 100))"
    using numeric_value_kept [of "[500]" 2 "- 1" True] by (simp add: numeric_number_def power_int_def)
  show "pg_numeric_text (numeric_payload [500] (- 1) True 2) = Inr ''-0.05''"
    by (subst pg_numeric_payload) (simp_all add: numeric_text_def integer_digits_def fraction_digits_def
        padded_group_def trim_end_zeros_def fmt_nat_def pad0_def show_nat.simps digit_chars starts_with_iff)
qed

end
