(* ===== verification/Pg_Backend.thy ===== *)
theory Pg_Backend
  imports Pg_Values Interfaces
begin

text \<open>
  The PostgreSQL backend (\<^verbatim>\<open>src/src/backend.rs\<close>): statements wrapped in a savepoint, the cache of
  prepared statements, streamed cursors, transaction control.  The database connection is the
  client of tokio-postgres, a record of its operations over a connection state \<open>'k\<close>, statements
  \<open>'t\<close> and row streams \<open>'r\<close>.
\<close>

section \<open>The driver\<close>

datatype error_position = OriginalPos u32 | InternalPos

record db_error =
  sqlstate :: string
  db_message :: string
  db_position :: "error_position option"

datatype pg_error = DbError db_error | DriverError string

datatype postgres_bind = PgText "string option" | PgBytes bytes | PgBoolean bool

record column_ref =
  column_desc :: pg_column
  table_oid :: "u32 option"
  column_id :: "u16 option"

type_synonym pg_row = "(pg_column \<times> pg_value option) list"

text \<open>
  \<open>next_row\<close> is the next item of a stream, \<open>domain_of\<close> the catalog query for the domain and
  schema a table's column was declared with, \<open>zone_setting\<close> the query for the zone's name and
  offset (the default where a field does not read).
\<close>

record ('k, 't, 'r) client =
  batch_execute :: "string \<Rightarrow> ('k, pg_error, unit) step"
  prepare :: "string \<Rightarrow> ('k, pg_error, 't) step"
  statement_columns :: "'t \<Rightarrow> column_ref list"
  run_prepared :: "'t \<Rightarrow> postgres_bind list \<Rightarrow> ('k, pg_error, u64) step"
  run_text :: "string \<Rightarrow> postgres_bind list \<Rightarrow> ('k, pg_error, u64) step"
  query_raw :: "'t \<Rightarrow> postgres_bind list \<Rightarrow> ('k, pg_error, 'r) step"
  next_row :: "'r \<Rightarrow> 'k \<Rightarrow> (pg_error + pg_row) option \<times> 'r \<times> 'k"
  domain_of :: "u32 \<Rightarrow> u16 \<Rightarrow> ('k, pg_error, (string \<times> string) option) step"
  zone_setting :: "('k, pg_error, string \<times> int) step"
  cancel_query :: "'k \<Rightarrow> 'k"

text \<open>
  \<open>late\<close> says that a query has not answered when the time limit is over; \<open>double_text\<close> is the
  text the standard library prints for a finite double.
\<close>

record ('k, 't, 'r) pg_env =
  pg_client :: "('k, 't, 'r) client"
  zones :: calendar
  time_limit :: "nat option"
  late :: "'t \<Rightarrow> postgres_bind list \<Rightarrow> 'k \<Rightarrow> bool"
  double_text :: "u64 \<Rightarrow> string"

record ('k, 't) pg_state =
  conn :: 'k
  stmt_cache :: "(string \<times> 't) list"
  tz_now :: session_tz

definition on_conn :: "('k, pg_error, 'a) step \<Rightarrow> (('k, 't) pg_state, pg_error, 'a) step" where
  "on_conn f s = (case f (conn s) of (r, k) \<Rightarrow> (r, s\<lparr>conn := k\<rparr>))"

definition map_err :: "('e \<Rightarrow> 'f) \<Rightarrow> ('s, 'e, 'a) step \<Rightarrow> ('s, 'f, 'a) step" where
  "map_err g f s = (case f s of (r, s') \<Rightarrow> (map_sum g id r, s'))"

definition given :: "'e + 'a \<Rightarrow> ('s, 'e, 'a) step" where
  "given r = (case r of Inl e \<Rightarrow> fail e | Inr a \<Rightarrow> ok a)"

section \<open>Errors of the driver\<close>

definition is_stale_plan :: "pg_error \<Rightarrow> bool" where
  "is_stale_plan e = (case e of
       DbError db \<Rightarrow> contains (db_message db) ''cached plan must not change result type''
         \<or> contains (db_message db) ''cached plan must not change''
     | DriverError _ \<Rightarrow> False)"

definition pg_error_position :: "pg_error \<Rightarrow> u32 option" where
  "pg_error_position e = (case e of
       DbError db \<Rightarrow> (case db_position db of Some (OriginalPos p) \<Rightarrow> Some p | _ \<Rightarrow> None)
     | DriverError _ \<Rightarrow> None)"

definition pg_error_detail :: "pg_error \<Rightarrow> string" where
  "pg_error_detail e = (case e of
       DbError db \<Rightarrow> sqlstate db @ '': '' @ db_message db
     | DriverError t \<Rightarrow> t)"

definition batch :: "('k, 't, 'r) pg_env \<Rightarrow> string \<Rightarrow> (('k, 't) pg_state, error, unit) step" where
  "batch E sql = map_err (\<lambda>e. Postgres (pg_error_detail e)) (on_conn (batch_execute (pg_client E) sql))"

section \<open>Binds\<close>

definition is_finite :: "u64 \<Rightarrow> bool" where
  "is_finite v \<longleftrightarrow> drop_bit 52 v AND 0x7FF \<noteq> 0x7FF"

definition from_oracle :: "(u64 \<Rightarrow> string) \<Rightarrow> bind_value \<Rightarrow> error + postgres_bind" where
  "from_oracle show_double v = (case v of
       BNull \<Rightarrow> Inr (PgText None)
     | BString s \<Rightarrow> Inr (PgText (if s = [] then None else Some s))
     | BNumber s \<Rightarrow> Inr (PgText (Some s))
     | BBytes bs \<Rightarrow> Inr (PgBytes bs)
     | BTemporal s \<Rightarrow> map_ok (\<lambda>t. PgText (Some t)) (temporal_bind_text s)
     | BBoolean b \<Rightarrow> Inr (PgBoolean b)
     | BBinaryDouble d \<Rightarrow>
         if is_finite d then Inr (PgText (Some (show_double d)))
         else Inl (DataConversionError ''non-finite floating bind is unsupported''))"

fun postgres_binds :: "(u64 \<Rightarrow> string) \<Rightarrow> bind_value list \<Rightarrow> error + postgres_bind list" where
  "postgres_binds show_double [] = Inr []"
| "postgres_binds show_double (v # vs) =
     and_then (from_oracle show_double v) (\<lambda>p. map_ok (\<lambda>ps. p # ps) (postgres_binds show_double vs))"

section \<open>The session's time zone\<close>

definition read_session_tz :: "('k, 't, 'r) pg_env \<Rightarrow> 'k \<Rightarrow> session_tz \<times> 'k" where
  "read_session_tz E k = (case zone_setting (pg_client E) k of
       (Inr (name, secs), k') \<Rightarrow> (parse_session_tz (zones E) name secs, k')
     | (Inl _, k') \<Rightarrow> (Utc, k'))"

definition refresh_session_tz :: "('k, 't, 'r) pg_env \<Rightarrow> (('k, 't) pg_state, error, unit) step" where
  "refresh_session_tz E s = (case read_session_tz E (conn s) of (tz, k) \<Rightarrow> (Inr (), s\<lparr>conn := k, tz_now := tz\<rparr>))"

section \<open>Prepared statements\<close>

definition STMT_CACHE_CAP :: nat where
  "STMT_CACHE_CAP = 256"

definition cache_remove :: "string \<Rightarrow> (string \<times> 't) list \<Rightarrow> (string \<times> 't) list" where
  "cache_remove sql c = filter (\<lambda>e. fst e \<noteq> sql) c"

definition cache_insert :: "string \<Rightarrow> 't \<Rightarrow> (string \<times> 't) list \<Rightarrow> (string \<times> 't) list" where
  "cache_insert sql t c = (sql, t) # cache_remove sql c"

definition prepare_cached :: "('k, 't, 'r) pg_env \<Rightarrow> string \<Rightarrow> (('k, 't) pg_state, pg_error, 't) step" where
  "prepare_cached E sql s = (case map_of (stmt_cache s) sql of
       Some t \<Rightarrow> (Inr t, s)
     | None \<Rightarrow> (case on_conn (prepare (pg_client E) sql) s of
           (Inl e, s') \<Rightarrow> (Inl e, s')
         | (Inr t, s') \<Rightarrow>
             (Inr t, s'\<lparr>stmt_cache := cache_insert sql t
               (if STMT_CACHE_CAP \<le> length (stmt_cache s') then [] else stmt_cache s')\<rparr>)))"

definition forget_cached :: "string \<Rightarrow> ('k, 't) pg_state \<Rightarrow> ('k, 't) pg_state" where
  "forget_cached sql s = s\<lparr>stmt_cache := cache_remove sql (stmt_cache s)\<rparr>"

section \<open>One statement, one savepoint\<close>

definition limit_text :: "nat \<Rightarrow> string" where
  "limit_text ms = ''SET LOCAL statement_timeout = '' @ [CHR 0x27] @ show_nat (max ms 1) @ ''ms'' @ [CHR 0x27]"

definition begin_statement_ex :: "('k, 't, 'r) pg_env \<Rightarrow> bool \<Rightarrow> (('k, 't) pg_state, error, unit) step" where
  "begin_statement_ex E apply_timeout =
     let_ok (batch E ''SAVEPOINT dbsaci_statement'') (\<lambda>_.
       (case (if apply_timeout then time_limit E else None) of
           None \<Rightarrow> ok ()
         | Some ms \<Rightarrow> batch E (limit_text ms)))"

definition finish_statement :: "('k, 't, 'r) pg_env \<Rightarrow> (('k, 't) pg_state, error, unit) step" where
  "finish_statement E = batch E ''RELEASE SAVEPOINT dbsaci_statement''"

definition recover_text :: string where
  "recover_text = ''ROLLBACK TO SAVEPOINT dbsaci_statement; RELEASE SAVEPOINT dbsaci_statement''"

definition recover_statement_error ::
    "('k, 't, 'r) pg_env \<Rightarrow> pg_error \<Rightarrow> ('k, 't) pg_state \<Rightarrow> error \<times> ('k, 't) pg_state" where
  "recover_statement_error E e s = (case on_conn (batch_execute (pg_client E) recover_text) s of
       (Inr _, s') \<Rightarrow> (PgStatement (pg_error_detail e) (pg_error_position e), s')
     | (Inl r, s') \<Rightarrow>
         (PgStatement (pg_error_detail e @ ''; failed to recover transaction: '' @ pg_error_detail r)
            (pg_error_position e), s'))"

definition statement_failed :: "('k, 't, 'r) pg_env \<Rightarrow> string \<Rightarrow> pg_error \<Rightarrow> (('k, 't) pg_state, error, 'a) step" where
  "statement_failed E sql e s = (case recover_statement_error E e (forget_cached sql s) of (err, s') \<Rightarrow> (Inl err, s'))"

section \<open>Cursors\<close>

record 'r row_cursor =
  rc_stream :: 'r
  rc_columns :: "column_meta list"
  rc_exhausted :: bool
  savepoint_held :: bool
  rc_oci :: bool

text \<open>A column declared with one of the \<open>dbsaci.binary_*\<close> domains is described as that type.\<close>

definition refine_meta :: "describe_caps \<Rightarrow> string \<times> string \<Rightarrow> column_meta \<Rightarrow> column_meta" where
  "refine_meta caps d m = (case d of (typname, nsp) \<Rightarrow>
     if nsp \<noteq> ''dbsaci'' \<or> \<not> native_binary_floats caps \<or> col_type m \<noteq> 2 then m
     else if typname = ''binary_double''
     then m\<lparr>col_type := 101, precision := 0, scale := 0, buffer_size := 8, max_size := 8\<rparr>
     else if typname = ''binary_float''
     then m\<lparr>col_type := 100, precision := 0, scale := 0, buffer_size := 4, max_size := 4\<rparr>
     else m)"

definition refine_column ::
    "('k, 't, 'r) pg_env \<Rightarrow> describe_caps \<Rightarrow> column_ref \<Rightarrow> column_meta \<Rightarrow> ('k, 't) pg_state \<Rightarrow> column_meta \<times> ('k, 't) pg_state" where
  "refine_column E caps c m s =
     (if pg_type (column_desc c) \<notin> {FLOAT4, FLOAT8} then (m, s)
      else (case (table_oid c, column_id c) of
          (Some relid, Some attnum) \<Rightarrow>
            (case on_conn (domain_of (pg_client E) relid attnum) s of
                (Inr (Some d), s') \<Rightarrow> (refine_meta caps d m, s')
              | (_, s') \<Rightarrow> (m, s'))
        | _ \<Rightarrow> (m, s)))"

fun refine_oracle_domain_columns ::
    "('k, 't, 'r) pg_env \<Rightarrow> describe_caps \<Rightarrow> (column_ref \<times> column_meta) list \<Rightarrow> ('k, 't) pg_state
      \<Rightarrow> column_meta list \<times> ('k, 't) pg_state" where
  "refine_oracle_domain_columns E caps [] s = ([], s)"
| "refine_oracle_domain_columns E caps ((c, m) # cs) s =
     (case refine_column E caps c m s of (m', s') \<Rightarrow>
       (case refine_oracle_domain_columns E caps cs s' of (ms, s'') \<Rightarrow> (m' # ms, s'')))"

definition describe :: "('k, 't, 'r) pg_env \<Rightarrow> describe_caps \<Rightarrow> 't \<Rightarrow> ('k, 't) pg_state \<Rightarrow> column_meta list \<times> ('k, 't) pg_state" where
  "describe E caps t =
     (let cs = statement_columns (pg_client E) t in
      refine_oracle_domain_columns E caps
        (zip cs (map (\<lambda>(i, c). pg_column_to_oracle_meta (column_desc c) (i + 1) caps) (enumerate 0 cs))))"

text \<open>A query that overruns the limit is cancelled and still awaited.\<close>

definition ask :: "('k, 't, 'r) pg_env \<Rightarrow> 't \<Rightarrow> postgres_bind list \<Rightarrow> (('k, 't) pg_state, pg_error, 'r) step" where
  "ask E t ps s =
     (if time_limit E \<noteq> None \<and> late E t ps (conn s)
      then on_conn (query_raw (pg_client E) t ps) (s\<lparr>conn := cancel_query (pg_client E) (conn s)\<rparr>)
      else on_conn (query_raw (pg_client E) t ps) s)"

text \<open>One turn of the loop; \<open>failed\<close> goes on after a query that failed.\<close>

definition try_open ::
    "('k, 't, 'r) pg_env \<Rightarrow> string \<Rightarrow> postgres_bind list \<Rightarrow> describe_caps
      \<Rightarrow> (pg_error \<Rightarrow> (('k, 't) pg_state, error, 'r row_cursor) step) \<Rightarrow> (('k, 't) pg_state, error, 'r row_cursor) step" where
  "try_open E sql ps caps failed s = (case prepare_cached E sql s of
       (Inl e, s1) \<Rightarrow> statement_failed E sql e s1
     | (Inr t, s1) \<Rightarrow> (case describe E caps t s1 of (cols, s2) \<Rightarrow>
         (case ask E t ps s2 of
             (Inr r, s3) \<Rightarrow> (Inr \<lparr>rc_stream = r, rc_columns = cols, rc_exhausted = False,
               savepoint_held = True, rc_oci = caps_oci caps\<rparr>, s3)
           | (Inl e, s3) \<Rightarrow> failed e s3)))"

definition retry_open ::
    "('k, 't, 'r) pg_env \<Rightarrow> string \<Rightarrow> postgres_bind list \<Rightarrow> describe_caps \<Rightarrow> pg_error \<Rightarrow> (('k, 't) pg_state, error, 'r row_cursor) step" where
  "retry_open E sql ps caps e s =
     (if is_stale_plan e then try_open E sql ps caps (statement_failed E sql) (forget_cached sql s)
      else statement_failed E sql e s)"

definition open_cursor_with_binds ::
    "('k, 't, 'r) pg_env \<Rightarrow> string \<Rightarrow> bind_value list \<Rightarrow> describe_caps \<Rightarrow> (('k, 't) pg_state, error, 'r row_cursor) step" where
  "open_cursor_with_binds E sql binds caps =
     let_ok (begin_statement_ex E False) (\<lambda>_.
     let_ok (given (postgres_binds (double_text E) binds)) (\<lambda>ps.
       try_open E sql ps caps (retry_open E sql ps caps)))"

definition finish_rows :: "('k, 't, 'r) pg_env \<Rightarrow> 'r row_cursor \<times> ('k, 't) pg_state \<Rightarrow> 'r row_cursor \<times> ('k, 't) pg_state" where
  "finish_rows E cs = (case cs of (c, s) \<Rightarrow>
     if savepoint_held c
     then (c\<lparr>rc_exhausted := True, savepoint_held := False\<rparr>, snd (finish_statement E s))
     else (c\<lparr>rc_exhausted := True\<rparr>, s))"

definition row_cell :: "calendar \<Rightarrow> session_tz \<Rightarrow> bool \<Rightarrow> pg_row \<Rightarrow> nat \<Rightarrow> column_meta \<Rightarrow> bytes option" where
  "row_cell cal tz oci row i m = (case get_at row i of
       None \<Rightarrow> None
     | Some (c, v) \<Rightarrow> pg_value_to_oracle_bytes cal tz oci (col_type m) c v)"

definition encode_row :: "calendar \<Rightarrow> session_tz \<Rightarrow> 'r row_cursor \<Rightarrow> pg_row \<Rightarrow> cells" where
  "encode_row cal tz c row = map (\<lambda>(i, m). row_cell cal tz (rc_oci c) row i m) (enumerate 0 (rc_columns c))"

fun next_rows :: "('k, 't, 'r) pg_env \<Rightarrow> nat \<Rightarrow> ('r row_cursor \<times> ('k, 't) pg_state, error, cells list) step" where
  "next_rows E 0 (c, s) = (Inr [], (c, s))"
| "next_rows E (Suc n) (c, s) = (case next_row (pg_client E) (rc_stream c) (conn s) of (item, r, k) \<Rightarrow>
     let c' = c\<lparr>rc_stream := r\<rparr>; s' = s\<lparr>conn := k\<rparr> in
     (case item of
         Some (Inr row) \<Rightarrow>
           let_ok (next_rows E n) (\<lambda>rs. ok (encode_row (zones E) (tz_now s') c' row # rs)) (c', s')
       | Some (Inl e) \<Rightarrow> (case recover_statement_error E e s' of (err, s'') \<Rightarrow>
             (Inl err, (c'\<lparr>rc_exhausted := True, savepoint_held := False\<rparr>, s'')))
       | None \<Rightarrow> (Inr [], finish_rows E (c', s'))))"

section \<open>Reading a cursor to its end\<close>

text \<open>The loop over batches of 4096 rows, which may have no end.\<close>

partial_function (option) drain ::
    "('k, 't, 'r) pg_env \<Rightarrow> cells list \<Rightarrow> 'r row_cursor \<times> ('k, 't) pg_state
      \<Rightarrow> ((error + cells list) \<times> 'r row_cursor \<times> ('k, 't) pg_state) option" where
  "drain E rows cs = (case next_rows E 4096 cs of
       (Inl e, cs') \<Rightarrow> Some (Inl e, cs')
     | (Inr b, cs') \<Rightarrow>
         (if length b < 4096 \<or> rc_exhausted (fst cs') then Some (Inr (rows @ b), cs')
          else drain E (rows @ b) cs'))"

definition execute :: "('k, 't, 'r) pg_env \<Rightarrow> string \<Rightarrow> ('k, 't) pg_state
      \<Rightarrow> ((error + column_meta list \<times> cells list) \<times> ('k, 't) pg_state) option" where
  "execute E sql s = (case open_cursor_with_binds E sql [] LENIENT s of
       (Inl e, s') \<Rightarrow> Some (Inl e, s')
     | (Inr c, s') \<Rightarrow> map_option (\<lambda>(r, _, s''). (map_ok (\<lambda>rows. (rc_columns c, rows)) r, s'')) (drain E [] (c, s')))"

definition push_row :: "cells \<Rightarrow> cells list \<Rightarrow> cells list" where
  "push_row row cols = map2 (\<lambda>col v. col @ [v]) cols row"

definition execute_returning_rows :: "('k, 't, 'r) pg_env \<Rightarrow> string \<Rightarrow> bind_value list \<Rightarrow> ('k, 't) pg_state
      \<Rightarrow> ((error + u64 \<times> cells list) \<times> ('k, 't) pg_state) option" where
  "execute_returning_rows E sql binds s = (case open_cursor_with_binds E sql binds LENIENT s of
       (Inl e, s') \<Rightarrow> Some (Inl e, s')
     | (Inr c, s') \<Rightarrow> map_option (\<lambda>(r, cs). (case r of
           Inl e \<Rightarrow> (Inl e, snd cs)
         | Inr rows \<Rightarrow> (Inr (word_of_nat (length rows), fold push_row rows (replicate (length (rc_columns c)) [])),
             snd (finish_rows E cs)))) (drain E [] (c, s')))"

section \<open>Statements without rows\<close>

definition trim_semicolons :: "string \<Rightarrow> string" where
  "trim_semicolons s = rev (dropWhile (\<lambda>c. c = CHR '';'') (rev s))"

definition command_of :: "string \<Rightarrow> string" where
  "command_of sql = trim_semicolons (trim sql)"

text \<open>Commands that must run outside the savepoint of a statement.\<close>

definition own_savepoint :: "string \<Rightarrow> bool" where
  "own_savepoint upper \<longleftrightarrow> list_ex (starts_with upper)
     [''SAVEPOINT '', ''RELEASE SAVEPOINT '', ''RELEASE '', ''ROLLBACK TO '', ''SET TRANSACTION '', ''SET CONSTRAINTS '']"

definition run_wrapped :: "('k, 't, 'r) pg_env \<Rightarrow> string \<Rightarrow> bind_value list \<Rightarrow> (('k, 't) pg_state, error, u64) step" where
  "run_wrapped E sql binds =
     let_ok (begin_statement_ex E True) (\<lambda>_.
     let_ok (given (postgres_binds (double_text E) binds)) (\<lambda>ps s.
       (case prepare_cached E sql s of
           (Inl e, s1) \<Rightarrow> statement_failed E sql e s1
         | (Inr t, s1) \<Rightarrow> (case on_conn (run_prepared (pg_client E) t ps) s1 of
               (Inr rows, s2) \<Rightarrow> let_ok (finish_statement E) (\<lambda>_. ok rows) s2
             | (Inl e, s2) \<Rightarrow> statement_failed E sql e s2))))"

definition execute_simple_with_binds :: "('k, 't, 'r) pg_env \<Rightarrow> string \<Rightarrow> bind_value list \<Rightarrow> (('k, 't) pg_state, error, u64) step" where
  "execute_simple_with_binds E sql binds =
     (let command = command_of sql; upper = to_ascii_uppercase command in
      if eq_ignore_ascii_case command ''COMMIT'' then let_ok (batch E ''COMMIT; BEGIN'') (\<lambda>_. ok 0)
      else if eq_ignore_ascii_case command ''ROLLBACK'' then let_ok (batch E ''ROLLBACK; BEGIN'') (\<lambda>_. ok 0)
      else if eq_ignore_ascii_case command ''BEGIN'' \<or> eq_ignore_ascii_case command ''START TRANSACTION'' then ok 0
      else if starts_with upper ''SET TIME ZONE'' \<or> starts_with upper ''SET TIMEZONE''
      then let_ok (batch E command) (\<lambda>_. let_ok (refresh_session_tz E) (\<lambda>_. ok 0))
      else if own_savepoint upper then let_ok (batch E command) (\<lambda>_. ok 0)
      else run_wrapped E sql binds)"

text \<open>What follows a DDL statement: both commits, or the rollback.\<close>

definition after_ddl :: "('k, 't, 'r) pg_env \<Rightarrow> (('k, 't) pg_state, pg_error, u64) step \<Rightarrow> (('k, 't) pg_state, error, u64) step" where
  "after_ddl E run s = (case run s of
       (Inr rows, s') \<Rightarrow> let_ok (batch E ''COMMIT; BEGIN'') (\<lambda>_. ok rows) s'
     | (Inl e, s') \<Rightarrow> (Inl (Postgres (pg_error_detail e)), snd (batch E ''ROLLBACK; BEGIN'' s')))"

definition execute_ddl_with_binds :: "('k, 't, 'r) pg_env \<Rightarrow> string \<Rightarrow> bind_value list \<Rightarrow> (('k, 't) pg_state, error, u64) step" where
  "execute_ddl_with_binds E sql binds =
     let_ok (batch E ''COMMIT; BEGIN'') (\<lambda>_.
       if binds = [] then after_ddl E (let_ok (on_conn (batch_execute (pg_client E) sql)) (\<lambda>_. ok 0))
       else let_ok (given (postgres_binds (double_text E) binds)) (\<lambda>ps.
         after_ddl E (on_conn (run_text (pg_client E) sql ps))))"

definition quote_identifier :: "string \<Rightarrow> string" where
  "quote_identifier s = CHR 0x22 # concat (map (\<lambda>c. if c = CHR 0x22 then [c, c] else [c]) s) @ [CHR 0x22]"

end
