(* ===== verification/Pg_Statements.thy ===== *)
theory Pg_Statements
  imports Pg_Backend
begin

text \<open>
  What the PostgreSQL backend keeps: the prepared statements it caches, the savepoint of each
  statement, the rows of a cursor read to its end.
\<close>

section \<open>Operations that keep a predicate of the state\<close>

definition keeps :: "('s \<Rightarrow> bool) \<Rightarrow> ('s, 'e, 'a) step \<Rightarrow> bool" where
  "keeps P f \<longleftrightarrow> (\<forall>s. P s \<longrightarrow> P (snd (f s)))"

named_theorems keep_rules \<open>introduction rules for kept predicates\<close>

lemma keepsI: "(\<And>s. P s \<Longrightarrow> P (snd (f s))) \<Longrightarrow> keeps P f"
  by (simp add: keeps_def)

lemma keepsD: "keeps P f \<Longrightarrow> P s \<Longrightarrow> f s = (r, s') \<Longrightarrow> P s'"
  by (metis keeps_def snd_conv)

lemma kept_ok [keep_rules]: "keeps P (ok a)" "keeps P (fail e)" "keeps P (given r)"
  by (auto simp: keeps_def given_def split: sum.splits)

lemma kept_let_ok [keep_rules]: "keeps P f \<Longrightarrow> (\<And>a. keeps P (g a)) \<Longrightarrow> keeps P (let_ok f g)"
  by (fastforce simp: keeps_def on_ok_def split: prod.splits sum.splits)

lemma keeps_map_err [keep_rules]: "keeps P f \<Longrightarrow> keeps P (map_err g f)"
  by (simp add: keeps_def map_err_def split_beta)

text \<open>Of the state, an operation of the driver changes the connection alone.\<close>

lemma on_conn_parts [simp]:
  "stmt_cache (snd (on_conn f s)) = stmt_cache s" "tz_now (snd (on_conn f s)) = tz_now s"
  "conn (snd (on_conn f s)) = snd (f (conn s))" "fst (on_conn f s) = fst (f (conn s))"
  by (simp_all add: on_conn_def split_beta)

lemma batch_parts [simp]:
  "stmt_cache (snd (batch E sql s)) = stmt_cache s" "tz_now (snd (batch E sql s)) = tz_now s"
  "conn (snd (batch E sql s)) = snd (batch_execute (pg_client E) sql (conn s))"
  by (simp_all add: batch_def map_err_def split_beta)

text \<open>Recovery leaves what its command leaves, and failure comes with an error.\<close>

lemma recover_state:
  "snd (recover_statement_error E e s) = snd (on_conn (batch_execute (pg_client E) recover_text) s)"
  by (simp add: recover_statement_error_def split: prod.split sum.split)

lemma failed_parts [simp]:
  "fst (statement_failed E sql e s) = Inl (fst (recover_statement_error E e (forget_cached sql s)))"
  "snd (statement_failed E sql e s) = snd (on_conn (batch_execute (pg_client E) recover_text) (forget_cached sql s))"
  by (simp_all add: statement_failed_def split_beta recover_state)

lemma batch_succeeds:
  "fst (batch_execute (pg_client E) sql (conn s)) = Inr ()
    \<Longrightarrow> batch E sql s = (Inr (), s\<lparr>conn := snd (batch_execute (pg_client E) sql (conn s))\<rparr>)"
  by (simp add: batch_def map_err_def on_conn_def split_beta)

section \<open>The cache of prepared statements\<close>

interpretation stmt_table: removable_table id cache_insert map_of cache_remove
proof
  fix k :: string and v :: 't and c :: "(string \<times> 't) list" and j
  have del: "map_of (cache_remove k c) j = (if j = k then None else map_of c j)"
    by (induction c) (auto simp: cache_remove_def)
  then show "map_of (cache_remove k c) j = (if id j = id k then None else map_of c j)" by simp
  from del show "map_of (cache_insert k v c) j = (if id j = id k then Some v else map_of c j)"
    by (simp add: cache_insert_def)
qed

text \<open>At most 256 statements, one per text, each the one the database prepared for its text.\<close>

definition cache_ok :: "('k, 't, 'r) pg_env \<Rightarrow> ('k, 't) pg_state \<Rightarrow> bool" where
  "cache_ok E s \<longleftrightarrow> length (stmt_cache s) \<le> STMT_CACHE_CAP \<and> distinct (map fst (stmt_cache s))
     \<and> (\<forall>(sql, t) \<in> set (stmt_cache s). \<exists>k k'. prepare (pg_client E) sql k = (Inr t, k'))"

lemma cache_ok_conn [simp]: "cache_ok E (s\<lparr>conn := k\<rparr>) = cache_ok E s" "cache_ok E (s\<lparr>tz_now := tz\<rparr>) = cache_ok E s"
  by (simp_all add: cache_ok_def)

lemma cache_ok_on_conn [keep_rules]: "keeps (cache_ok E) (on_conn f)"
  by (simp add: keeps_def cache_ok_def)

lemma cache_ok_batch [keep_rules]: "keeps (cache_ok E) (batch E sql)"
  by (simp add: keeps_def cache_ok_def)

lemma cache_remove_le: "length (cache_remove sql c) \<le> length c"
  by (simp add: cache_remove_def)

lemma cache_ok_forget: "cache_ok E s \<Longrightarrow> cache_ok E (forget_cached sql s)"
  using cache_remove_le [of sql "stmt_cache s"]
  by (auto simp: cache_ok_def forget_cached_def cache_remove_def distinct_map
      intro: inj_on_subset order_trans [OF length_filter_le])

lemma cache_ok_prepare [keep_rules]: "keeps (cache_ok E) (prepare_cached E sql)"
proof (rule keepsI)
  fix s
  assume ok: "cache_ok E s"
  show "cache_ok E (snd (prepare_cached E sql s))"
  proof (cases "map_of (stmt_cache s) sql")
    case (Some t)
    with ok show ?thesis by (simp add: prepare_cached_def)
  next
    case None
    obtain r k where p: "prepare (pg_client E) sql (conn s) = (r, k)" by force
    show ?thesis
    proof (cases r)
      case (Inl e)
      with None p ok show ?thesis by (simp add: prepare_cached_def on_conn_def)
    next
      case (Inr t)
      define c where "c = (if STMT_CACHE_CAP \<le> length (stmt_cache s) then [] else stmt_cache s)"
      have c: "length c < STMT_CACHE_CAP" "distinct (map fst c)"
        "\<forall>(sql, t) \<in> set c. \<exists>k k'. prepare (pg_client E) sql k = (Inr t, k')"
        using ok by (auto simp: c_def cache_ok_def STMT_CACHE_CAP_def)
      then have "length (cache_insert sql t c) \<le> STMT_CACHE_CAP" "distinct (map fst (cache_insert sql t c))"
        "\<forall>(sql', t') \<in> set (cache_insert sql t c). \<exists>k k'. prepare (pg_client E) sql' k = (Inr t', k')"
        using le_less_trans [OF cache_remove_le [of sql c]] p Inr
        by (auto simp: cache_insert_def cache_remove_def distinct_map Suc_le_eq intro: inj_on_subset)
      with None p Inr show ?thesis
        by (auto simp add: prepare_cached_def on_conn_def c_def cache_ok_def split: if_splits)
    qed
  qed
qed

lemma keeps_snd: "keeps P f \<Longrightarrow> P s \<Longrightarrow> P (snd (f s))"
  by (simp add: keeps_def)

text \<open>Everything an operation is made of, for any predicate that its parts keep.\<close>

lemma keeps_failed:
  assumes "\<And>s. P s \<Longrightarrow> P (forget_cached sql s)" "keeps P (on_conn (batch_execute (pg_client E) recover_text))"
  shows "keeps P (statement_failed E sql e)"
  using keeps_snd [OF assms(2)] assms(1)
  by (simp add: keeps_def statement_failed_def split_beta recover_state)

lemma keeps_begin [keep_rules]:
  assumes "keeps P (batch E ''SAVEPOINT dbsaci_statement'')" "\<And>ms. keeps P (batch E (limit_text ms))"
  shows "keeps P (begin_statement_ex E a)"
  unfolding begin_statement_ex_def using assms by (auto intro!: keep_rules split: option.split)

lemma keeps_refine:
  assumes "\<And>r a. keeps P (on_conn (domain_of (pg_client E) r a))" "P s"
  shows "P (snd (refine_oracle_domain_columns E caps cs s))"
  using assms(2)
proof (induction cs arbitrary: s)
  case (Cons x cs)
  obtain c m where x: "x = (c, m)" by force
  have "P (snd (refine_column E caps c m s))"
    using Cons.prems keeps_snd [OF assms(1)]
    by (auto simp: refine_column_def split: prod.splits option.splits sum.splits) (metis snd_conv)+
  from Cons.IH [OF this] show ?case by (simp add: x split_beta)
qed simp

lemma keeps_describe:
  assumes "\<And>r a. keeps P (on_conn (domain_of (pg_client E) r a))" "P s"
  shows "P (snd (describe E caps t s))"
  unfolding describe_def Let_def by (rule keeps_refine [OF assms])

lemma keeps_ask:
  assumes "\<And>ps. keeps P (on_conn (query_raw (pg_client E) t ps))"
    and "\<And>s. P s \<Longrightarrow> P (s\<lparr>conn := cancel_query (pg_client E) (conn s)\<rparr>)" "P s"
  shows "P (snd (ask E t ps s))"
  unfolding ask_def using assms(2,3) keeps_snd [OF assms(1)] by simp

text \<open>
  Opening a cursor: \<open>P\<close> holds from the savepoint on, \<open>Q\<close> of every outcome.
\<close>

lemma try_open_rule:
  assumes "P s" "keeps P (prepare_cached E sql)"
    and "\<And>r a. keeps P (on_conn (domain_of (pg_client E) r a))"
    and "\<And>t ps. T t \<Longrightarrow> keeps P (on_conn (query_raw (pg_client E) t ps))"
    and "\<And>s. P s \<Longrightarrow> P (s\<lparr>conn := cancel_query (pg_client E) (conn s)\<rparr>)"
    and "\<And>s t s'. P s \<Longrightarrow> prepare_cached E sql s = (Inr t, s') \<Longrightarrow> T t"
    and "\<And>e s. P s \<Longrightarrow> Q (statement_failed E sql e s)" "\<And>e s. P s \<Longrightarrow> Q (failed e s)"
    and "\<And>c s. P s \<Longrightarrow> savepoint_held c \<Longrightarrow> \<not> rc_exhausted c \<Longrightarrow> Q (Inr c, s)"
  shows "Q (try_open E sql ps caps failed s)"
proof -
  obtain r s1 where p: "prepare_cached E sql s = (r, s1)" by force
  then have s1: "P s1" using keeps_snd [OF assms(2,1)] by simp
  show ?thesis
  proof (cases r)
    case (Inl e)
    with p s1 assms(7) show ?thesis by (simp add: try_open_def)
  next
    case (Inr t)
    obtain cols s2 where d: "describe E caps t s1 = (cols, s2)" by force
    then have s2: "P s2" using keeps_describe [of P E, OF assms(3) s1] by (metis snd_conv)
    obtain x s3 where a: "ask E t ps s2 = (x, s3)" by force
    moreover have "T t" using assms(6) [OF assms(1)] p Inr by blast
    ultimately have "P s3" using keeps_ask [of P E t, OF assms(4,5) s2] by (metis snd_conv)
    with p Inr d a assms(8,9) show ?thesis by (cases x) (simp_all add: try_open_def)
  qed
qed

lemma retry_open_rule:
  assumes "P s" "keeps P (prepare_cached E sql)"
    and "\<And>r a. keeps P (on_conn (domain_of (pg_client E) r a))"
    and "\<And>t ps. T t \<Longrightarrow> keeps P (on_conn (query_raw (pg_client E) t ps))"
    and "\<And>s. P s \<Longrightarrow> P (s\<lparr>conn := cancel_query (pg_client E) (conn s)\<rparr>)"
    and "\<And>s t s'. P s \<Longrightarrow> prepare_cached E sql s = (Inr t, s') \<Longrightarrow> T t"
    and "\<And>s. P s \<Longrightarrow> P (forget_cached sql s)"
    and "\<And>e s. P s \<Longrightarrow> Q (statement_failed E sql e s)"
    and "\<And>c s. P s \<Longrightarrow> savepoint_held c \<Longrightarrow> \<not> rc_exhausted c \<Longrightarrow> Q (Inr c, s)"
  shows "Q (try_open E sql ps caps (retry_open E sql ps caps) s)"
proof (rule try_open_rule [of P _ _ _ T, OF assms(1-6)])
  fix e s
  assume s: "P s"
  have "Q (try_open E sql ps caps (statement_failed E sql) (forget_cached sql s))"
    by (rule try_open_rule [of P _ _ _ T, OF assms(7) [OF s] assms(2-6,8,8,9)])
  with s show "Q (retry_open E sql ps caps e s)"
    using assms(8) by (simp add: retry_open_def)
qed (use assms(8,9) in auto)

lemmas cache_ok_failed = keeps_failed [where P = "cache_ok E" and E = E for E, OF cache_ok_forget cache_ok_on_conn]
declare cache_ok_failed [keep_rules]

lemma cache_ok_open [keep_rules]: "keeps (cache_ok E) (open_cursor_with_binds E sql binds caps)"
  unfolding open_cursor_with_binds_def
proof (intro keep_rules keepsI)
  fix ps s
  assume s: "cache_ok E s"
  show "cache_ok E (snd (try_open E sql ps caps (retry_open E sql ps caps) s))"
    by (rule retry_open_rule [where P = "cache_ok E" and T = "\<lambda>_. True" and Q = "\<lambda>x. cache_ok E (snd x)"])
      (use s in \<open>auto intro!: cache_ok_on_conn cache_ok_prepare intro: keeps_snd [OF cache_ok_on_conn] cache_ok_forget\<close>)
qed

lemma keeps_case:
  assumes "keeps P f" "\<And>e. keeps P (g e)" "\<And>a. keeps P (h a)"
  shows "keeps P (\<lambda>s. case f s of (Inl e, s') \<Rightarrow> g e s' | (Inr a, s') \<Rightarrow> h a s')"
  using assms by (fastforce simp: keeps_def split: prod.splits sum.splits)

lemma cache_ok_wrapped [keep_rules]: "keeps (cache_ok E) (run_wrapped E sql binds)"
  unfolding run_wrapped_def finish_statement_def by (intro keep_rules keeps_case)

lemma cache_ok_refresh [keep_rules]: "keeps (cache_ok E) (refresh_session_tz E)"
proof (rule keepsI)
  fix s
  assume "cache_ok E s"
  moreover have "stmt_cache (snd (refresh_session_tz E s)) = stmt_cache s"
    by (simp add: refresh_session_tz_def split_beta)
  ultimately show "cache_ok E (snd (refresh_session_tz E s))" by (simp add: cache_ok_def)
qed

lemma cache_ok_simple [keep_rules]: "keeps (cache_ok E) (execute_simple_with_binds E sql binds)"
  unfolding execute_simple_with_binds_def Let_def by (auto intro!: keep_rules)

lemma cache_ok_after_ddl [keep_rules]: "keeps (cache_ok E) f \<Longrightarrow> keeps (cache_ok E) (after_ddl E f)"
proof (rule keepsI)
  fix s
  assume f: "keeps (cache_ok E) f" and s: "cache_ok E s"
  obtain r s1 where r: "f s = (r, s1)" by force
  then have "cache_ok E s1" using keeps_snd [OF f s] by simp
  then show "cache_ok E (snd (after_ddl E f s))"
    using keeps_snd [OF kept_let_ok [OF cache_ok_batch kept_ok(1)]] keeps_snd [OF cache_ok_batch] r
    by (cases r) (simp_all add: after_ddl_def del: let_ok_apply)
qed

lemma cache_ok_ddl [keep_rules]: "keeps (cache_ok E) (execute_ddl_with_binds E sql binds)"
  unfolding execute_ddl_with_binds_def by (cases "binds = []") (auto intro!: keep_rules)

lemma cache_ok_finish: "cache_ok E s \<Longrightarrow> cache_ok E (snd (finish_rows E (c, s)))"
  using keeps_snd [OF cache_ok_batch] by (auto simp: finish_rows_def finish_statement_def)

lemma cache_ok_recover: "cache_ok E s \<Longrightarrow> cache_ok E (snd (recover_statement_error E e s))"
  by (simp add: recover_state cache_ok_def)

lemma cache_ok_rows: "cache_ok E s \<Longrightarrow> cache_ok E (snd (snd (next_rows E n (c, s))))"
proof (induction n arbitrary: c s)
  case (Suc n)
  obtain item r k where i: "next_row (pg_client E) (rc_stream c) (conn s) = (item, r, k)" by (metis prod_cases3)
  from Suc.prems have k: "cache_ok E (s\<lparr>conn := k\<rparr>)" by simp
  show ?case
    using i Suc.IH [OF k] cache_ok_finish [OF k] cache_ok_recover [OF k]
    by (auto simp: Let_def on_ok_def split: option.splits sum.splits prod.splits) (metis snd_conv)+
qed simp

lemma cache_ok_drain:
  assumes "drain E rows cs = Some (r, cs')" "cache_ok E (snd cs)"
  shows "cache_ok E (snd cs')"
proof -
  let ?P = "\<lambda>E rows cs y. cache_ok E (snd cs) \<longrightarrow> cache_ok E (snd (snd y))"
  have "?P E rows cs (r, cs')"
  proof (rule drain.raw_induct [where P = ?P, OF _ assms(1)], intro impI)
    fix d E rows cs y
    assume IH: "\<And>E rows cs y. d E rows cs = Some y \<Longrightarrow> ?P E rows cs y"
      and body: "(case next_rows E 4096 cs of (Inl e, cs') \<Rightarrow> Some (Inl e, cs')
        | (Inr b, cs') \<Rightarrow> if length b < 4096 \<or> rc_exhausted (fst cs') then Some (Inr (rows @ b), cs')
            else d E (rows @ b) cs') = Some y"
      and s: "cache_ok E (snd cs)"
    obtain x cs1 where x: "next_rows E 4096 cs = (x, cs1)" by (rule prod.exhaust)
    have c: "cache_ok E (snd cs1)" using cache_ok_rows [of E "snd cs" 4096 "fst cs"] s x by simp
    note body = body [unfolded x prod.case]
    show "cache_ok E (snd (snd y))"
    proof (cases x)
      case (Inl e)
      from body have "y = (Inl e, cs1)" unfolding Inl by simp
      with c show ?thesis by simp
    next
      case (Inr b)
      show ?thesis
      proof (cases "length b < 4096 \<or> rc_exhausted (fst cs1)")
        case True
        from body have "y = (Inr (rows @ b), cs1)" unfolding Inr sum.case if_P [OF True] by simp
        with c show ?thesis by simp
      next
        case False
        from body have "d E (rows @ b) cs1 = Some y" unfolding Inr sum.case if_not_P [OF False] .
        from IH [OF this] c show ?thesis by blast
      qed
    qed
  qed
  with assms(2) show ?thesis by simp
qed

lemma cache_ok_returning:
  assumes "cache_ok E s" "execute_returning_rows E sql binds s = Some (r, s')"
  shows "cache_ok E s'"
proof -
  obtain x s1 where o: "open_cursor_with_binds E sql binds LENIENT s = (x, s1)" by force
  then have s1: "cache_ok E s1" using keeps_snd [OF cache_ok_open assms(1)] by (metis snd_conv)
  show ?thesis
  proof (cases x)
    case (Inl e)
    with o s1 assms(2) show ?thesis by (simp add: execute_returning_rows_def)
  next
    case (Inr c)
    with o assms(2) obtain p where p: "drain E [] (c, s1) = Some p"
      by (auto simp: execute_returning_rows_def)
    obtain y cs where y: "p = (y, cs)" by (rule prod.exhaust)
    with p have d: "drain E [] (c, s1) = Some (y, cs)" by simp
    have s': "s' = (case y of Inl _ \<Rightarrow> snd cs | Inr _ \<Rightarrow> snd (finish_rows E cs))"
      using o Inr d assms(2) by (cases y) (simp_all add: execute_returning_rows_def)
    from cache_ok_drain [OF d] s1 have "cache_ok E (snd cs)" by simp
    with s' show ?thesis
      using cache_ok_finish [of E "snd cs" "fst cs"] by (simp split: sum.splits)
  qed
qed

text \<open>What a session does with its backend, in any order.\<close>

inductive pg_step :: "('k, 't, 'r) pg_env \<Rightarrow> ('k, 't) pg_state \<Rightarrow> ('k, 't) pg_state \<Rightarrow> bool" for E where
  opened: "pg_step E s (snd (open_cursor_with_binds E sql binds caps s))"
| fetched: "pg_step E s (snd (snd (next_rows E n (c, s))))"
| finished: "pg_step E s (snd (finish_rows E (c, s)))"
| simple: "pg_step E s (snd (execute_simple_with_binds E sql binds s))"
| ddl: "pg_step E s (snd (execute_ddl_with_binds E sql binds s))"
| returned: "execute_returning_rows E sql binds s = Some (r, s') \<Longrightarrow> pg_step E s s'"
| cancelled: "pg_step E s (s\<lparr>conn := cancel_query (pg_client E) (conn s)\<rparr>)"

inductive pg_reach :: "('k, 't, 'r) pg_env \<Rightarrow> ('k, 't) pg_state \<Rightarrow> bool" for E where
  start: "pg_reach E \<lparr>conn = k, stmt_cache = [], tz_now = tz\<rparr>"
| step: "pg_reach E s \<Longrightarrow> pg_step E s s' \<Longrightarrow> pg_reach E s'"

lemma cache_ok_step: "pg_step E s s' \<Longrightarrow> cache_ok E s \<Longrightarrow> cache_ok E s'"
  by (induction rule: pg_step.induct)
    (auto intro: keeps_snd [OF cache_ok_open] keeps_snd [OF cache_ok_simple] keeps_snd [OF cache_ok_ddl]
      cache_ok_rows cache_ok_finish cache_ok_returning)

lemma cache_ok_reach: "pg_reach E s \<Longrightarrow> cache_ok E s"
proof (induction rule: pg_reach.induct)
  case (start k tz)
  show ?case by (simp add: cache_ok_def)
qed (rule cache_ok_step)

section \<open>Savepoints\<close>

text \<open>
  \<open>sp k\<close> counts the savepoints named \<open>dbsaci_statement\<close> in the open transaction, and \<open>faults k\<close>
  those commands of the proxy itself that the database has refused so far.  A command that fails
  changes no savepoint; \<open>SAVEPOINT\<close> makes one, \<open>RELEASE\<close> and the recovery take one away, \<open>SET
  LOCAL\<close> none.  Preparing, describing, fetching and cancelling have nothing to do with them.
\<close>

definition command_law :: "('k \<Rightarrow> nat) \<Rightarrow> ('k \<Rightarrow> nat) \<Rightarrow> nat \<Rightarrow> nat \<Rightarrow> 'k \<Rightarrow> ('e + unit) \<times> 'k \<Rightarrow> bool" where
  "command_law sp faults gone made k r \<longleftrightarrow> (case r of
       (Inr _, k') \<Rightarrow> sp k' + gone = sp k + made \<and> faults k' = faults k
     | (Inl _, k') \<Rightarrow> sp k' = sp k \<and> faults k' = Suc (faults k))"

definition same_savepoints :: "('k \<Rightarrow> nat) \<Rightarrow> ('k \<Rightarrow> nat) \<Rightarrow> 'k \<Rightarrow> 'k \<Rightarrow> bool" where
  "same_savepoints sp faults k k' \<longleftrightarrow> sp k' = sp k \<and> faults k' = faults k"

definition counts_savepoints :: "('k, 't, 'r) client \<Rightarrow> ('k \<Rightarrow> nat) \<Rightarrow> ('k \<Rightarrow> nat) \<Rightarrow> bool" where
  "counts_savepoints C sp faults \<longleftrightarrow>
     (\<forall>k. command_law sp faults 0 1 k (batch_execute C ''SAVEPOINT dbsaci_statement'' k))
     \<and> (\<forall>k ms. command_law sp faults 0 0 k (batch_execute C (limit_text ms) k))
     \<and> (\<forall>k. command_law sp faults 1 0 k (batch_execute C ''RELEASE SAVEPOINT dbsaci_statement'' k))
     \<and> (\<forall>k. command_law sp faults 1 0 k (batch_execute C recover_text k))
     \<and> (\<forall>k sql. same_savepoints sp faults k (snd (prepare C sql k)))
     \<and> (\<forall>k r. same_savepoints sp faults k (snd (snd (next_row C r k))))
     \<and> (\<forall>k r a. same_savepoints sp faults k (snd (domain_of C r a k)))
     \<and> (\<forall>k. same_savepoints sp faults k (cancel_query C k))"

text \<open>
  A statement that is no transaction command in disguise: what the database prepares for its
  text leaves the savepoints alone when it runs, whether it succeeds or fails.
\<close>

definition transparent :: "('k, 't, 'r) client \<Rightarrow> ('k \<Rightarrow> nat) \<Rightarrow> ('k \<Rightarrow> nat) \<Rightarrow> string \<Rightarrow> bool" where
  "transparent C sp faults sql \<longleftrightarrow> (\<forall>t. (\<exists>k k'. prepare C sql k = (Inr t, k')) \<longrightarrow>
     (\<forall>ps k. same_savepoints sp faults k (snd (run_prepared C t ps k)))
     \<and> (\<forall>ps k. same_savepoints sp faults k (snd (query_raw C t ps k))))"

text \<open>A bind that has no PostgreSQL form is noticed after the savepoint is made, and leaves it.\<close>

definition leaked :: "('k, 't, 'r) pg_env \<Rightarrow> bind_value list \<Rightarrow> nat" where
  "leaked E binds = (case postgres_binds (double_text E) binds of Inl _ \<Rightarrow> 1 | Inr _ \<Rightarrow> 0)"

definition ordinary :: "string \<Rightarrow> bool" where
  "ordinary sql \<longleftrightarrow> (let command = command_of sql; upper = to_ascii_uppercase command in
     \<not> eq_ignore_ascii_case command ''COMMIT'' \<and> \<not> eq_ignore_ascii_case command ''ROLLBACK''
     \<and> \<not> eq_ignore_ascii_case command ''BEGIN'' \<and> \<not> eq_ignore_ascii_case command ''START TRANSACTION''
     \<and> \<not> starts_with upper ''SET TIME ZONE'' \<and> \<not> starts_with upper ''SET TIMEZONE'' \<and> \<not> own_savepoint upper)"

text \<open>
  At least \<open>d\<close> savepoints, and above \<open>d\<close> no more than commands refused since there were \<open>f\<close>.
\<close>

definition within :: "('k \<Rightarrow> nat) \<Rightarrow> ('k \<Rightarrow> nat) \<Rightarrow> nat \<Rightarrow> nat \<Rightarrow> 'k \<Rightarrow> bool" where
  "within sp faults d f k \<longleftrightarrow> d \<le> sp k \<and> sp k + f \<le> d + faults k"

definition settled :: "('k \<Rightarrow> nat) \<Rightarrow> ('k \<Rightarrow> nat) \<Rightarrow> nat \<Rightarrow> 'k \<Rightarrow> 'k \<Rightarrow> bool" where
  "settled sp faults l k k' \<longleftrightarrow> sp k \<le> sp k' \<and> sp k' + faults k \<le> sp k + l + faults k'
     \<and> (faults k' = faults k \<longrightarrow> sp k' = sp k + l)"

lemma within_start: "within sp faults (sp k) (faults k) k"
  by (simp add: within_def)

lemma within_settled: "within sp faults (sp k) (faults k) k' \<Longrightarrow> settled sp faults 0 k k'"
  by (auto simp: within_def settled_def)

lemma within_same: "same_savepoints sp faults k k' \<Longrightarrow> within sp faults d f k \<Longrightarrow> within sp faults d f k'"
  by (simp add: same_savepoints_def within_def)

lemma within_gone: "command_law sp faults 1 0 k r \<Longrightarrow> within sp faults (Suc d) f k \<Longrightarrow> within sp faults d f (snd r)"
  by (auto simp: command_law_def within_def split: prod.splits sum.splits)

lemma batch_law:
  "command_law sp faults i j (conn s) (batch_execute (pg_client E) sql (conn s))
    \<Longrightarrow> command_law sp faults i j (conn s) (fst (batch E sql s), conn (snd (batch E sql s)))"
  by (auto simp: command_law_def batch_def map_err_def on_conn_def split: prod.splits sum.splits)

lemma begin_counts:
  assumes "counts_savepoints (pg_client E) sp faults"
  shows "case begin_statement_ex E a s of
      (Inr _, s1) \<Rightarrow> within sp faults (Suc (sp (conn s))) (faults (conn s)) (conn s1)
    | (Inl _, s1) \<Rightarrow> within sp faults (sp (conn s)) (faults (conn s)) (conn s1) \<and> faults (conn s) < faults (conn s1)"
proof -
  obtain r s1 where b: "batch E ''SAVEPOINT dbsaci_statement'' s = (r, s1)" by force
  have l1: "command_law sp faults 0 1 (conn s) (r, conn s1)"
    using batch_law [of sp faults 0 1 s E "''SAVEPOINT dbsaci_statement''"] assms b by (simp add: counts_savepoints_def)
  have l2: "command_law sp faults 0 0 (conn s1) (x, conn s2)" if "batch E (limit_text ms) s1 = (x, s2)" for ms x s2
    using batch_law [of sp faults 0 0 s1 E "limit_text ms"] assms that by (simp add: counts_savepoints_def)
  show ?thesis
  proof (cases r)
    case (Inl e)
    with b l1 show ?thesis by (simp add: begin_statement_ex_def command_law_def within_def)
  next
    case (Inr u)
    note b = b [unfolded Inr] and l1 = l1 [unfolded Inr]
    show ?thesis
    proof (cases "if a then time_limit E else None")
      case None
      with b l1 show ?thesis
        by (auto simp: begin_statement_ex_def command_law_def within_def split: option.splits if_splits)
    next
      case (Some ms)
      with b have "begin_statement_ex E a s = batch E (limit_text ms) s1"
        by (simp add: begin_statement_ex_def)
      moreover obtain x s2 where x: "batch E (limit_text ms) s1 = (x, s2)" by force
      ultimately show ?thesis
        using l1 l2 [OF x] by (cases x) (simp_all add: command_law_def within_def)
    qed
  qed
qed

text \<open>What holds between the savepoint and its end: the count, and the cache as it should be.\<close>

definition inside :: "('k, 't, 'r) pg_env \<Rightarrow> ('k \<Rightarrow> nat) \<Rightarrow> ('k \<Rightarrow> nat) \<Rightarrow> nat \<Rightarrow> nat \<Rightarrow> ('k, 't) pg_state \<Rightarrow> bool" where
  "inside E sp faults d f s \<longleftrightarrow> within sp faults d f (conn s) \<and> cache_ok E s"

lemma begin_inside:
  assumes "counts_savepoints (pg_client E) sp faults" "cache_ok E s" "begin_statement_ex E a s = (Inr u, s1)"
  shows "inside E sp faults (Suc (sp (conn s))) (faults (conn s)) s1"
proof -
  have "keeps (cache_ok E) (begin_statement_ex E a)" by (intro keep_rules)
  from keeps_snd [OF this assms(2)] begin_counts [OF assms(1), where a = a and s = s] assms(3) show ?thesis
    by (simp add: inside_def)
qed

lemma failed_counts:
  assumes "counts_savepoints (pg_client E) sp faults" "inside E sp faults (Suc d) f s"
  shows "within sp faults d f (conn (snd (statement_failed E sql e s)))"
  using within_gone [of sp faults "conn s" "batch_execute (pg_client E) recover_text (conn s)" d f] assms
  by (simp add: counts_savepoints_def forget_cached_def inside_def)

lemma prepare_counts:
  "counts_savepoints (pg_client E) sp faults \<Longrightarrow> keeps (inside E sp faults d f) (prepare_cached E sql)"
proof (rule keepsI)
  fix s
  assume C: "counts_savepoints (pg_client E) sp faults" and s: "inside E sp faults d f s"
  have "same_savepoints sp faults (conn s) (conn (snd (prepare_cached E sql s)))"
    using C by (auto simp: prepare_cached_def on_conn_def counts_savepoints_def same_savepoints_def
      split: option.split prod.split sum.split) (metis snd_conv)+
  from within_same [OF this] s keeps_snd [OF cache_ok_prepare, of E s sql]
  show "inside E sp faults d f (snd (prepare_cached E sql s))" by (simp add: inside_def)
qed

lemma prepared_for:
  assumes "cache_ok E s" "prepare_cached E sql s = (Inr t, s')"
  shows "\<exists>k k'. prepare (pg_client E) sql k = (Inr t, k')"
proof (cases "map_of (stmt_cache s) sql")
  case None
  with assms(2) show ?thesis by (auto simp: prepare_cached_def on_conn_def split: prod.splits sum.splits)
next
  case (Some t')
  with assms show ?thesis by (auto simp: prepare_cached_def cache_ok_def dest: map_of_SomeD)
qed

lemma inside_on_conn:
  "(\<And>k. same_savepoints sp faults k (snd (f k))) \<Longrightarrow> keeps (inside E sp faults d e) (on_conn f)"
  using keeps_snd [OF cache_ok_on_conn] by (auto simp: keeps_def inside_def intro: within_same)

lemma open_counts:
  assumes sp: "counts_savepoints (pg_client E) sp faults" and t: "transparent (pg_client E) sp faults sql" and s: "cache_ok E s"
  shows "case open_cursor_with_binds E sql binds caps s of
      (Inr c, s') \<Rightarrow> savepoint_held c \<and> within sp faults (Suc (sp (conn s))) (faults (conn s)) (conn s')
    | (Inl _, s') \<Rightarrow> settled sp faults (leaked E binds) (conn s) (conn s')"
proof -
  obtain r s1 where b: "begin_statement_ex E False s = (r, s1)" by force
  let ?d = "sp (conn s)" and ?f = "faults (conn s)"
  show ?thesis
  proof (cases r)
    case (Inl e)
    with b begin_counts [OF sp, where a = False and s = s] show ?thesis
      by (auto simp: open_cursor_with_binds_def within_def settled_def)
  next
    case (Inr u)
    note b = b [unfolded Inr] and s1 = begin_inside [OF sp s b [unfolded Inr]]
    show ?thesis
    proof (cases "postgres_binds (double_text E) binds")
      case (Inl e)
      with b s1 show ?thesis
        by (auto simp: open_cursor_with_binds_def given_def leaked_def inside_def within_def settled_def)
    next
      case (Inr ps)
      let ?Q = "\<lambda>x. case x of (Inr c, s') \<Rightarrow> savepoint_held c \<and> within sp faults (Suc ?d) ?f (conn s')
        | (Inl _, s') \<Rightarrow> within sp faults ?d ?f (conn s')"
      let ?P = "inside E sp faults (Suc ?d) ?f"
      have "?Q (try_open E sql ps caps (retry_open E sql ps caps) s1)"
      proof (rule retry_open_rule [where P = ?P and T = "\<lambda>t. \<exists>k k'. prepare (pg_client E) sql k = (Inr t, k')",
            OF s1 prepare_counts [OF sp]])
        fix e and s2 :: "('a, 'b) pg_state"
        assume "?P s2"
        from failed_counts [OF sp this, of sql e] show "?Q (statement_failed E sql e s2)"
          by (simp add: statement_failed_def split_beta recover_state)
      next
        fix t qs
        assume "\<exists>k k'. prepare (pg_client E) sql k = (Inr t, k')"
        with t show "keeps ?P (on_conn (query_raw (pg_client E) t qs))"
          by (intro inside_on_conn) (simp add: transparent_def)
      next
        fix s2 :: "('a, 'b) pg_state"
        assume "?P s2"
        then show "?P (s2\<lparr>conn := cancel_query (pg_client E) (conn s2)\<rparr>)" "?P (forget_cached sql s2)"
          using sp cache_ok_forget [of E s2 sql]
          by (auto simp: inside_def counts_savepoints_def forget_cached_def intro: within_same)
      next
        fix r a show "keeps ?P (on_conn (domain_of (pg_client E) r a))"
          using sp by (intro inside_on_conn) (simp add: counts_savepoints_def)
      qed (auto simp: inside_def dest: prepared_for)
      with b Inr show ?thesis
        by (auto simp: open_cursor_with_binds_def given_def leaked_def within_settled split: prod.splits sum.splits)
    qed
  qed
qed

text \<open>The savepoints beneath an open cursor's own.\<close>

definition beneath :: "('k \<Rightarrow> nat) \<Rightarrow> ('k \<Rightarrow> nat) \<Rightarrow> nat \<Rightarrow> nat \<Rightarrow> 'r row_cursor \<times> ('k, 't) pg_state \<Rightarrow> bool" where
  "beneath sp faults d f cs \<longleftrightarrow> within sp faults (if savepoint_held (fst cs) then Suc d else d) f (conn (snd cs))"

lemma finish_counts:
  "counts_savepoints (pg_client E) sp faults \<Longrightarrow> beneath sp faults d f cs \<Longrightarrow> beneath sp faults d f (finish_rows E cs) \<and>
     \<not> savepoint_held (fst (finish_rows E cs))"
  using within_gone [of sp faults "conn (snd cs)" "batch_execute (pg_client E) ''RELEASE SAVEPOINT dbsaci_statement'' (conn (snd cs))" d f]
  by (auto simp: beneath_def finish_rows_def finish_statement_def counts_savepoints_def split: prod.splits)

lemma rows_count:
  assumes sp: "counts_savepoints (pg_client E) sp faults"
  shows "beneath sp faults d f (c, s) \<Longrightarrow> savepoint_held c \<Longrightarrow> beneath sp faults d f (snd (next_rows E n (c, s)))"
proof (induction n arbitrary: c s)
  case (Suc n)
  obtain item r k where i: "next_row (pg_client E) (rc_stream c) (conn s) = (item, r, k)" by (metis prod_cases3)
  let ?c = "c\<lparr>rc_stream := r\<rparr>" and ?s = "s\<lparr>conn := k\<rparr>"
  from sp i have "same_savepoints sp faults (conn s) k" unfolding counts_savepoints_def by (metis snd_conv)
  from within_same [OF this] Suc.prems have b: "beneath sp faults d f (?c, ?s)" "savepoint_held ?c"
    by (simp_all add: beneath_def)
  show ?case
  proof (cases item)
    case None
    with i finish_counts [OF sp b(1)] show ?thesis by (simp add: Let_def)
  next
    case (Some x)
    show ?thesis
    proof (cases x)
      case (Inl e)
      have "within sp faults d f (conn (snd (recover_statement_error E e ?s)))"
        using within_gone [of sp faults k "batch_execute (pg_client E) recover_text k" d f] sp b
        by (simp add: recover_state counts_savepoints_def beneath_def)
      with i Some Inl show ?thesis by (simp add: Let_def beneath_def split_beta)
    next
      case (Inr row)
      with i Some Suc.IH [OF b] show ?thesis
        by (auto simp: Let_def on_ok_def split: prod.splits sum.splits)
    qed
  qed
qed simp

lemma wrapped_counts:
  assumes sp: "counts_savepoints (pg_client E) sp faults" and t: "transparent (pg_client E) sp faults sql" and s: "cache_ok E s"
  shows "settled sp faults (leaked E binds) (conn s) (conn (snd (run_wrapped E sql binds s)))"
proof -
  obtain r s1 where b: "begin_statement_ex E True s = (r, s1)" by force
  let ?d = "sp (conn s)" and ?f = "faults (conn s)"
  let ?P = "inside E sp faults (Suc ?d) ?f"
  show ?thesis
  proof (cases r)
    case (Inl e)
    with b begin_counts [OF sp, where a = True and s = s] show ?thesis
      by (auto simp: run_wrapped_def within_def settled_def)
  next
    case (Inr u)
    note b = b [unfolded Inr] and s1 = begin_inside [OF sp s b [unfolded Inr]]
    show ?thesis
    proof (cases "postgres_binds (double_text E) binds")
      case (Inl e)
      with b s1 show ?thesis
        by (auto simp: run_wrapped_def given_def leaked_def inside_def within_def settled_def)
    next
      case (Inr ps)
      obtain x s2 where p: "prepare_cached E sql s1 = (x, s2)" by force
      then have s2: "?P s2" using keeps_snd [OF prepare_counts [OF sp] s1, of sql] by simp
      have "within sp faults ?d ?f (conn (snd (run_wrapped E sql binds s)))"
      proof (cases x)
        case (Inl e)
        with b Inr p failed_counts [OF sp s2, of sql e] show ?thesis by (simp add: run_wrapped_def given_def)
      next
        case x: (Inr t)
        have "\<exists>k k'. prepare (pg_client E) sql k = (Inr t, k')" using prepared_for p x s1 by (auto simp: inside_def)
        then have run: "keeps ?P (on_conn (run_prepared (pg_client E) t ps))"
          using t by (intro inside_on_conn) (simp add: transparent_def)
        obtain y s3 where r: "on_conn (run_prepared (pg_client E) t ps) s2 = (y, s3)" by force
        with keeps_snd [OF run s2] have s3: "?P s3" by simp
        have "within sp faults ?d ?f (conn (snd (finish_statement E s3)))"
          using within_gone [of sp faults "conn s3" "batch_execute (pg_client E) ''RELEASE SAVEPOINT dbsaci_statement'' (conn s3)" ?d ?f]
            sp s3 by (simp add: finish_statement_def counts_savepoints_def inside_def)
        then have "within sp faults ?d ?f (conn (snd (let_ok (finish_statement E) (\<lambda>_. ok rows) s3)))" for rows :: u64
          by (cases "finish_statement E s3"; cases "fst (finish_statement E s3)") auto
        with b Inr p x r failed_counts [OF sp s3, of sql] show ?thesis
          by (cases y) (simp_all add: run_wrapped_def given_def del: let_ok_apply add: let_ok_apply [of "begin_statement_ex E True"])
      qed
      with Inr show ?thesis by (simp add: leaked_def within_settled)
    qed
  qed
qed

lemma ordinary_wrapped: "ordinary sql \<Longrightarrow> execute_simple_with_binds E sql binds = run_wrapped E sql binds"
  by (simp add: ordinary_def execute_simple_with_binds_def Let_def)

text \<open>Any number of fetches.\<close>

definition fetches :: "('k, 't, 'r) pg_env \<Rightarrow> nat list \<Rightarrow> 'r row_cursor \<times> ('k, 't) pg_state \<Rightarrow> 'r row_cursor \<times> ('k, 't) pg_state" where
  "fetches E ns cs = fold (\<lambda>n cs. if rc_exhausted (fst cs) then cs else snd (next_rows E n cs)) ns cs"

text \<open>A cursor that is not at its end holds its savepoint.\<close>

lemma rows_held:
  "savepoint_held c \<Longrightarrow> rc_exhausted (fst (snd (next_rows E n (c, s)))) \<or> savepoint_held (fst (snd (next_rows E n (c, s))))"
proof (induction n arbitrary: c s)
  case (Suc n)
  obtain item r k where i: "next_row (pg_client E) (rc_stream c) (conn s) = (item, r, k)" by (metis prod_cases3)
  from Suc.prems have "savepoint_held (c\<lparr>rc_stream := r\<rparr>)" by simp
  with i Suc.IH [OF this, of "s\<lparr>conn := k\<rparr>"] show ?case
    by (auto simp: Let_def on_ok_def finish_rows_def split: option.splits sum.splits prod.splits)
qed simp

lemma fetches_count:
  assumes sp: "counts_savepoints (pg_client E) sp faults"
  shows "beneath sp faults d f cs \<Longrightarrow> rc_exhausted (fst cs) \<or> savepoint_held (fst cs) \<Longrightarrow> beneath sp faults d f (fetches E ns cs)"
proof (induction ns arbitrary: cs)
  case (Cons n ns)
  obtain c s where cs: "cs = (c, s)" by (rule prod.exhaust)
  show ?case
  proof (cases "rc_exhausted c")
    case True
    with Cons cs show ?thesis by (simp add: fetches_def)
  next
    case False
    with Cons.prems cs have h: "savepoint_held c" by simp
    from Cons.IH [OF rows_count [OF sp] rows_held] Cons.prems(1) h cs False show ?thesis
      by (simp add: fetches_def)
  qed
qed (simp add: fetches_def)

lemma cursor_counts:
  assumes sp: "counts_savepoints (pg_client E) sp faults" and "savepoint_held c" "within sp faults (Suc d) f (conn s)"
  shows "within sp faults d f (conn (snd (finish_rows E (fetches E ns (c, s)))))"
proof -
  have "beneath sp faults d f (fetches E ns (c, s))"
    using assms by (intro fetches_count [OF sp]) (simp_all add: beneath_def)
  from finish_counts [OF sp this] show ?thesis by (auto simp: beneath_def)
qed

lemma open_fresh:
  assumes "open_cursor_with_binds E sql binds caps s = (Inr c, s')"
  shows "\<not> rc_exhausted c"
proof -
  obtain ps s1 where t: "try_open E sql ps caps (retry_open E sql ps caps) s1 = (Inr c, s')"
    using assms by (auto simp: open_cursor_with_binds_def given_def on_ok_def fail_def split: prod.splits sum.splits)
  let ?Q = "\<lambda>x. case x of (Inr c, _) \<Rightarrow> \<not> rc_exhausted c | _ \<Rightarrow> True"
  have "?Q (try_open E sql ps caps (retry_open E sql ps caps) s1)"
    by (rule retry_open_rule [where P = "\<lambda>_. True" and T = "\<lambda>_. True"]) (auto simp: keeps_def statement_failed_def split_beta)
  with t show ?thesis by simp
qed

section \<open>A stream read to its end\<close>

text \<open>The stream's items are its rows, then nothing.\<close>

definition delivers :: "('k, 't, 'r) client \<Rightarrow> ('r \<Rightarrow> pg_row list) \<Rightarrow> bool" where
  "delivers C rows_left \<longleftrightarrow> (\<forall>r k. case rows_left r of
       [] \<Rightarrow> (\<exists>r' k'. next_row C r k = (None, r', k') \<and> rows_left r' = [])
     | row # rest \<Rightarrow> (\<exists>r' k'. next_row C r k = (Some (Inr row), r', k') \<and> rows_left r' = rest))"

definition rows_pending :: "('k, 't, 'r) pg_env \<Rightarrow> ('r \<Rightarrow> pg_row list) \<Rightarrow> 'r row_cursor \<times> ('k, 't) pg_state \<Rightarrow> cells list" where
  "rows_pending E rows_left cs =
     map (encode_row (zones E) (tz_now (snd cs)) (fst cs)) (rows_left (rc_stream (fst cs)))"

definition stream_ready :: "('r \<Rightarrow> pg_row list) \<Rightarrow> 'r row_cursor \<times> ('k, 't) pg_state \<Rightarrow> bool" where
  "stream_ready rows_left cs \<longleftrightarrow> (rc_exhausted (fst cs) \<longrightarrow> rows_left (rc_stream (fst cs)) = [])"

lemma deliversD:
  assumes "delivers C rows_left"
  shows "rows_left r = [] \<Longrightarrow> \<exists>r' k'. next_row C r k = (None, r', k') \<and> rows_left r' = []"
    and "rows_left r = row # rest \<Longrightarrow> \<exists>r' k'. next_row C r k = (Some (Inr row), r', k') \<and> rows_left r' = rest"
  using assms [unfolded delivers_def, rule_format, of r k] by simp_all

lemma encode_row_cursor: "encode_row cal tz (c\<lparr>rc_stream := r\<rparr>) = encode_row cal tz c"
  "encode_row cal tz (c\<lparr>rc_exhausted := a\<rparr>) = encode_row cal tz c"
  "encode_row cal tz (c\<lparr>savepoint_held := b\<rparr>) = encode_row cal tz c"
  by (simp_all add: encode_row_def fun_eq_iff)

lemma next_rows_delivers:
  assumes "delivers (pg_client E) rows_left"
  shows "stream_ready rows_left (c, s) \<Longrightarrow> \<exists>cs'. next_rows E n (c, s) = (Inr (take n (rows_pending E rows_left (c, s))), cs')
    \<and> rows_pending E rows_left cs' = drop n (rows_pending E rows_left (c, s)) \<and> stream_ready rows_left cs'
    \<and> (length (rows_pending E rows_left (c, s)) < n \<longrightarrow> rc_exhausted (fst cs'))"
proof (induction n arbitrary: c s)
  case 0
  then show ?case by simp
next
  case (Suc n)
  show ?case
  proof (cases "rows_left (rc_stream c)")
    case Nil
    from deliversD(1) [OF assms this] obtain r k where
      i: "next_row (pg_client E) (rc_stream c) (conn s) = (None, r, k)" "rows_left r = []" by blast
    obtain c' s' where f: "finish_rows E (c\<lparr>rc_stream := r\<rparr>, s\<lparr>conn := k\<rparr>) = (c', s')" by (rule prod.exhaust)
    then have "rc_stream c' = r" "rc_exhausted c'" by (auto simp: finish_rows_def split: if_splits)
    with i f Nil show ?thesis by (simp add: rows_pending_def stream_ready_def)
  next
    case (Cons row rest)
    from deliversD(2) [OF assms this] obtain r k where
      i: "next_row (pg_client E) (rc_stream c) (conn s) = (Some (Inr row), r, k)" "rows_left r = rest" by blast
    let ?c = "c\<lparr>rc_stream := r\<rparr>" and ?s = "s\<lparr>conn := k\<rparr>"
    from Cons Suc.prems have "stream_ready rows_left (?c, ?s)" by (simp add: stream_ready_def)
    from Suc.IH [OF this] obtain cs' where cs': "next_rows E n (?c, ?s) = (Inr (take n (rows_pending E rows_left (?c, ?s))), cs')"
      "rows_pending E rows_left cs' = drop n (rows_pending E rows_left (?c, ?s))" "stream_ready rows_left cs'"
      "length (rows_pending E rows_left (?c, ?s)) < n \<longrightarrow> rc_exhausted (fst cs')" by blast
    have p: "rows_pending E rows_left (c, s) = encode_row (zones E) (tz_now s) c row # rows_pending E rows_left (?c, ?s)"
      using Cons i(2) by (simp add: rows_pending_def encode_row_cursor)
    show ?thesis using cs' i(1) unfolding p by (simp add: encode_row_cursor)
  qed
qed

lemma pg_row_source:
  fixes E :: "('k, 't, 'r) pg_env"
  assumes "delivers (pg_client E) rows_left"
  shows "row_source (next_rows E) (rows_pending E rows_left) (\<lambda>cs. rc_exhausted (fst cs)) (stream_ready rows_left)"
proof
  fix cs :: "'r row_cursor \<times> ('k, 't) pg_state" and n
  assume "stream_ready rows_left cs"
  then show "\<exists>cs'. next_rows E n cs = (Inr (take n (rows_pending E rows_left cs)), cs') \<and>
      rows_pending E rows_left cs' = drop n (rows_pending E rows_left cs) \<and> stream_ready rows_left cs' \<and>
      (length (rows_pending E rows_left cs) < n \<longrightarrow> rc_exhausted (fst cs'))"
    using next_rows_delivers [OF assms, of "fst cs" "snd cs"] by simp
qed (simp add: stream_ready_def rows_pending_def)

lemma drain_complete:
  assumes "delivers (pg_client E) rows_left"
  shows "stream_ready rows_left cs \<Longrightarrow> \<exists>cs'. drain E acc cs = Some (Inr (acc @ rows_pending E rows_left cs), cs')"
proof (induction "length (rows_pending E rows_left cs)" arbitrary: acc cs rule: less_induct)
  case less
  let ?p = "rows_pending E rows_left cs"
  obtain cs' where cs': "next_rows E 4096 cs = (Inr (take 4096 ?p), cs')"
    "rows_pending E rows_left cs' = drop 4096 ?p" "stream_ready rows_left cs'"
    using next_rows_delivers [OF assms, of "fst cs" "snd cs" 4096] less.prems by auto
  show ?case
  proof (cases "length ?p < 4096 \<or> rc_exhausted (fst cs')")
    case True
    have "?p = take 4096 ?p"
    proof (cases "length ?p < 4096")
      case False
      with True cs'(3) have "rows_pending E rows_left cs' = []" by (simp add: rows_pending_def stream_ready_def)
      with cs'(2) show ?thesis by simp
    qed simp
    with True cs'(1) show ?thesis by (subst drain.simps) auto
  next
    case False
    then have "4096 \<le> length ?p" by simp
    with cs'(2) have "length (rows_pending E rows_left cs') < length ?p" by (simp add: diff_less)
    from less.hyps [OF this cs'(3), of "acc @ take 4096 ?p"] obtain t where
      t: "drain E (acc @ take 4096 ?p) cs' = Some (Inr (acc @ take 4096 ?p @ drop 4096 ?p), t)"
      using cs'(2) by auto
    from False have "\<not> length (take 4096 ?p) < 4096" by simp
    with False cs'(1) t show ?thesis by (subst drain.simps) auto
  qed
qed

text \<open>Values by column instead of by row.\<close>

lemma fold_push_row:
  assumes "\<forall>row \<in> set rows. length row = n" "length cols = n"
  shows "fold push_row rows cols = map (\<lambda>i. cols ! i @ map (\<lambda>row. row ! i) rows) [0..<n]"
  using assms
proof (induction rows arbitrary: cols)
  case Nil
  then show ?case using map_nth [of cols] by simp
next
  case (Cons row rows)
  have l: "length (push_row row cols) = n" using Cons.prems by (simp add: push_row_def)
  have e: "push_row row cols ! i = cols ! i @ [row ! i]" if "i < n" for i
    using that Cons.prems by (simp add: push_row_def)
  show ?case using Cons.IH [OF _ l] Cons.prems by (simp add: e)
qed

lemma length_encode_row: "length (encode_row cal tz c row) = length (rc_columns c)"
  by (simp add: encode_row_def)

lemma returning_rows:
  assumes d: "delivers (pg_client E) rows_left"
    and o: "open_cursor_with_binds E sql binds LENIENT s = (Inr c, s1)"
  shows "\<exists>s2. execute_returning_rows E sql binds s = Some (Inr
      (let rows = map (encode_row (zones E) (tz_now s1) c) (rows_left (rc_stream c)) in
       (word_of_nat (length rows), map (\<lambda>i. map (\<lambda>row. row ! i) rows) [0..<length (rc_columns c)])), s2)"
proof -
  let ?rows = "rows_pending E rows_left (c, s1)"
  obtain cs where cs: "drain E [] (c, s1) = Some (Inr ?rows, cs)"
    using drain_complete [OF d, of "(c, s1)" "[]"] open_fresh [OF o] by (auto simp: stream_ready_def)
  have "\<forall>row \<in> set ?rows. length row = length (rc_columns c)"
    by (auto simp: rows_pending_def length_encode_row)
  from fold_push_row [OF this, of "replicate (length (rc_columns c)) []"]
  have "fold push_row ?rows (replicate (length (rc_columns c)) [])
      = map (\<lambda>i. map (\<lambda>row. row ! i) ?rows) [0..<length (rc_columns c)]" by simp
  with o cs show ?thesis by (simp add: execute_returning_rows_def rows_pending_def Let_def)
qed

section \<open>A plan gone stale\<close>

text \<open>What the retry does when the cached statement fails as stale and the text, prepared anew, runs.\<close>

lemma stale_retried:
  assumes b: "begin_statement_ex E False s = (Inr (), s1)" "postgres_binds (double_text E) binds = Inr ps"
    and c: "map_of (stmt_cache s1) sql = Some t" "describe E caps t s1 = (cols, s2)"
    and f: "ask E t ps s2 = (Inl e, s3)" "is_stale_plan e"
    and p: "prepare (pg_client E) sql (conn s3) = (Inr t', k)"
    and d: "describe E caps t' (s3\<lparr>conn := k, stmt_cache := cache_insert sql t' (cache_remove sql (stmt_cache s3))\<rparr>) = (cols', s4)"
    and r: "ask E t' ps s4 = (Inr r, s5)" and l: "length (cache_remove sql (stmt_cache s3)) < STMT_CACHE_CAP"
  shows "open_cursor_with_binds E sql binds caps s = (Inr \<lparr>rc_stream = r, rc_columns = cols', rc_exhausted = False,
      savepoint_held = True, rc_oci = caps_oci caps\<rparr>, s5)"
proof -
  have "map_of (cache_remove sql (stmt_cache s3)) sql = None"
    using stmt_table.look_del [of sql "stmt_cache s3" sql] by simp
  then have "prepare_cached E sql (forget_cached sql s3)
      = (Inr t', s3\<lparr>conn := k, stmt_cache := cache_insert sql t' (cache_remove sql (stmt_cache s3))\<rparr>)"
    using p l by (simp add: prepare_cached_def forget_cached_def on_conn_def)
  then have "try_open E sql ps caps (statement_failed E sql) (forget_cached sql s3)
      = (Inr \<lparr>rc_stream = r, rc_columns = cols', rc_exhausted = False, savepoint_held = True,
          rc_oci = caps_oci caps\<rparr>, s5)"
    using d r by (simp add: try_open_def)
  then have "retry_open E sql ps caps e s3 = (Inr \<lparr>rc_stream = r, rc_columns = cols', rc_exhausted = False,
      savepoint_held = True, rc_oci = caps_oci caps\<rparr>, s5)"
    using f(2) by (simp add: retry_open_def)
  then show ?thesis
    using b c f(1) by (simp add: open_cursor_with_binds_def given_def try_open_def prepare_cached_def)
qed

section \<open>The properties\<close>

text \<open>A database that counts savepoints and refused commands and answers every query with one row.\<close>

definition demo_column :: pg_column where
  "demo_column = \<lparr>pg_name = ''ID'', pg_type = INT4, type_modifier = - 1\<rparr>"

definition demo_client :: "(nat \<times> nat, string, pg_row list) client" where
  "demo_client = \<lparr>
     batch_execute = (\<lambda>sql k.
       if sql = ''SAVEPOINT dbsaci_statement'' then (Inr (), (Suc (fst k), snd k))
       else if sql = ''RELEASE SAVEPOINT dbsaci_statement'' \<or> sql = recover_text then
         (if fst k = 0 then (Inl (DriverError ''no such savepoint''), (0, Suc (snd k))) else (Inr (), (fst k - 1, snd k)))
       else (Inr (), k)),
     prepare = (\<lambda>sql k. (Inr sql, k)),
     statement_columns = (\<lambda>_. [\<lparr>column_desc = demo_column, table_oid = None, column_id = None\<rparr>]),
     run_prepared = (\<lambda>_ _ k. (Inr 1, k)),
     run_text = (\<lambda>_ _ k. (Inr 0, k)),
     query_raw = (\<lambda>_ _ k. (Inr [[(demo_column, Some (PInt 7))]], k)),
     next_row = (\<lambda>r k. case r of [] \<Rightarrow> (None, [], k) | row # rest \<Rightarrow> (Some (Inr row), rest, k)),
     domain_of = (\<lambda>_ _ k. (Inr None, k)),
     zone_setting = (\<lambda>k. (Inr (''UTC'', 0), k)),
     cancel_query = (\<lambda>k. k)\<rparr>"

definition demo_env :: "(nat \<times> nat, string, pg_row list) pg_env" where
  "demo_env = \<lparr>pg_client = demo_client, zones = \<lparr>shift_seconds = (\<lambda>t _. t), zone_offset = (\<lambda>_. None)\<rparr>,
     time_limit = Some 30000, late = (\<lambda>_ _ _. False), double_text = (\<lambda>_. ''1'')\<rparr>"

definition demo_state :: "(nat \<times> nat, string) pg_state" where
  "demo_state = \<lparr>conn = (0, 0), stmt_cache = [], tz_now = Utc\<rparr>"

lemma demo_counts: "counts_savepoints (pg_client demo_env) fst snd"
  by (auto simp: counts_savepoints_def command_law_def same_savepoints_def demo_env_def demo_client_def
      recover_text_def limit_text_def split: list.split)

lemma demo_transparent: "transparent (pg_client demo_env) fst snd sql"
  by (simp add: transparent_def same_savepoints_def demo_env_def demo_client_def)

lemma demo_delivers: "delivers (pg_client demo_env) id"
  by (simp add: delivers_def demo_env_def demo_client_def split: list.split)

lemmas demo_defs = demo_env_def demo_client_def demo_state_def open_cursor_with_binds_def begin_statement_ex_def
  batch_def map_err_def on_conn_def given_def try_open_def prepare_cached_def describe_def ask_def
  refine_column_def cache_insert_def cache_remove_def STMT_CACHE_CAP_def demo_column_def

text \<open>
  C11.  The cache of prepared statements is bounded and right: after any operations in any order,
  successful or not, it holds at most 256 statements, one for each text, and every statement in it
  is one the database prepared for just that text.\<close>

theorem statement_cache_bounded:
  assumes "pg_reach E s"
  shows "length (stmt_cache s) \<le> 256 \<and> distinct (map fst (stmt_cache s))
    \<and> (\<forall>(sql, t) \<in> set (stmt_cache s). \<exists>k k'. prepare (pg_client E) sql k = (Inr t, k'))"
  using cache_ok_reach [OF assms] by (simp add: cache_ok_def STMT_CACHE_CAP_def)

text \<open>After one update.\<close>

theorem statement_cache_bounded_witness:
  "length (stmt_cache (snd (execute_simple_with_binds demo_env ''UPDATE t SET a = 1'' [] demo_state))) \<le> 256"
proof -
  have "pg_reach demo_env (snd (execute_simple_with_binds demo_env ''UPDATE t SET a = 1'' [] demo_state))"
    unfolding demo_state_def by (rule pg_reach.step [OF pg_reach.start pg_step.simple])
  from statement_cache_bounded [OF this] show ?thesis by blast
qed



text \<open>
  C19.  \<open>RETURNING\<close> comes to an end with every value: when the stream of a query delivers finitely
  many rows, reading it in batches returns, and the reply has their number and, for each column,
  the values of that column in the order of the rows.\<close>

theorem returning_by_column:
  assumes "delivers (pg_client E) rows_left"
    and "open_cursor_with_binds E sql binds LENIENT s = (Inr c, s1)"
  shows "\<exists>s2. execute_returning_rows E sql binds s = Some (Inr
      (let rows = map (encode_row (zones E) (tz_now s1) c) (rows_left (rc_stream c)) in
       (word_of_nat (length rows), map (\<lambda>i. map (\<lambda>row. row ! i) rows) [0..<length (rc_columns c)])), s2)"
  by (rule returning_rows [OF assms])

theorem returning_by_column_witness:
  "\<exists>s2. execute_returning_rows demo_env ''UPDATE t SET a = 1 RETURNING id'' [] demo_state
     = Some (Inr (1, [[Some (encode_oracle_number_i64 7)]]), s2)"
proof -
  obtain c s1 where o: "open_cursor_with_binds demo_env ''UPDATE t SET a = 1 RETURNING id'' [] LENIENT demo_state = (Inr c, s1)"
    and c: "rc_stream c = [[(demo_column, Some (PInt 7))]]" "length (rc_columns c) = 1" "col_type (rc_columns c ! 0) = 2"
    by (auto simp: demo_defs number_column_def described_type)
  have "encode_row cal tz c [(demo_column, Some (PInt 7))] = [Some (encode_oracle_number_i64 7)]" for cal tz
    using c(2,3) by (cases "rc_columns c") (simp_all add: encode_row_def row_cell_def get_at_def
        pg_value_to_oracle_bytes_def number_value_def)
  with returning_by_column [OF demo_delivers o] c show ?thesis by simp
qed

end
