(* ===== verification/Registry.thy ===== *)
theory Registry
  imports Ops Interfaces
begin

text \<open>
  The sessions of the process and the port that shows them (\<^verbatim>\<open>src/src/server.rs\<close>): the counters,
  the session registry, the accept loop and the session tasks as steps that interleave, and the
  HTTP requests of the health port.  Counters and session numbers are naturals: the 64-bit
  counters of the source do not wrap while fewer than \<open>2^64\<close> connections have been accepted.
\<close>

section \<open>The registry\<close>

text \<open>\<open>opened\<close> is the second of the clock a session was registered at.\<close>

record session_meta =
  peer :: string
  user_shown :: "string option"
  opened :: nat

text \<open>The map is kept in the order of the session numbers, in which it is listed.\<close>

type_synonym session_table = "(nat \<times> session_meta) list"

fun table_insert :: "nat \<Rightarrow> session_meta \<Rightarrow> session_table \<Rightarrow> session_table" where
  "table_insert i m [] = [(i, m)]"
| "table_insert i m ((j, n) # t) =
     (if i < j then (i, m) # (j, n) # t
      else if i = j then (i, m) # t
      else (j, n) # table_insert i m t)"

definition table_remove :: "nat \<Rightarrow> session_table \<Rightarrow> session_table" where
  "table_remove i t = filter (\<lambda>e. fst e \<noteq> i) t"

record counters =
  active_sessions :: nat
  sessions_total :: nat
  statements_total :: nat
  backend_errors_total :: nat

definition sessions_register :: "nat \<Rightarrow> nat \<Rightarrow> string \<Rightarrow> session_table \<Rightarrow> session_table" where
  "sessions_register now i addr t = table_insert i \<lparr>peer = addr, user_shown = None, opened = now\<rparr> t"

definition sessions_set_user :: "nat \<Rightarrow> string \<Rightarrow> session_table \<Rightarrow> session_table" where
  "sessions_set_user i user t = map (\<lambda>(j, m). (j, if j = i then m\<lparr>user_shown := Some user\<rparr> else m)) t"

text \<open>Whether the session is known; its task is then told to stop.\<close>

definition sessions_kill :: "nat \<Rightarrow> session_table \<Rightarrow> bool" where
  "sessions_kill i t \<longleftrightarrow> map_of t i \<noteq> None"

definition guard_enter :: "counters \<Rightarrow> counters" where
  "guard_enter c = c\<lparr>active_sessions := active_sessions c + 1, sessions_total := sessions_total c + 1\<rparr>"

definition guard_drop :: "counters \<Rightarrow> counters" where
  "guard_drop c = c\<lparr>active_sessions := active_sessions c - 1\<rparr>"

section \<open>Texts\<close>

definition newline :: string where
  "newline = [CHR 0x0A]"

definition metric :: "string \<Rightarrow> string \<Rightarrow> string \<Rightarrow> nat \<Rightarrow> string" where
  "metric name help kind n =
     ''# HELP '' @ name @ '' '' @ help @ newline @ ''# TYPE '' @ name @ '' '' @ kind @ newline
       @ name @ '' '' @ show_nat n @ newline"

definition render_metrics :: "counters \<Rightarrow> string" where
  "render_metrics c =
     metric ''dbsaci_sessions_active'' ''Currently connected Oracle sessions.'' ''gauge'' (active_sessions c)
     @ metric ''dbsaci_sessions_total'' ''Sessions accepted since start.'' ''counter'' (sessions_total c)
     @ metric ''dbsaci_statements_total'' ''Execute/Fetch/DML calls served.'' ''counter'' (statements_total c)
     @ metric ''dbsaci_backend_errors_total'' ''PostgreSQL errors mapped and returned to clients.'' ''counter''
         (backend_errors_total c)"

definition quote :: char where
  "quote = CHR 0x22"

definition backslash :: char where
  "backslash = CHR 0x5C"

text \<open>A character of more than one byte is copied byte by byte: none of its bytes is tested for.\<close>

definition escape_char :: "char \<Rightarrow> string" where
  "escape_char c =
     (if c = quote then [backslash, quote]
      else if c = backslash then [backslash, backslash]
      else if c = CHR 0x0A then backslash # ''n''
      else if c = CHR 0x0D then backslash # ''r''
      else if c = CHR 0x09 then backslash # ''t''
      else if code c < 0x20 then backslash # CHR ''u'' # fmt_hex 4 (code c)
      else [c])"

definition json_escape :: "string \<Rightarrow> string" where
  "json_escape s = concat (map escape_char s)"

definition json_field :: "string \<Rightarrow> string" where
  "json_field name = quote # name @ [quote, CHR '':'']"

definition session_json :: "nat \<Rightarrow> nat \<times> session_meta \<Rightarrow> string" where
  "session_json now e = (case e of (i, m) \<Rightarrow>
     ''{'' @ json_field ''id'' @ show_nat i @ '','' @ json_field ''addr'' @ quote # json_escape (peer m) @ quote # '',''
       @ json_field ''user'' @ quote # json_escape (unwrap_or [] (user_shown m)) @ quote # '',''
       @ json_field ''age_seconds'' @ show_nat (now - opened m) @ ''}'')"

fun separated :: "string list \<Rightarrow> string" where
  "separated [] = []"
| "separated [s] = s"
| "separated (s # ss) = s @ '','' @ separated ss"

definition render_sessions_json :: "nat \<Rightarrow> session_table \<Rightarrow> string" where
  "render_sessions_json now t = ''['' @ separated (map (session_json now) t) @ '']''"

section \<open>The health port\<close>

text \<open>\<^verbatim>\<open>str::parse::<u64>\<close>.\<close>

definition parse_u64 :: "string \<Rightarrow> nat option" where
  "parse_u64 s = (let ds = (case s of c # r \<Rightarrow> if c = CHR ''+'' then r else s | [] \<Rightarrow> s) in
     if ds = [] \<or> \<not> list_all is_ascii_digit ds \<or> 2 ^ 64 \<le> parse_digits ds then None else Some (parse_digits ds))"

text \<open>What the port reads: the process's tables, the clock, whether the database port answers.\<close>

record health =
  table :: session_table
  count :: counters
  clock_now :: nat
  database_up :: bool

definition request_line :: "string \<Rightarrow> string" where
  "request_line head = (case lines_of head of [] \<Rightarrow> [] | l # _ \<Rightarrow> l)"

definition auth_line :: "string \<Rightarrow> string option" where
  "auth_line head = find (\<lambda>l. let l = to_ascii_lowercase l in
     starts_with l ''authorization:'' \<or> starts_with l ''x-dbsaci-token:'') (lines_of head)"

definition method_and_path :: "string \<Rightarrow> string \<times> string" where
  "method_and_path line = (case split_whitespace line of
       [] \<Rightarrow> (''GET'', ''/'')
     | [m] \<Rightarrow> (m, ''/'')
     | m # p # _ \<Rightarrow> (m, p))"

text \<open>The request for one session; the number of the session to stop, when there is one.\<close>

definition session_request :: "bool \<Rightarrow> session_table \<Rightarrow> string \<Rightarrow> string \<Rightarrow> (string \<times> string) \<times> nat option" where
  "session_request sessions_ok t method rest =
     (case parse_u64 (takeWhile (\<lambda>c. c \<noteq> CHR ''/'' \<and> c \<noteq> CHR ''?'') rest) of
         None \<Rightarrow> ((''400 Bad Request'', ''session id must be a number''), None)
       | Some i \<Rightarrow>
           if method = ''DELETE'' \<or> method = ''POST''
           then (if \<not> sessions_ok
                 then ((''401 Unauthorized'', ''session kill requires Authorization: Bearer <token>''), None)
                 else if sessions_kill i t then ((''200 OK'', ''killed session '' @ show_nat i), Some i)
                 else ((''404 Not Found'', ''no session '' @ show_nat i), None))
           else ((''405 Method Not Allowed'', ''use DELETE /sessions/<id> to kill a session''), None))"

definition answer :: "bool \<Rightarrow> health \<Rightarrow> string \<Rightarrow> string \<Rightarrow> (string \<times> string) \<times> nat option" where
  "answer sessions_ok h method path =
     (if path = ''/sessions'' \<or> path = ''/sessions/''
      then (if sessions_ok then ((''200 OK'', render_sessions_json (clock_now h) (table h)), None)
            else ((''401 Unauthorized'', ''session list requires Authorization: Bearer <token>''), None))
      else (case strip_prefix path ''/sessions/'' of
          Some rest \<Rightarrow> session_request sessions_ok (table h) method rest
        | None \<Rightarrow>
            ((if starts_with path ''/readyz''
              then (if database_up h then (''200 OK'', ''ready'') else (''503 Service Unavailable'', ''backend unreachable''))
              else if starts_with path ''/healthz'' then (''200 OK'', ''ok'')
              else if starts_with path ''/metrics'' then (''200 OK'', render_metrics (count h))
              else (''404 Not Found'', ''not found'')), None)))"

definition crlf :: string where
  "crlf = [CHR 0x0D, CHR 0x0A]"

definition http_response :: "string \<times> string \<Rightarrow> string" where
  "http_response r = (case r of (status, body) \<Rightarrow>
     ''HTTP/1.1 '' @ status @ crlf @ ''content-type: ''
       @ (if starts_with body ''['' \<or> starts_with body ''{'' then ''application/json'' else ''text/plain'') @ crlf
       @ ''content-length: '' @ show_nat (length body) @ crlf @ ''connection: close'' @ crlf @ crlf @ body)"

text \<open>One connection: the first 1024 bytes it sends, the response, the session it stops.\<close>

definition serve_health :: "health_auth \<Rightarrow> health \<Rightarrow> bytes \<Rightarrow> string \<times> nat option" where
  "serve_health auth h received =
     (let head = from_utf8_lossy (take 1024 received);
          sessions_ok = authorize_sessions auth (auth_line head)
      in case method_and_path (request_line head) of (method, path) \<Rightarrow>
        (case answer sessions_ok h method path of (r, killed) \<Rightarrow> (http_response r, killed)))"

section \<open>The accept loop and the session tasks\<close>

text \<open>
  A task is spawned by the accept loop, which registers its session afterwards; it runs between
  entering and dropping its guards, and dropping removes its session.  A task that is told to
  stop ends at its next wait, before its first step too.
\<close>

datatype phase = Spawned | Running | Ended

record process =
  next_session :: nat
  tasks :: "(nat \<times> phase) list"
  accepting :: "(nat \<times> string) option"
  registry :: session_table
  counts :: counters
  stopped :: "nat list"

definition boot :: process where
  "boot = \<lparr>next_session = 1, tasks = [], accepting = None, registry = [],
     counts = \<lparr>active_sessions = 0, sessions_total = 0, statements_total = 0, backend_errors_total = 0\<rparr>, stopped = []\<rparr>"

definition set_phase :: "nat \<Rightarrow> phase \<Rightarrow> (nat \<times> phase) list \<Rightarrow> (nat \<times> phase) list" where
  "set_phase i p ts = map (\<lambda>(j, q). (j, if j = i then p else q)) ts"

inductive srv_step :: "process \<Rightarrow> process \<Rightarrow> bool" where
  accept: "accepting s = None \<Longrightarrow> srv_step s (s\<lparr>next_session := next_session s + 1,
     tasks := tasks s @ [(next_session s, Spawned)], accepting := Some (next_session s, addr)\<rparr>)"
| register: "accepting s = Some (i, addr) \<Longrightarrow>
     srv_step s (s\<lparr>registry := sessions_register now i addr (registry s), accepting := None\<rparr>)"
| enter: "(i, Spawned) \<in> set (tasks s) \<Longrightarrow>
     srv_step s (s\<lparr>tasks := set_phase i Running (tasks s), counts := guard_enter (counts s)\<rparr>)"
| set_user: "(i, Running) \<in> set (tasks s) \<Longrightarrow> srv_step s (s\<lparr>registry := sessions_set_user i u (registry s)\<rparr>)"
| leave: "(i, Running) \<in> set (tasks s) \<Longrightarrow>
     srv_step s (s\<lparr>tasks := set_phase i Ended (tasks s), registry := table_remove i (registry s),
       counts := guard_drop (counts s)\<rparr>)"
| kill: "sessions_kill i (registry s) \<Longrightarrow> srv_step s (s\<lparr>stopped := i # stopped s\<rparr>)"
| never_ran: "(i, Spawned) \<in> set (tasks s) \<Longrightarrow> i \<in> set (stopped s) \<Longrightarrow>
     srv_step s (s\<lparr>tasks := set_phase i Ended (tasks s)\<rparr>)"

inductive srv_reach :: "process \<Rightarrow> bool" where
  boot: "srv_reach boot"
| step: "srv_reach s \<Longrightarrow> srv_step s s' \<Longrightarrow> srv_reach s'"

interpretation session_map: removable_table id table_insert map_of table_remove
proof
  fix i j :: nat and m :: session_meta and t :: session_table
  show "map_of (table_insert i m t) j = (if id j = id i then Some m else map_of t j)"
    by (induction i m t rule: table_insert.induct) auto
  show "map_of (table_remove i t) j = (if id j = id i then None else map_of t j)"
    by (induction t) (auto simp: table_remove_def)
qed

lemma map_of_set_user:
  "map_of (sessions_set_user i u t) j = map_option (\<lambda>m. if j = i then m\<lparr>user_shown := Some u\<rparr> else m) (map_of t j)"
  by (induction t) (auto simp: sessions_set_user_def)

section \<open>Counting the live sessions\<close>

definition live :: "process \<Rightarrow> nat list" where
  "live s = map fst (filter (\<lambda>t. snd t = Running) (tasks s))"

text \<open>A session is known when it is listed, or about to be.\<close>

definition known :: "process \<Rightarrow> nat \<Rightarrow> bool" where
  "known s i \<longleftrightarrow> map_option fst (accepting s) = Some i \<or> map_of (registry s) i \<noteq> None"

definition process_ok :: "process \<Rightarrow> bool" where
  "process_ok s \<longleftrightarrow> distinct (map fst (tasks s)) \<and> (\<forall>i \<in> fst ` set (tasks s). i < next_session s)
     \<and> active_sessions (counts s) = length (live s)
     \<and> (\<forall>i p. (i, p) \<in> set (tasks s) \<longrightarrow> p \<noteq> Ended \<longrightarrow> known s i)"

lemma set_phase_fst [simp]: "map fst (set_phase i p ts) = map fst ts"
  by (auto simp: set_phase_def)

lemma set_phase_live:
  assumes "distinct (map fst ts)" "(i, q) \<in> set ts"
  shows "int (length (filter (\<lambda>t. snd t = Running) (set_phase i p ts)))
    = int (length (filter (\<lambda>t. snd t = Running) ts)) + (if p = Running then 1 else 0) - (if q = Running then 1 else 0)"
  using assms
proof (induction ts)
  case (Cons t ts)
  obtain j r where t: "t = (j, r)" by force
  show ?case
  proof (cases "j = i")
    case True
    with Cons.prems t have "i \<notin> fst ` set ts" by auto
    then have "set_phase i p ts = ts" by (force simp: set_phase_def intro!: map_idI)
    moreover from True Cons.prems t have "r = q" by (force simp: rev_image_eqI)
    ultimately show ?thesis using True t by (auto simp: set_phase_def)
  next
    case False
    with Cons t show ?thesis by (auto simp: set_phase_def)
  qed
qed simp

lemma set_phase_mem: "(j, r) \<in> set (set_phase i p ts) \<longleftrightarrow> (if j = i then r = p \<and> i \<in> fst ` set ts else (j, r) \<in> set ts)"
  by (force simp: set_phase_def)

lemma live_mem: "i \<in> set (live s) \<longleftrightarrow> (i, Running) \<in> set (tasks s)"
  by (force simp: live_def)

lemma live_length: "length (live s) = length (filter (\<lambda>t. snd t = Running) (tasks s))"
  by (simp add: live_def)

lemma set_phase_ids [simp]: "fst ` set (set_phase i p ts) = fst ` set ts"
  by (force simp: set_phase_def)

lemma live_pos: "(i, Running) \<in> set (tasks s) \<Longrightarrow> 0 < length (live s)"
  using live_mem [of i s] by (auto simp: length_pos_if_in_set)

lemma process_ok_step: "srv_step s s' \<Longrightarrow> process_ok s \<Longrightarrow> process_ok s'"
proof (induction rule: srv_step.induct)
  case (accept s addr)
  then show ?case
    by (auto simp: process_ok_def live_def known_def dest: less_imp_neq)
next
  case (register s i addr now)
  then show ?case
    by (auto simp: process_ok_def live_def known_def sessions_register_def session_map.look_ins)
next
  case (enter i s)
  have "length (live (s\<lparr>tasks := set_phase i Running (tasks s), counts := guard_enter (counts s)\<rparr>)) = length (live s) + 1"
    using enter set_phase_live [of "tasks s" i Spawned Running] by (simp add: live_length process_ok_def)
  with enter show ?case
    by (auto simp: process_ok_def known_def guard_enter_def set_phase_mem split: if_splits)
next
  case (set_user i s u)
  then show ?case by (auto simp: process_ok_def live_def known_def map_of_set_user)
next
  case (leave i s)
  have "length (live (s\<lparr>tasks := set_phase i Ended (tasks s), registry := table_remove i (registry s),
      counts := guard_drop (counts s)\<rparr>)) = length (live s) - 1"
    using leave set_phase_live [of "tasks s" i Running Ended] live_pos [OF leave(1)] by (simp add: live_length process_ok_def)
  with leave show ?case
    by (auto simp: process_ok_def known_def guard_drop_def set_phase_mem session_map.look_del split: if_splits)
next
  case (kill i s)
  then show ?case by (auto simp: process_ok_def live_def known_def)
next
  case (never_ran i s)
  have "length (live (s\<lparr>tasks := set_phase i Ended (tasks s)\<rparr>)) = length (live s)"
    using never_ran set_phase_live [of "tasks s" i Spawned Ended] by (simp add: live_length process_ok_def)
  with never_ran show ?case
    by (auto simp: process_ok_def known_def set_phase_mem split: if_splits)
qed

lemma process_ok_reach: "srv_reach s \<Longrightarrow> process_ok s"
proof (induction rule: srv_reach.induct)
  case boot
  show ?case by (simp add: process_ok_def boot_def live_def)
qed (rule process_ok_step)

section \<open>Reading JSON\<close>

text \<open>A JSON string from behind its opening quote on: the text and what follows the closing quote.\<close>

definition hex_code :: "string \<Rightarrow> nat" where
  "hex_code s = foldl (\<lambda>n c. 16 * n + unwrap_or 0 (hex_digit c)) 0 s"

fun read_json_string :: "string \<Rightarrow> (string \<times> string) option" where
  "read_json_string [] = None"
| "read_json_string (c # s) =
     (if c = quote then Some ([], s)
      else if code c < 0x20 then None
      else if c \<noteq> backslash then map_option (\<lambda>(t, r). (c # t, r)) (read_json_string s)
      else (case s of
          [] \<Rightarrow> None
        | e # s' \<Rightarrow>
            if e = quote \<or> e = backslash then map_option (\<lambda>(t, r). (e # t, r)) (read_json_string s')
            else if e = CHR ''n'' then map_option (\<lambda>(t, r). (CHR 0x0A # t, r)) (read_json_string s')
            else if e = CHR ''r'' then map_option (\<lambda>(t, r). (CHR 0x0D # t, r)) (read_json_string s')
            else if e = CHR ''t'' then map_option (\<lambda>(t, r). (CHR 0x09 # t, r)) (read_json_string s')
            else if e = CHR ''u'' \<and> 4 \<le> length s'
            then map_option (\<lambda>(t, r). (char_of (hex_code (take 4 s')) # t, r)) (read_json_string (drop 4 s'))
            else None))"

lemma code_lt: "code c < n \<Longrightarrow> c = char_of (code c) \<and> code c < n"
  by (simp add: code_def)

lemma hex_digit_char:
  assumes "d < 16"
  shows "hex_digit (hex_char d) = Some d"
proof (cases "d < 10")
  case True
  then show ?thesis by (simp add: hex_digit_def hex_char_def code_digit_char)
next
  case False
  then have "code (hex_char d) = 87 + d" using assms by (simp add: hex_char_def code_def)
  with False assms show ?thesis by (simp add: hex_digit_def is_ascii_digit_def)
qed

lemma small_hex:
  assumes "n < 32"
  shows "\<exists>a b c d. fmt_hex 4 n = [a, b, c, d] \<and> hex_code [a, b, c, d] = n"
proof -
  have z: "hex_digit (CHR ''0'') = Some 0" by (simp add: hex_digit_def is_ascii_digit_def code_def)
  have r: "replicate 3 (CHR ''0'') = ''000''" "replicate 2 (CHR ''0'') = ''00''"
    by (simp_all add: numeral_eq_Suc)
  have "n div 16 < 16" using assms by linarith
  then have u: "show_hex n = (if n < 16 then [hex_char n] else [hex_char (n div 16), hex_char (n mod 16)])"
    using assms by (simp add: show_hex.simps [of n] show_hex.simps [of "n div 16"])
  have "hex_digit (hex_char (n div 16)) = Some (n div 16)" "hex_digit (hex_char (n mod 16)) = Some (n mod 16)"
    using assms by (auto intro: hex_digit_char)
  moreover have "n < 16 \<Longrightarrow> hex_digit (hex_char n) = Some n" by (rule hex_digit_char)
  moreover have "16 * (n div 16) + n mod 16 = n" by simp
  ultimately show ?thesis
    using z by (cases "n < 16") (simp_all add: fmt_hex_def pad0_def u hex_code_def unwrap_or_def r)
qed

lemma special_chars:
  "code quote = 34" "code backslash = 92" "quote \<noteq> backslash" "backslash \<noteq> quote" "CHR ''n'' \<noteq> quote" "CHR ''n'' \<noteq> backslash"
  "CHR ''r'' \<noteq> quote" "CHR ''r'' \<noteq> backslash" "CHR ''t'' \<noteq> quote" "CHR ''t'' \<noteq> backslash"
  "CHR ''u'' \<noteq> quote" "CHR ''u'' \<noteq> backslash"
  by (simp_all add: quote_def backslash_def code_def)

lemma read_escaped_char:
  "read_json_string (escape_char c @ s) = map_option (\<lambda>(t, r). (c # t, r)) (read_json_string s)"
proof (cases "c = quote \<or> c = backslash \<or> c = CHR 0x0A \<or> c = CHR 0x0D \<or> c = CHR 0x09")
  case True
  then show ?thesis
    by (elim disjE; simp add: escape_char_def quote_def backslash_def code_def)
next
  case False
  show ?thesis
  proof (cases "code c < 0x20")
    case True
    then obtain h1 h2 h3 h4 where h: "fmt_hex 4 (code c) = [h1, h2, h3, h4]" "hex_code [h1, h2, h3, h4] = code c"
      using small_hex by fastforce
    then have "char_of (hex_code [h1, h2, h3, h4]) = c" by (simp add: code_def)
    with False True h(1) show ?thesis by (simp add: escape_char_def special_chars)
  next
    case big: False
    with False show ?thesis by (simp add: escape_char_def)
  qed
qed

lemma read_escaped: "read_json_string (json_escape s @ quote # r) = Some (s, r)"
  by (induction s) (simp_all add: json_escape_def read_escaped_char)

text \<open>The objects and the list that \<open>/sessions\<close> shows.\<close>

definition expect :: "string \<Rightarrow> string \<Rightarrow> string option" where
  "expect p s = strip_prefix s p"

definition read_digits :: "string \<Rightarrow> nat \<times> string" where
  "read_digits s = (parse_digits (takeWhile is_ascii_digit s), dropWhile is_ascii_digit s)"

definition read_session :: "string \<Rightarrow> ((nat \<times> string \<times> string \<times> nat) \<times> string) option" where
  "read_session s =
     Option.bind (expect (''{'' @ json_field ''id'') s) (\<lambda>s. case read_digits s of (i, s) \<Rightarrow>
     Option.bind (expect ('','' @ json_field ''addr'' @ [quote]) s) (\<lambda>s.
     Option.bind (read_json_string s) (\<lambda>(a, s).
     Option.bind (expect ('','' @ json_field ''user'' @ [quote]) s) (\<lambda>s.
     Option.bind (read_json_string s) (\<lambda>(u, s).
     Option.bind (expect ('','' @ json_field ''age_seconds'') s) (\<lambda>s. case read_digits s of (age, s) \<Rightarrow>
     map_option (\<lambda>s. ((i, a, u, age), s)) (expect ''}'' s)))))))"

lemma expect_append [simp]: "expect p (p @ s) = Some s"
  by (simp add: expect_def strip_prefix_def starts_with_iff)

lemma read_digits_show: "\<not> is_ascii_digit c \<Longrightarrow> read_digits (show_nat n @ c # s) = (n, c # s)"
  using show_nat_digits [of n]
  by (simp add: read_digits_def list_all_iff takeWhile_append2 dropWhile_append2)

definition shown :: "nat \<Rightarrow> nat \<times> session_meta \<Rightarrow> nat \<times> string \<times> string \<times> nat" where
  "shown now e = (fst e, peer (snd e), unwrap_or [] (user_shown (snd e)), now - opened (snd e))"

lemma read_session_json: "read_session (session_json now e @ r) = Some (shown now e, r)"
proof -
  obtain i m where e: "e = (i, m)" by force
  have d: "\<not> is_ascii_digit (CHR '','')" "\<not> is_ascii_digit (CHR ''}'')"
    by (simp_all add: is_ascii_digit_def code_def)
  let ?r5 = "show_nat (now - opened m) @ CHR ''}'' # r"
  let ?r4 = "('','' @ json_field ''age_seconds'') @ ?r5"
  let ?r3 = "json_escape (unwrap_or [] (user_shown m)) @ quote # ?r4"
  let ?r2 = "('','' @ json_field ''user'' @ [quote]) @ ?r3"
  let ?r1 = "json_escape (peer m) @ quote # ?r2"
  let ?r0 = "('','' @ json_field ''addr'' @ [quote]) @ ?r1"
  have s: "session_json now (i, m) @ r = (''{'' @ json_field ''id'') @ show_nat i @ ?r0"
    by (simp add: session_json_def)
  have q: "read_digits (show_nat i @ ?r0) = (i, ?r0)" using read_digits_show [OF d(1)] by simp
  have q': "read_digits ?r5 = (now - opened m, CHR ''}'' # r)" by (rule read_digits_show [OF d(2)])
  have q'': "expect ''}'' (CHR ''}'' # r) = Some r" using expect_append [of "''}''" r] by simp
  show ?thesis
    unfolding e by (simp only: s read_session_def expect_append Option.bind.simps read_escaped prod.case q q' q'' option.map
        shown_def fst_conv snd_conv)
qed

function read_items :: "string \<Rightarrow> (nat \<times> string \<times> string \<times> nat) list option" where
  "read_items s = (case read_session s of
       None \<Rightarrow> None
     | Some (e, r) \<Rightarrow>
         (if r = '']'' then Some [e]
          else if r \<noteq> [] \<and> hd r = CHR '','' \<and> length r < length s then map_option (\<lambda>es. e # es) (read_items (tl r))
          else None))"
  by pat_completeness auto
termination
  by (relation "measure length") (auto simp: length_tl)

declare read_items.simps [simp del]

definition read_sessions :: "string \<Rightarrow> (nat \<times> string \<times> string \<times> nat) list option" where
  "read_sessions s = (if s = ''[]'' then Some []
     else (case s of c # r \<Rightarrow> if c = CHR ''['' then read_items r else None | [] \<Rightarrow> None))"

lemma read_items_rendered:
  "t \<noteq> [] \<Longrightarrow> read_items (separated (map (session_json now) t) @ '']'') = Some (map (shown now) t)"
proof (induction t rule: induct_list012)
  case (2 e)
  then show ?case by (subst read_items.simps) (simp add: read_session_json)
next
  case (3 e f t)
  let ?r = "CHR '','' # separated (map (session_json now) (f # t)) @ '']''"
  have "session_json now e \<noteq> []" by (cases e) (simp add: session_json_def)
  then have l: "length ?r < length (session_json now e @ ?r)" by simp
  have s: "separated (map (session_json now) (e # f # t)) @ '']'' = session_json now e @ ?r" by simp
  show ?case
    unfolding s using l 3(2) by (subst read_items.simps) (simp add: read_session_json)
qed simp

lemma sessions_read: "read_sessions (render_sessions_json now t) = Some (map (shown now) t)"
proof (cases t)
  case Nil
  then show ?thesis by (simp add: render_sessions_json_def read_sessions_def)
next
  case (Cons e t')
  have "session_json now e \<noteq> []" "hd (session_json now e) \<noteq> CHR '']''" by (cases e; simp add: session_json_def)+
  then have "render_sessions_json now t \<noteq> ''[]''"
    unfolding render_sessions_json_def Cons by (cases t') (auto simp: append_eq_Cons_conv neq_Nil_conv)
  with read_items_rendered [of t now] show ?thesis
    unfolding Cons by (simp add: read_sessions_def render_sessions_json_def)
qed

section \<open>Requests without authorization\<close>

lemma answer_blind:
  assumes "count h = count h'" "clock_now h = clock_now h'" "database_up h = database_up h'"
  shows "answer False h method path = answer False h' method path \<and> snd (answer False h method path) = None"
  using assms by (auto simp: answer_def session_request_def split: option.split)

section \<open>The properties\<close>

text \<open>
  C15.  The counters and the session list tell the truth while tasks start, run, end, are killed and
  register in any order: the gauge of active sessions is the number of session tasks that are
  running, and every running session is listed, or is the one the accept loop is about to register.\<close>

theorem sessions_accounted:
  assumes "srv_reach s"
  shows "active_sessions (counts s) = length (live s)
    \<and> (\<forall>i \<in> set (live s). map_option fst (accepting s) = Some i \<or> map_of (registry s) i \<noteq> None)"
  using process_ok_reach [OF assms] by (auto simp: process_ok_def live_mem known_def)

text \<open>One connection, accepted, registered, and started.\<close>

definition one_session :: process where
  "one_session = \<lparr>next_session = 2, tasks = [(1, Running)], accepting = None,
     registry = [(1, \<lparr>peer = ''10.0.0.1:40000'', user_shown = None, opened = 5\<rparr>)],
     counts = \<lparr>active_sessions = 1, sessions_total = 1, statements_total = 0, backend_errors_total = 0\<rparr>, stopped = []\<rparr>"

theorem sessions_accounted_witness: "live one_session = [1] \<and> active_sessions (counts one_session) = length (live one_session)"
proof -
  have "srv_reach one_session"
  proof -
    have a: "srv_reach (boot\<lparr>next_session := 2, tasks := [(1, Spawned)], accepting := Some (1, ''10.0.0.1:40000'')\<rparr>)"
      using srv_reach.step [OF srv_reach.boot srv_step.accept [of boot "''10.0.0.1:40000''"]] by (simp add: numeral_2_eq_2 boot_def)
    have b: "srv_reach (boot\<lparr>next_session := 2, tasks := [(1, Spawned)], accepting := None,
        registry := [(1, \<lparr>peer = ''10.0.0.1:40000'', user_shown = None, opened = 5\<rparr>)]\<rparr>)"
      using srv_reach.step [OF a srv_step.register [where now = 5]] by (simp add: numeral_2_eq_2 boot_def sessions_register_def)
    show ?thesis
      using srv_reach.step [OF b srv_step.enter [of 1]] by (simp add: numeral_2_eq_2 boot_def one_session_def set_phase_def guard_enter_def)
  qed
  from sessions_accounted [OF this] show ?thesis by (simp add: live_def one_session_def)
qed




text \<open>
  C20.  The session list is well-formed whatever names the clients sent: reading the JSON back gives
  every session's number, address, user and age, so no quote, backslash or control character in a
  user name or address ends its string or adds an entry.\<close>

theorem sessions_json_read_back:
  "read_sessions (render_sessions_json now t) = Some (map (shown now) t)"
  by (rule sessions_read)

end
