(* ===== verification/Sql_Text.thy ===== *)
theory Sql_Text
  imports Binds
begin

text \<open>
  The text passes over Oracle SQL that come before parsing (\<^verbatim>\<open>src/src/translate/mod.rs\<close>): the
  scanners for literals, parentheses and keywords, quoting, session settings, sequence
  pseudo-columns, and the word-by-word rewriting of Oracle names.  The source walks byte offsets;
  here the walk is over the text that is left, with the text gone by where the source looks back.
\<close>

section \<open>Scanners\<close>

text \<open>Offset one past the quoted token that opens at \<open>start\<close>.\<close>

definition skip_quoted :: "string \<Rightarrow> nat \<Rightarrow> nat" where
  "skip_quoted sql start = start + 1 + quoted_len (sql ! start) (drop (start + 1) sql)"

text \<open>The state of a scan: parenthesis depth and the open quote.\<close>

record scan =
  depth :: int
  in_quote :: "char option"

definition scan_start :: scan where
  "scan_start = \<lparr>depth = 0, in_quote = None\<rparr>"

definition scan_char :: "char \<Rightarrow> scan \<Rightarrow> scan" where
  "scan_char c st = (case in_quote st of
       None \<Rightarrow>
         if c = quote_mark \<or> c = DQUOTE then st\<lparr>in_quote := Some c\<rparr>
         else if c = CHR ''('' then st\<lparr>depth := depth st + 1\<rparr>
         else if c = CHR '')'' then st\<lparr>depth := depth st - 1\<rparr>
         else st
     | Some q \<Rightarrow> if c = q then st\<lparr>in_quote := None\<rparr> else st)"

definition top_level :: "scan \<Rightarrow> bool" where
  "top_level st \<longleftrightarrow> depth st = 0 \<and> in_quote st = None"

text \<open>\<open>part\<close> is the part begun.\<close>

fun split_commas_from :: "scan \<Rightarrow> string \<Rightarrow> string \<Rightarrow> string list" where
  "split_commas_from st part [] = [part]"
| "split_commas_from st part (c # s) =
     (if c = CHR '','' \<and> top_level st then part # split_commas_from st [] s
      else split_commas_from (scan_char c st) (part @ [c]) s)"

definition split_top_level_commas :: "string \<Rightarrow> string list" where
  "split_top_level_commas s = split_commas_from scan_start [] s"

fun split_comma_from :: "scan \<Rightarrow> string \<Rightarrow> string \<Rightarrow> (string \<times> string) option" where
  "split_comma_from st part [] = None"
| "split_comma_from st part (c # s) =
     (if c = CHR '','' \<and> top_level st then Some (part, s)
      else split_comma_from (scan_char c st) (part @ [c]) s)"

definition split_top_level_comma :: "string \<Rightarrow> (string \<times> string) option" where
  "split_top_level_comma s = split_comma_from scan_start [] s"

text \<open>The operator is not looked for at the first byte.\<close>

fun split_binary_from :: "char \<Rightarrow> scan \<Rightarrow> string \<Rightarrow> string \<Rightarrow> (string \<times> string) option" where
  "split_binary_from op st part [] = None"
| "split_binary_from op st part (c # s) =
     (if c = op \<and> scan_char c st = st \<and> top_level st \<and> part \<noteq> [] then Some (part, s)
      else split_binary_from op (scan_char c st) (part @ [c]) s)"

definition split_top_level_binary :: "string \<Rightarrow> char \<Rightarrow> (string \<times> string) option" where
  "split_top_level_binary s op = split_binary_from op scan_start [] s"

fun matching_from :: "scan \<Rightarrow> nat \<Rightarrow> string \<Rightarrow> nat option" where
  "matching_from st i [] = None"
| "matching_from st i (c # s) =
     (if c = CHR '')'' \<and> in_quote st = None \<and> depth st - 1 = 0 then Some i
      else matching_from (scan_char c st) (i + 1) s)"

definition matching_paren :: "string \<Rightarrow> nat option" where
  "matching_paren s = matching_from scan_start 0 s"

text \<open>A keyword is looked for between white space; \<open>before\<close> is the byte gone by.\<close>

definition space_next :: "string \<Rightarrow> bool" where
  "space_next s \<longleftrightarrow> (case s of [] \<Rightarrow> True | c # _ \<Rightarrow> is_ascii_whitespace c)"

fun find_kw_from :: "string \<Rightarrow> scan \<Rightarrow> char option \<Rightarrow> nat \<Rightarrow> string \<Rightarrow> nat option" where
  "find_kw_from kw st before i [] = None"
| "find_kw_from kw st before i (c # s) =
     (if scan_char c st = st \<and> top_level st
         \<and> (case before of None \<Rightarrow> False | Some b \<Rightarrow> is_ascii_whitespace b)
         \<and> starts_with (to_ascii_uppercase (c # s)) kw \<and> space_next (drop (length kw) (c # s))
      then Some i
      else find_kw_from kw (scan_char c st) (Some c) (i + 1) s)"

definition find_top_level_kw :: "string \<Rightarrow> string \<Rightarrow> nat option" where
  "find_top_level_kw s kw = find_kw_from kw scan_start None 0 s"

lemma find_kw_bound: "find_kw_from kw st b i s = Some j \<Longrightarrow> i \<le> j \<and> j < i + length s"
  by (induction kw st b i s rule: find_kw_from.induct) (fastforce split: if_splits)+

text \<open>Never at the start of the text.\<close>

lemma find_kw_later: "find_kw_from kw st None i s = Some j \<Longrightarrow> i < j"
  using find_kw_bound [of kw _ _ "i + 1"] by (cases s) (auto split: if_splits dest!: find_kw_bound)

lemma find_top_level_bound: "find_top_level_kw s kw = Some at \<Longrightarrow> 0 < at \<and> at < length s"
  using find_kw_bound [of kw scan_start None 0 s at] find_kw_later [of kw scan_start 0 s at]
  by (simp add: find_top_level_kw_def)

function split_top_level_kw :: "string \<Rightarrow> string \<Rightarrow> string list" where
  "split_top_level_kw s kw = (case find_top_level_kw s kw of
       None \<Rightarrow> [s]
     | Some at \<Rightarrow> take at s # split_top_level_kw (drop (at + length kw) s) kw)"
  by pat_completeness auto
termination
  by (relation "measure (\<lambda>(s, kw). length s)") (auto dest!: find_top_level_bound)

declare split_top_level_kw.simps [simp del]

definition starts_keyword :: "string \<Rightarrow> string \<Rightarrow> bool" where
  "starts_keyword tail keyword \<longleftrightarrow> starts_with tail keyword
     \<and> (case drop (length keyword) tail of [] \<Rightarrow> True | c # _ \<Rightarrow> \<not> ident_char c)"

definition replace_ddl_prefix :: "string \<Rightarrow> string \<Rightarrow> string \<Rightarrow> string" where
  "replace_ddl_prefix sql oracle pg =
     (let tail = trim_start sql; leading = take (length sql - length tail) sql in
      if starts_with (to_ascii_uppercase tail) oracle \<and> space_next (drop (length oracle) tail)
      then leading @ pg @ drop (length oracle) tail
      else sql)"

definition is_single_case :: "string \<Rightarrow> bool" where
  "is_single_case s \<longleftrightarrow> \<not> (list_ex is_ascii_uppercase s \<and> list_ex is_ascii_lowercase s)"

section \<open>Quoted identifiers\<close>

text \<open>
  The pass that lowers quoted identifiers in capitals.  \<open>None\<close> stands for a panic: an identifier
  that is not closed is sliced one byte short, which fails when nothing follows the quote or the
  slice ends inside a character.
\<close>

definition upper_ident :: "string \<Rightarrow> bool" where
  "upper_ident s \<longleftrightarrow> (case s of [] \<Rightarrow> False
     | c # _ \<Rightarrow> (is_ascii_uppercase c \<or> c = CHR ''_'')
         \<and> list_all (\<lambda>c. is_ascii_uppercase c \<or> is_ascii_digit c \<or> c = CHR ''_'' \<or> c = CHR ''$'') s)"

definition fold_identifier :: "string \<Rightarrow> string option" where
  "fold_identifier quoted =
     (if length quoted < 2 \<or> is_cont (byte_of (last quoted)) then None
      else let inner = butlast (tl quoted) in
        Some (if upper_ident inner then DQUOTE # to_ascii_lowercase inner @ [DQUOTE] else quoted))"

function fold_uppercase_quoted_identifiers :: "string \<Rightarrow> string option" where
  "fold_uppercase_quoted_identifiers s =
     (if s = [] then Some []
      else if 0 < opaque_len s
      then Option.bind (if hd s = DQUOTE then fold_identifier (take (opaque_len s) s) else Some (take (opaque_len s) s))
        (\<lambda>t. map_option ((@) t) (fold_uppercase_quoted_identifiers (drop (opaque_len s) s)))
      else map_option ((#) (hd s)) (fold_uppercase_quoted_identifiers (tl s)))"
  by pat_completeness auto
termination
  by (relation "measure length") auto

declare fold_uppercase_quoted_identifiers.simps [simp del]

section \<open>Alternative quoting\<close>

definition closing_delimiter :: "char \<Rightarrow> char" where
  "closing_delimiter c =
     (if c = CHR ''['' then CHR '']'' else if c = CHR ''{'' then CHR ''}''
      else if c = CHR ''<'' then CHR ''>'' else if c = CHR ''('' then CHR '')'' else c)"

definition double_quotes :: "string \<Rightarrow> string" where
  "double_quotes s = concat (map (\<lambda>c. if c = quote_mark then [c, c] else [c]) s)"

definition is_q :: "char \<Rightarrow> bool" where
  "is_q c \<longleftrightarrow> c = CHR ''q'' \<or> c = CHR ''Q''"

text \<open>What follows the quote of an alternative literal that opens the text.\<close>

definition after_q :: "string \<Rightarrow> string option" where
  "after_q s = (case s of
       a # b # c # d # r \<Rightarrow>
         if is_q a \<and> b = quote_mark then Some (c # d # r)
         else if (a = CHR ''n'' \<or> a = CHR ''N'') \<and> is_q b \<and> c = quote_mark then Some (d # r)
         else None
     | [a, b, c] \<Rightarrow> if is_q a \<and> b = quote_mark then Some [c] else None
     | _ \<Rightarrow> None)"

text \<open>The text of the literal and what follows it, when it is closed.\<close>

definition alt_literal :: "string \<Rightarrow> (string \<times> string) option" where
  "alt_literal s = (case after_q s of
       Some (opening # t) \<Rightarrow>
         map_option (\<lambda>k. (take k t, drop (k + 2) t)) (find_sub t [closing_delimiter opening, quote_mark])
     | _ \<Rightarrow> None)"

lemma alt_literal_shrinks: "alt_literal s = Some (inner, rest) \<Longrightarrow> length rest < length s"
  by (auto simp: alt_literal_def after_q_def split: list.splits if_splits option.splits)

function normalize_alt_quotes :: "string \<Rightarrow> string" where
  "normalize_alt_quotes s =
     (if s = [] then []
      else if hd s = quote_mark
      then (let n = 1 + quoted_len quote_mark (tl s) in take n s @ normalize_alt_quotes (drop n s))
      else (case alt_literal s of
          Some (inner, rest) \<Rightarrow> quote_mark # double_quotes inner @ quote_mark # normalize_alt_quotes rest
        | None \<Rightarrow> hd s # normalize_alt_quotes (tl s)))"
  by pat_completeness auto
termination
  by (relation "measure length") (auto dest: alt_literal_shrinks)

declare normalize_alt_quotes.simps [simp del]

text \<open>The text of a string literal, read from between its quotes.\<close>

fun undouble :: "string \<Rightarrow> string" where
  "undouble [] = []"
| "undouble [c] = [c]"
| "undouble (c # d # s) = (if c = quote_mark \<and> d = quote_mark then c # undouble s else c # undouble (d # s))"

lemma undouble_Cons: "c \<noteq> quote_mark \<Longrightarrow> undouble (c # s) = c # undouble s"
  by (cases s) auto

lemma undouble_double_quotes: "undouble (double_quotes s) = s"
  by (induction s) (auto simp: double_quotes_def undouble_Cons)

lemma quoted_len_Cons: "c \<noteq> q \<Longrightarrow> quoted_len q (c # s) = 1 + quoted_len q s"
  by (cases s) auto

lemma quoted_len_closed: "take 1 r \<noteq> [q] \<Longrightarrow> quoted_len q (q # r) = 1"
  by (cases r) auto

lemma quoted_len_double_quotes:
  "take 1 r \<noteq> [quote_mark]
    \<Longrightarrow> quoted_len quote_mark (double_quotes s @ quote_mark # r) = length (double_quotes s) + 1"
  by (induction s) (simp_all add: double_quotes_def quoted_len_Cons quoted_len_closed)

lemma alt_literal_opens: "alt_literal s = Some (inner, rest) \<Longrightarrow> s \<noteq> [] \<and> hd s \<noteq> quote_mark"
  by (auto simp: alt_literal_def after_q_def is_q_def quote_mark_def split: list.splits if_splits)

definition literal_text :: "string \<Rightarrow> string" where
  "literal_text t = undouble (take (opaque_len t - 2) (drop 1 t))"

text \<open>
  C40.  An alternatively quoted literal becomes one ordinary literal with the same text: the
  literal the result opens with reads back as the text between the delimiters, whatever quotes
  it holds, and what follows it is the rewritten remainder, when that does not itself begin with
  a quote.
\<close>

theorem alternative_quotes_keep_text:
  assumes "alt_literal s = Some (inner, rest)" "take 1 (normalize_alt_quotes rest) \<noteq> [quote_mark]"
  shows "literal_text (normalize_alt_quotes s) = inner
    \<and> drop (opaque_len (normalize_alt_quotes s)) (normalize_alt_quotes s) = normalize_alt_quotes rest"
proof -
  have t: "normalize_alt_quotes s = quote_mark # double_quotes inner @ quote_mark # normalize_alt_quotes rest"
    using alt_literal_opens [OF assms(1)] assms(1) by (simp add: normalize_alt_quotes.simps [of s])
  then have "opaque_len (normalize_alt_quotes s) = length (double_quotes inner) + 2"
    by (simp add: opaque_len_def quoted_len_double_quotes [OF assms(2)])
  then show ?thesis by (simp add: t literal_text_def undouble_double_quotes)
qed

definition alt_sample :: string where
  "alt_sample = ''q'' @ quote_mark # ''[it'' @ quote_mark # ''s]'' @ quote_mark # '' x''"

lemma alternative_quotes_keep_text_witness:
  "literal_text (normalize_alt_quotes alt_sample) = ''it'' @ quote_mark # ''s''"
proof -
  have a: "alt_literal alt_sample = Some (''it'' @ quote_mark # ''s'', '' x'')" by code_simp
  have b: "take 1 (normalize_alt_quotes '' x'') \<noteq> [quote_mark]" by code_simp
  show ?thesis by (rule conjunct1 [OF alternative_quotes_keep_text [OF a b]])
qed

section \<open>Session settings\<close>

definition fixed_offset :: "string \<Rightarrow> bool" where
  "fixed_offset s \<longleftrightarrow> (case s of
       [a, b, c, d, e, f] \<Rightarrow> (a = CHR ''+'' \<or> a = CHR ''-'') \<and> is_ascii_digit b \<and> is_ascii_digit c
         \<and> d = CHR '':'' \<and> is_ascii_digit e \<and> is_ascii_digit f
     | _ \<Rightarrow> False)"

definition postgres_time_zone_value :: "string \<Rightarrow> string" where
  "postgres_time_zone_value value =
     (let trimmed = trim value;
          quoted = 2 \<le> length trimmed \<and> hd trimmed = quote_mark \<and> last trimmed = quote_mark;
          q = (if quoted then [quote_mark] else []);
          inner = (if quoted then butlast (tl trimmed) else trimmed)
      in if fixed_offset inner
         then q @ (if hd inner = CHR ''+'' then CHR ''-'' else CHR ''+'') # tl inner @ q
         else trimmed)"

definition nls_settings :: "(string \<times> string) list" where
  "nls_settings = [(''NLS_DATE_FORMAT'', ''nls_date_format''), (''NLS_TIMESTAMP_FORMAT'', ''nls_timestamp_format''),
     (''NLS_TIMESTAMP_TZ_FORMAT'', ''nls_timestamp_tz_format''), (''NLS_NUMERIC_CHARACTERS'', ''nls_numeric_characters''),
     (''NLS_LANGUAGE'', ''nls_language''), (''NLS_DATE_LANGUAGE'', ''nls_date_language''),
     (''NLS_TERRITORY'', ''nls_territory''), (''NLS_SORT'', ''nls_sort''), (''NLS_COMP'', ''nls_comp'')]"

definition setting_char :: "char \<Rightarrow> bool" where
  "setting_char c \<longleftrightarrow> is_ascii_alphanumeric c \<or> c = CHR ''_'' \<or> c = CHR ''$''"

definition trim_statement :: "string \<Rightarrow> string" where
  "trim_statement s = trim (rev (dropWhile (\<lambda>c. c = CHR '';'') (rev s)))"

definition session_setting :: "string \<Rightarrow> string \<Rightarrow> string option" where
  "session_setting name value =
     (let upper = to_ascii_uppercase name in
      if upper = ''CURRENT_SCHEMA'' then Some (''SET search_path TO '' @ value @ '', oracle, public'')
      else if upper = ''TIME_ZONE'' then Some (''SET TIME ZONE '' @ postgres_time_zone_value value)
      else (case map_of nls_settings upper of
          Some nls \<Rightarrow> Some (''SET dbsaci.'' @ nls @ '' TO '' @ value)
        | None \<Rightarrow>
            if starts_with upper ''OPTIMIZER'' \<or> upper = ''EVENTS'' \<or> upper = ''SQL_TRACE'' \<or> starts_with upper ''TRACE''
            then Some ''RESET application_name'' else None))"

definition rewrite_alter_session :: "string \<Rightarrow> string option" where
  "rewrite_alter_session sql =
     (let trimmed = trim sql; tail = drop 17 trimmed in
      if \<not> starts_with (to_ascii_uppercase trimmed) ''ALTER SESSION SET'' \<or> \<not> space_next tail then None
      else
        let rest = trim_start tail;
            name = takeWhile setting_char rest;
            rest = trim_start (drop (length name) rest);
            rest = (case strip_prefix rest ''='' of None \<Rightarrow> rest | Some r \<Rightarrow> trim_start r);
            value = trim_statement rest
        in if name = [] \<or> value = [] then None else session_setting name value)"

section \<open>Sequence pseudo-columns\<close>

definition word_start :: "char \<Rightarrow> bool" where
  "word_start c \<longleftrightarrow> is_ascii_alphabetic c \<or> c = CHR ''_''"

text \<open>The function a pseudo-column becomes, and what follows it.\<close>

definition sequence_call :: "string \<Rightarrow> string \<Rightarrow> (string \<times> string) option" where
  "sequence_call ident rest = (case rest of
       [] \<Rightarrow> None
     | c # after \<Rightarrow>
         let kw = takeWhile ident_char after; call = (\<lambda>func. Some (func @ ''('' @ quote_mark # ident @ [quote_mark, CHR '')''],
               drop (length kw) after))
         in if c \<noteq> CHR ''.'' then None
            else if eq_ignore_ascii_case kw ''nextval'' then call ''nextval''
            else if eq_ignore_ascii_case kw ''currval'' then call ''currval''
            else None)"

lemma sequence_call_shrinks: "sequence_call ident rest = Some (text, r) \<Longrightarrow> length r < length rest"
  by (auto simp: sequence_call_def Let_def split: list.splits if_splits)

lemma word_start_ident: "word_start c \<Longrightarrow> ident_char c"
  by (auto simp: word_start_def ident_char_def is_ascii_alphanumeric_def)

lemma word_length: "word_start c \<Longrightarrow> s = c # r \<Longrightarrow> 0 < length (takeWhile ident_char s)"
  using word_start_ident [of c] by simp

function rewrite_sequence_pseudocolumns :: "string \<Rightarrow> string" where
  "rewrite_sequence_pseudocolumns s =
     (if s = [] then []
      else if 0 < opaque_len s
      then take (opaque_len s) s @ rewrite_sequence_pseudocolumns (drop (opaque_len s) s)
      else if word_start (hd s)
      then (let w = takeWhile ident_char s; rest = dropWhile ident_char s in
        (case sequence_call w rest of
            Some (text, r) \<Rightarrow> text @ rewrite_sequence_pseudocolumns r
          | None \<Rightarrow> w @ rewrite_sequence_pseudocolumns rest))
      else hd s # rewrite_sequence_pseudocolumns (tl s))"
  by pat_completeness auto

lemma word_rest_shrinks: "s \<noteq> [] \<Longrightarrow> word_start (hd s) \<Longrightarrow> length (dropWhile ident_char s) < length s"
  using word_start_ident [of "hd s"] by (cases s) (auto simp: length_dropWhile_le le_imp_less_Suc)

termination rewrite_sequence_pseudocolumns
  by (relation "measure length") (auto dest!: sequence_call_shrinks word_rest_shrinks)

declare rewrite_sequence_pseudocolumns.simps [simp del]

text \<open>
  A text that ends with a lone double quote stops the pass over quoted identifiers: it slices
  past the end.
\<close>

lemma lone_quote_panics: "fold_uppercase_quoted_identifiers (''SELECT '' @ [DQUOTE]) = None"
  by (simp add: fold_uppercase_quoted_identifiers.simps opaque_len_def starts_with_iff fold_identifier_def
      quote_mark_def DQUOTE_def)

text \<open>Commas outside parentheses and quotes: the parts, joined again, are the text.\<close>

fun join_commas :: "string list \<Rightarrow> string" where
  "join_commas [] = []"
| "join_commas [p] = p"
| "join_commas (p # ps) = p @ CHR '','' # join_commas ps"

lemma join_commas_Cons: "ps \<noteq> [] \<Longrightarrow> join_commas (p # ps) = p @ CHR '','' # join_commas ps"
  by (cases ps) simp_all

lemma split_commas_nonempty: "split_commas_from st part s \<noteq> []"
  by (induction st part s rule: split_commas_from.induct) auto

lemma split_commas_join: "join_commas (split_commas_from st part s) = part @ s"
  by (induction st part s rule: split_commas_from.induct) (auto simp: join_commas_Cons split_commas_nonempty)

lemma top_level_start: "top_level st \<longleftrightarrow> st = scan_start"
  by (cases st) (simp add: top_level_def scan_start_def)

text \<open>A part has no such comma itself.\<close>

lemma split_comma_snoc:
  "split_comma_from s0 a part = None
    \<Longrightarrow> \<not> (c = CHR '','' \<and> top_level (foldl (\<lambda>st c. scan_char c st) s0 part))
    \<Longrightarrow> split_comma_from s0 a (part @ [c]) = None"
  by (induction part arbitrary: s0 a) (auto split: if_splits)

lemma split_commas_single:
  assumes "foldl (\<lambda>st c. scan_char c st) scan_start part = st" "split_comma_from scan_start [] part = None"
    "p \<in> set (split_commas_from st part s)"
  shows "split_comma_from scan_start [] p = None"
  using assms
proof (induction st part s rule: split_commas_from.induct)
  case (2 st part c s)
  show ?case
  proof (cases "c = CHR '','' \<and> top_level st")
    case True
    with 2 show ?thesis by (auto simp: top_level_start)
  next
    case False
    then have "split_comma_from scan_start [] (part @ [c]) = None"
      using split_comma_snoc [OF 2(4)] 2(3) by simp
    moreover have "p \<in> set (split_commas_from (scan_char c st) (part @ [c]) s)"
      using 2(5) False by (simp only: split_commas_from.simps if_False)
    ultimately show ?thesis using 2(2) [OF False] 2(3) by simp
  qed
qed simp

text \<open>
  Splitting at commas outside parentheses and quotes loses nothing and stops nowhere early: the
  parts joined with commas are the text, and no part can be split further.
\<close>

theorem commas_split_exactly:
  "join_commas (split_top_level_commas s) = s
   \<and> list_all (\<lambda>p. split_top_level_comma p = None) (split_top_level_commas s)"
  using split_commas_single [of "[]" scan_start]
  by (auto simp: split_top_level_commas_def split_top_level_comma_def split_commas_join list_all_iff)

end
