(* ===== verification/Sql_Words.thy ===== *)
theory Sql_Words
  imports Sql_Text
begin

text \<open>
  The pass that replaces Oracle's names word by word (\<open>normalize_oracle_tokens\<close> of
  \<^verbatim>\<open>src/src/translate/mod.rs\<close>), and what it leaves alone: string literals, quoted identifiers and
  comments.
\<close>

section \<open>The pass\<close>

definition named :: "string \<Rightarrow> string list \<Rightarrow> bool" where
  "named w names \<longleftrightarrow> list_ex (eq_ignore_ascii_case w) names"

definition table_ddl :: "string \<Rightarrow> bool" where
  "table_ddl sql \<longleftrightarrow>
     list_ex (starts_with (to_ascii_uppercase (trim_start sql)))
       [''CREATE TABLE '', ''CREATE GLOBAL TEMPORARY TABLE '', ''CREATE PRIVATE TEMPORARY TABLE '', ''ALTER TABLE '']
     \<and> find_sub (to_ascii_uppercase sql) '' AS SELECT'' = None"

text \<open>The argument in parentheses that follows a word, and the text behind it.\<close>

definition paren_argument :: "string \<Rightarrow> (string \<times> string) option" where
  "paren_argument rest = (case trim_start rest of
       [] \<Rightarrow> None
     | c # t \<Rightarrow>
         if c = CHR ''('' then map_option (\<lambda>k. (take k t, drop (k + 1) t)) (position (\<lambda>x. x = CHR '')'') t) else None)"

definition identity_column :: "string \<Rightarrow> bool" where
  "identity_column rest_upper \<longleftrightarrow> starts_with rest_upper ''GENERATED''
     \<or> starts_with (dropWhile (\<lambda>c. is_ascii_digit c \<or> c \<in> {CHR ''('', CHR '')'', CHR '','', CHR '' ''}) rest_upper) ''GENERATED''"

definition upper_rest :: "string \<Rightarrow> string" where
  "upper_rest rest = to_ascii_uppercase (trim_start rest)"

definition varchar_names :: "string list" where
  "varchar_names = [''VARCHAR2'', ''NVARCHAR2'', ''NCHAR'']"

definition bytea_names :: "string list" where
  "bytea_names = [''BLOB'', ''RAW'']"

text \<open>\<open>DATE\<close> as the type of a column; \<open>gone\<close> is the text before the word.\<close>

definition date_column_type :: "string \<Rightarrow> string \<Rightarrow> bool" where
  "date_column_type gone rest \<longleftrightarrow>
     \<not> (gone \<noteq> [] \<and> last gone = CHR ''.'')
     \<and> \<not> ends_with (to_ascii_uppercase (trim_end gone)) '' AS'' \<and> \<not> eq_ignore_ascii_case (trim_end gone) ''AS''
     \<and> (let r = trim_start (upper_rest rest) in
        r = [] \<or> starts_with r '','' \<or> starts_with r '')''
        \<or> list_ex (starts_keyword r) [''DEFAULT'', ''NOT'', ''NULL'', ''PRIMARY'', ''UNIQUE'', ''CHECK'', ''CONSTRAINT'',
            ''REFERENCES'', ''GENERATED'', ''COLLATE'', ''ENABLE'', ''DISABLE''])"

definition token_replacement :: "bool \<Rightarrow> string \<Rightarrow> string \<Rightarrow> string \<Rightarrow> string option" where
  "token_replacement ddl gone w rest =
     (let call = starts_with (trim_start rest) ''(''; dotted = gone \<noteq> [] \<and> last gone = CHR ''.'' in
      if named w [''MINUS''] then Some ''EXCEPT''
      else if named w [''NVL''] then Some ''COALESCE''
      else if named w [''SUBSTR''] \<and> call \<and> \<not> dotted then Some ''oracle.substr''
      else if named w [''NUMBER''] \<and> identity_column (upper_rest rest) then Some ''bigint''
      else if named w [''SYSDATE'', ''SYSTIMESTAMP''] then Some ''CURRENT_TIMESTAMP''
      else if named w [''SESSIONTIMEZONE''] \<and> \<not> call then Some ''public.sessiontimezone()''
      else if named w [''DBTIMEZONE''] \<and> \<not> call then Some ''public.dbtimezone()''
      else if named w [''USER''] \<and> \<not> call then Some ''UPPER(CURRENT_USER)''
      else if named w [''UID''] \<and> \<not> call
      then Some ''(SELECT oid::int FROM pg_catalog.pg_roles WHERE rolname = CURRENT_USER)''
      else if named w [''ROWID''] \<and> \<not> call then Some ''ctid''
      else if named w varchar_names then Some ''VARCHAR''
      else if named w [''NUMBER''] then Some ''NUMERIC''
      else if named w [''DATE''] \<and> ddl \<and> date_column_type gone rest then Some ''timestamp(0)''
      else if named w [''BINARY_FLOAT''] then Some ''dbsaci.binary_float''
      else if named w [''BINARY_DOUBLE''] then Some ''dbsaci.binary_double''
      else if named w [''CLOB'', ''NCLOB'', ''LONG''] then Some ''TEXT''
      else if named w bytea_names then Some ''BYTEA''
      else None)"

text \<open>The types whose argument does not stay as it is.\<close>

definition type_argument :: "string \<Rightarrow> string \<Rightarrow> (string \<times> string) option" where
  "type_argument w rest =
     (if named w varchar_names \<or> named w bytea_names \<or> named w [''NUMBER''] \<and> identity_column (upper_rest rest)
      then paren_argument rest else None)"

text \<open>\<open>VARCHAR2(n CHAR)\<close> keeps its number alone; the arguments of the others are dropped.\<close>

definition new_argument :: "string \<Rightarrow> string \<Rightarrow> string" where
  "new_argument w inside =
     (if named w varchar_names
      then ''('' @ trim (rev (dropWhile is_ascii_alphabetic (rev (trim inside)))) @ '')'' else [])"

lemma paren_argument_shrinks: "paren_argument rest = Some (a, r) \<Longrightarrow> length r < length rest"
  using length_trim_start [of rest] by (auto simp: paren_argument_def split: list.splits if_splits)

lemma type_argument_shrinks: "type_argument w rest = Some (a, r) \<Longrightarrow> length r < length rest"
  by (auto simp: type_argument_def dest: paren_argument_shrinks split: if_splits)

text \<open>\<open>s\<close> is what is left of \<open>sql\<close>.\<close>

function normalize_from :: "string \<Rightarrow> string \<Rightarrow> string" where
  "normalize_from sql s =
     (if s = [] then []
      else if 0 < opaque_len s
      then take (opaque_len s) s @ normalize_from sql (drop (opaque_len s) s)
      else if word_start (hd s)
      then (let w = takeWhile ident_char s; rest = dropWhile ident_char s; gone = take (length sql - length s) sql;
                text = unwrap_or w (token_replacement (table_ddl sql) gone w rest)
            in case type_argument w rest of
                Some (inside, r) \<Rightarrow> text @ new_argument w inside @ normalize_from sql r
              | None \<Rightarrow> text @ normalize_from sql rest)
      else hd s # normalize_from sql (tl s))"
  by pat_completeness auto
termination
  by (relation "measure (\<lambda>(sql, s). length s)") (auto dest!: type_argument_shrinks word_rest_shrinks)

declare normalize_from.simps [simp del]

definition normalize_oracle_tokens :: "string \<Rightarrow> string" where
  "normalize_oracle_tokens sql = normalize_from sql sql"

section \<open>What is left alone\<close>

text \<open>The literals, quoted identifiers and comments of a text.\<close>

function verbatims :: "string \<Rightarrow> string list" where
  "verbatims s =
     (if s = [] then []
      else if 0 < opaque_len s then take (opaque_len s) s # verbatims (drop (opaque_len s) s)
      else verbatims (tl s))"
  by pat_completeness auto
termination
  by (relation "measure length") auto

declare verbatims.simps [simp del]

text \<open>Characters that begin none of them.\<close>

definition plain :: "char \<Rightarrow> bool" where
  "plain c \<longleftrightarrow> c \<noteq> quote_mark \<and> c \<noteq> DQUOTE \<and> c \<noteq> CHR ''-'' \<and> c \<noteq> CHR ''/''"

text \<open>The arguments of the rewritten types hold none of them.\<close>

function plain_arguments :: "string \<Rightarrow> bool" where
  "plain_arguments s =
     (if s = [] then True
      else if 0 < opaque_len s then plain_arguments (drop (opaque_len s) s)
      else if word_start (hd s)
      then (let w = takeWhile ident_char s; rest = dropWhile ident_char s in
        (case type_argument w rest of
            Some (inside, r) \<Rightarrow> list_all plain inside \<and> plain_arguments r
          | None \<Rightarrow> plain_arguments rest))
      else plain_arguments (tl s))"
  by pat_completeness auto
termination
  by (relation "measure length") (auto dest!: type_argument_shrinks word_rest_shrinks)

declare plain_arguments.simps [simp del]

lemma verbatims_Nil [simp]: "verbatims [] = []"
  by (simp add: verbatims.simps)

lemma plain_opaque: "plain c \<Longrightarrow> opaque_len (c # s) = 0"
  by (auto simp: plain_def opaque_len_def starts_with_iff)

lemma verbatims_plain: "list_all plain p \<Longrightarrow> verbatims (p @ s) = verbatims s"
proof (induction p)
  case (Cons c p)
  then show ?case by (subst verbatims.simps) (simp add: plain_opaque)
qed simp

lemma ident_plain: "ident_char c \<Longrightarrow> plain c"
  by (auto simp: plain_def ident_char_def quote_mark_def DQUOTE_def is_ascii_alphanumeric_def is_ascii_alphabetic_def
      is_ascii_uppercase_def is_ascii_lowercase_def is_ascii_digit_def code_def)

lemma takeWhile_plain: "list_all plain (takeWhile ident_char s)"
  by (auto simp: list_all_iff dest: set_takeWhileD ident_plain)

text \<open>
  A text that begins as another one does, where it matters to what stands before: with the same
  character, or with a plain one where the other begins with a word.
\<close>

definition begins_alike :: "string \<Rightarrow> string \<Rightarrow> bool" where
  "begins_alike t s \<longleftrightarrow> (case (t, s) of
       ([], []) \<Rightarrow> True
     | (d # _, c # _) \<Rightarrow> d = c \<or> word_start c \<and> plain d \<and> d \<noteq> CHR ''*''
     | _ \<Rightarrow> False)"

lemma begins_alike_refl: "begins_alike s s"
  by (cases s) (simp_all add: begins_alike_def)

lemma word_start_facts: "word_start c \<Longrightarrow> plain c \<and> c \<noteq> CHR ''*'' \<and> c \<noteq> CHR 0x0A"
  using word_start_ident [of c] ident_plain [of c]
  by (auto simp: word_start_def is_ascii_alphabetic_def is_ascii_uppercase_def is_ascii_lowercase_def code_def)

lemma begins_alike_Nil [simp]: "begins_alike t [] \<longleftrightarrow> t = []"
  by (cases t) (simp_all add: begins_alike_def)

lemma begins_alike_Cons:
  "begins_alike t (c # s) \<longleftrightarrow> (\<exists>d t'. t = d # t' \<and> (d = c \<or> word_start c \<and> plain d \<and> d \<noteq> CHR ''*''))"
  by (cases t) (auto simp: begins_alike_def)

lemma quoted_len_alike:
  "\<not> plain q \<Longrightarrow> begins_alike t (drop (quoted_len q r) r)
    \<Longrightarrow> quoted_len q (take (quoted_len q r) r @ t) = quoted_len q r"
proof (induction q r rule: quoted_len.induct)
  case (3 q c d s)
  show ?case
  proof (cases "c = q")
    case True
    with 3 show ?thesis by (cases "d = q") (auto simp: begins_alike_Cons)
  next
    case False
    then have "0 < quoted_len q (d # s)" by (cases s) auto
    then obtain m where "quoted_len q (d # s) = Suc m" by (cases "quoted_len q (d # s)") auto
    with 3(2) [OF False] 3(3,4) False show ?thesis by simp
  qed
qed simp_all

lemma find_sub_le: "find_sub s p = Some i \<Longrightarrow> i + length p \<le> length s"
  by (induction s p arbitrary: i rule: find_sub.induct)
    (auto simp: starts_with_iff split: if_splits dest: arg_cong [where f = length])

lemma starts_with_take: "starts_with s p \<longleftrightarrow> take (length p) s = p"
  by (metis append_eq_conv_conj append_take_drop_id starts_with_iff)

lemma find_sub_cut: "p \<noteq> [] \<Longrightarrow> find_sub s p = Some i \<Longrightarrow> find_sub (take (i + length p) s @ t) p = Some i"
proof (induction s p arbitrary: i rule: find_sub.induct)
  case (2 c s p)
  show ?case
  proof (cases "starts_with (c # s) p")
    case True
    with 2 show ?thesis by (cases p) (auto simp: starts_with_iff)
  next
    case False
    with 2 obtain k where k: "i = Suc k" "find_sub s p = Some k" by auto
    have "take (length p) (c # take (k + length p) s @ t) = take (length p) (c # s)"
      using find_sub_le [OF k(2)] by (cases "length p") auto
    with False have "\<not> starts_with (c # take (k + length p) s @ t) p" by (simp only: starts_with_take not_False_eq_True)
    with 2(1) [OF False 2(2) k(2)] k(1) show ?thesis by simp
  qed
qed simp

lemma opaque_none_iff:
  "opaque_len (c # r) = 0 \<longleftrightarrow>
     c \<noteq> quote_mark \<and> c \<noteq> DQUOTE \<and> \<not> (c = CHR ''-'' \<and> (\<exists>r'. r = CHR ''-'' # r')) \<and> \<not> (c = CHR ''/'' \<and> (\<exists>r'. r = CHR ''*'' # r'))"
  by (cases r) (auto simp: opaque_len_def starts_with_iff unwrap_or_def position_Some nth_Cons' split: option.splits)

lemma opaque_none: "opaque_len (c # r) = 0 \<Longrightarrow> begins_alike t r \<Longrightarrow> opaque_len (c # t) = 0"
  by (cases r) (auto simp: opaque_none_iff begins_alike_Cons plain_def)

lemma opaque_alike:
  assumes "0 < opaque_len s" "begins_alike t (drop (opaque_len s) s)"
  shows "opaque_len (take (opaque_len s) s @ t) = opaque_len s"
proof -
  obtain c r where s: "s = c # r" using assms(1) by (cases s) (auto simp: opaque_len_def)
  show ?thesis
  proof (cases "opaque_len s = length s")
    case True
    with assms show ?thesis by simp
  next
    case ne: False
    consider "c = quote_mark \<or> c = DQUOTE" | k where "starts_with s ''--''" "opaque_len s = k" "position (\<lambda>x. x = CHR 0x0A) s = Some k"
      | k where "starts_with s ''/*''" "opaque_len s = 4 + k" "find_sub (drop 2 s) ''*/'' = Some k"
      using assms(1) ne s by (auto simp: opaque_len_def unwrap_or_def split: if_splits option.splits)
    then show ?thesis
    proof cases
      case 1
      then have "\<not> plain c" by (auto simp: plain_def)
      with 1 assms(2) show ?thesis by (auto simp: s opaque_len_def intro: quoted_len_alike)
    next
      case 2
      then obtain r2 where r2: "s = CHR ''-'' # CHR ''-'' # r2" by (auto simp: starts_with_iff)
      have k: "k < length s" "s ! k = CHR 0x0A" "\<forall>j<k. s ! j \<noteq> CHR 0x0A" using 2(3) by (auto simp: position_Some)
      then obtain m where m: "k = Suc (Suc m)" using r2 by (cases k; cases "k - 1") auto
      have "drop k s = CHR 0x0A # drop (Suc k) s" using k by (metis Cons_nth_drop_Suc)
      with assms(2) 2(2) obtain t' where t: "t = CHR 0x0A # t'" by (auto simp: begins_alike_Cons dest: word_start_facts)
      have "position (\<lambda>x. x = CHR 0x0A) (take k s @ t) = Some k"
        unfolding position_Some using k by (simp add: nth_append t)
      with 2(2) show ?thesis
        by (simp add: opaque_len_def r2 m starts_with_iff unwrap_or_def quote_mark_def DQUOTE_def)
    next
      case 3
      then obtain r2 where r2: "s = CHR ''/'' # CHR ''*'' # r2" by (auto simp: starts_with_iff)
      have "find_sub (take (k + 2) r2 @ t) ''*/'' = Some k"
        using find_sub_cut [of "''*/''" r2 k t] 3(3) by (simp add: r2)
      moreover have "take (4 + k) s = CHR ''/'' # CHR ''*'' # take (k + 2) r2"
      proof -
        have "4 + k = Suc (Suc (k + 2))" by simp
        then show ?thesis by (simp only: r2 take_Suc_Cons)
      qed
      ultimately show ?thesis
        using 3(2) by (simp add: opaque_len_def starts_with_take quote_mark_def DQUOTE_def)
    qed
  qed
qed

text \<open>What the pass writes of its own.\<close>

lemma if_SomeE:
  "(if b then Some x else r) = Some u \<Longrightarrow> (u = x \<Longrightarrow> P) \<Longrightarrow> (r = Some u \<Longrightarrow> P) \<Longrightarrow> P"
  by (cases b) auto

definition fresh_text :: "string \<Rightarrow> bool" where
  "fresh_text u \<longleftrightarrow> list_all plain u \<and> (case u of [] \<Rightarrow> False | d # _ \<Rightarrow> d \<noteq> CHR ''*'')"

lemma fresh_names:
  "fresh_text ''EXCEPT''" "fresh_text ''COALESCE''" "fresh_text ''oracle.substr''" "fresh_text ''bigint''"
  "fresh_text ''ctid''" "fresh_text ''VARCHAR''" "fresh_text ''NUMERIC''" "fresh_text ''timestamp(0)''"
  "fresh_text ''TEXT''" "fresh_text ''BYTEA''"
  by (simp_all add: fresh_text_def plain_def quote_mark_def DQUOTE_def)

lemma fresh_domains:
  "fresh_text ''CURRENT_TIMESTAMP''" "fresh_text ''dbsaci.binary_float''" "fresh_text ''dbsaci.binary_double''"
  by (simp_all add: fresh_text_def plain_def quote_mark_def DQUOTE_def)

lemma fresh_calls:
  "fresh_text ''public.sessiontimezone()''" "fresh_text ''public.dbtimezone()''" "fresh_text ''UPPER(CURRENT_USER)''"
  by (simp_all add: fresh_text_def plain_def quote_mark_def DQUOTE_def)

lemma fresh_uid:
  "fresh_text ''(SELECT oid::int FROM pg_catalog.pg_roles WHERE rolname = CURRENT_USER)''"
  by (simp_all add: fresh_text_def plain_def quote_mark_def DQUOTE_def)

lemma token_replacement_plain: "token_replacement ddl gone w rest = Some u \<Longrightarrow> fresh_text u"
  unfolding token_replacement_def Let_def
  by (elim if_SomeE) (simp_all only: fresh_names fresh_domains fresh_calls fresh_uid option.distinct)

lemma set_trim_start: "set (trim_start s) \<subseteq> set s"
proof (induction s rule: trim_start.induct)
  case (1 s)
  then show ?case by (subst trim_start.simps) (auto dest: in_set_dropD)
qed

lemma set_trim_end: "set (trim_end s) \<subseteq> set s"
proof (induction s rule: trim_end.induct)
  case (1 s)
  then show ?case by (subst trim_end.simps) (auto dest: in_set_takeD)
qed

lemma set_trim: "set (trim s) \<subseteq> set s"
  unfolding trim_def using set_trim_start set_trim_end by blast

lemma new_argument_plain:
  assumes "list_all plain inside"
  shows "list_all plain (new_argument w inside)"
proof -
  let ?u = "rev (dropWhile is_ascii_alphabetic (rev (trim inside)))"
  have "set ?u \<subseteq> set inside" 
    using set_trim [of inside] by (auto dest!: set_dropWhileD)
  then have "set (trim ?u) \<subseteq> set inside" using set_trim by blast
  then have "list_all plain (trim ?u)" using assms by (auto simp: list_all_iff)
  moreover have "plain (CHR ''('')" "plain (CHR '')'')" by (simp_all add: plain_def quote_mark_def DQUOTE_def)
  ultimately show ?thesis by (simp add: new_argument_def)
qed

text \<open>White space holds none of the marks either.\<close>

lemma plain_code: "code c \<notin> {39, 34, 45, 47} \<Longrightarrow> plain c"
  by (auto simp: plain_def quote_mark_def DQUOTE_def code_def)

definition mark_free :: "nat list \<Rightarrow> bool" where
  "mark_free cs \<longleftrightarrow> (\<forall>x \<in> set cs. x \<notin> {39, 34, 45, 47})"

lemma mark_free_if:
  "(b \<Longrightarrow> mark_free (take m cs)) \<Longrightarrow> (\<not> b \<Longrightarrow> mark_free (take n cs))
    \<Longrightarrow> mark_free (take (if b then m else n) cs)"
  by simp

lemma ws_plain: "list_all plain (take (ws_len s) s)"
proof -
  have one: "mark_free (take (ws_codes [a]) [a])" for a
    by (simp add: ws_codes_def mark_free_def)
  have two: "mark_free (take (ws_codes [a, b]) [a, b])" for a b
    by (auto simp: ws_codes_def mark_free_def)
  have three: "mark_free (take (ws_codes [a, b, c]) [a, b, c])" for a b c
    unfolding ws_codes_def list.case by (intro mark_free_if) (auto simp: mark_free_def numeral_3_eq_3)
  have "mark_free (take (ws_codes cs) cs)" if le: "length cs \<le> 3" for cs
  proof -
    consider "cs = []" | a where "cs = [a]" | a b where "cs = [a, b]" | a b c where "cs = [a, b, c]"
      using le by (cases cs; cases "tl cs"; cases "tl (tl cs)"; cases "tl (tl (tl cs))") auto
    then show ?thesis by cases (simp_all only: one two three, simp add: mark_free_def)
  qed
  from this [of "map code (take 3 s)"] have "list_all plain (take (ws_len s) (take 3 s))"
    by (auto simp: ws_len_def list_all_iff take_map mark_free_def intro!: plain_code)
  moreover have "ws_len s \<le> 3" by (auto simp: ws_len_def ws_codes_def split: list.splits)
  ultimately show ?thesis by (simp add: min_def)
qed

lemma trim_start_plain: "\<exists>p. s = p @ trim_start s \<and> list_all plain p"
proof (induction s rule: trim_start.induct)
  case (1 s)
  show ?case
  proof (cases "0 < ws_len s")
    case True
    with 1 obtain p where "drop (ws_len s) s = p @ trim_start s" "list_all plain p"
      by (auto simp: trim_start.simps [of s])
    then have "s = (take (ws_len s) s @ p) @ trim_start s" by (metis append.assoc append_take_drop_id)
    with \<open>list_all plain p\<close> ws_plain [of s] show ?thesis by (metis list_all_append)
  qed (simp add: trim_start.simps [of s])
qed

lemma type_argument_plain:
  assumes "type_argument w rest = Some (inside, r)" "list_all plain inside"
  shows "\<exists>p. rest = p @ r \<and> list_all plain p"
proof -
  from assms(1) have "paren_argument rest = Some (inside, r)" by (simp add: type_argument_def split: if_splits)
  then obtain t k where t: "trim_start rest = CHR ''('' # t" "position (\<lambda>x. x = CHR '')'') t = Some k"
      "inside = take k t" "r = drop (k + 1) t"
    by (auto simp: paren_argument_def split: list.splits if_splits)
  obtain p where p: "rest = p @ trim_start rest" "list_all plain p" using trim_start_plain by blast
  have "t = inside @ CHR '')'' # r" 
    using t(2-4) id_take_nth_drop [of k t] by (simp add: position_Some)
  with p t(1) have "rest = (p @ CHR ''('' # inside @ [CHR '')'']) @ r" by simp
  moreover have "plain (CHR ''('')" "plain (CHR '')'')" by (simp_all add: plain_def quote_mark_def DQUOTE_def)
  ultimately show ?thesis using p(2) assms(2) by (intro exI [of _ "p @ CHR ''('' # inside @ [CHR '')'']"]) simp
qed

text \<open>One word.\<close>

lemma word_plain:
  assumes "plain_arguments s" "s \<noteq> []" "opaque_len s = 0" "word_start (hd s)"
    "type_argument (takeWhile ident_char s) (dropWhile ident_char s) = Some (inside, r)"
  shows "verbatims s = verbatims r" "list_all plain inside" "plain_arguments r"
proof -
  show *: "list_all plain inside" "plain_arguments r"
    using assms by (simp_all add: plain_arguments.simps [of s])
  obtain p where "dropWhile ident_char s = p @ r" "list_all plain p"
    using type_argument_plain [OF assms(5) *(1)] by blast
  then have "s = (takeWhile ident_char s @ p) @ r" by (metis append.assoc takeWhile_dropWhile_id)
  then show "verbatims s = verbatims r"
    using verbatims_plain [of "takeWhile ident_char s @ p" r] takeWhile_plain \<open>list_all plain p\<close>
    by (metis list_all_append)
qed

lemma fresh_word:
  assumes "word_start (hd s)" "s \<noteq> []"
  shows "fresh_text (unwrap_or (takeWhile ident_char s) (token_replacement ddl gone w rest))"
proof (cases "token_replacement ddl gone w rest")
  case None
  obtain c t where s: "s = c # t" "word_start c" using assms by (cases s) auto
  with takeWhile_plain [of s] word_start_facts [of c] word_start_ident [of c] show ?thesis
    by (simp add: fresh_text_def unwrap_or_def None)
qed (auto simp: unwrap_or_def dest: token_replacement_plain)

lemma fresh_alike: "fresh_text u \<Longrightarrow> word_start c \<Longrightarrow> begins_alike (u @ t) (c # s)"
  by (cases u) (auto simp: fresh_text_def begins_alike_Cons)

lemma normalize_alike:
  "plain_arguments s \<Longrightarrow>
     verbatims (normalize_from sql s) = verbatims s \<and> begins_alike (normalize_from sql s) s"
proof (induction sql s rule: normalize_from.induct)
  case (1 sql s)
  let ?n = "opaque_len s" and ?w = "takeWhile ident_char s" and ?rest = "dropWhile ident_char s"
  let ?gone = "take (length sql - length s) sql"
  let ?u = "unwrap_or ?w (token_replacement (table_ddl sql) ?gone ?w ?rest)"
  consider "s = []" | "s \<noteq> []" "0 < ?n" | "s \<noteq> []" "?n = 0" "word_start (hd s)" | c r where "s = c # r" "?n = 0" "\<not> word_start c"
    by (cases s) auto
  then show ?case
  proof cases
    case 1
    then show ?thesis by (simp add: normalize_from.simps)
  next
    case 2
    let ?N = "normalize_from sql (drop ?n s)"
    have IH: "verbatims ?N = verbatims (drop ?n s)" "begins_alike ?N (drop ?n s)"
      using "1.IH"(1) 2 "1.prems" by (auto simp: plain_arguments.simps [of s])
    have N: "normalize_from sql s = take ?n s @ ?N" using 2 by (simp add: normalize_from.simps [of sql s])
    have len: "opaque_len (take ?n s @ ?N) = ?n" by (rule opaque_alike [OF 2(2) IH(2)])
    have "length (take ?n s) = ?n" using opaque_len_le [of s] by simp
    then have "verbatims (take ?n s @ ?N) = take ?n s # verbatims ?N"
      using 2 len by (subst verbatims.simps) auto
    with IH(1) 2 have "verbatims (normalize_from sql s) = verbatims s" by (simp add: N verbatims.simps [of s])
    moreover have "begins_alike (take ?n s @ ?N) s"
      using 2 by (cases s; cases ?n) (auto simp: begins_alike_Cons)
    ultimately show ?thesis by (simp add: N)
  next
    case 3
    have u: "fresh_text ?u" by (rule fresh_word [OF 3(3,1)])
    then have pu: "list_all plain ?u" by (simp add: fresh_text_def)
    have alike: "begins_alike (?u @ t) s" for t
      using fresh_alike [OF u 3(3)] 3(1) by (cases s) auto
    show ?thesis
    proof (cases "type_argument ?w ?rest")
      case None
      with 3 have N: "normalize_from sql s = ?u @ normalize_from sql ?rest"
        by (simp add: normalize_from.simps [of sql s] Let_def)
      have "plain_arguments ?rest" using 3 None "1.prems" by (simp add: plain_arguments.simps [of s])
      then have "verbatims (normalize_from sql ?rest) = verbatims ?rest"
        using "1.IH"(2) [OF 3(1) _ 3(3) refl refl refl refl None] 3(2) by simp
      moreover have "verbatims s = verbatims ?rest"
        using verbatims_plain [OF takeWhile_plain, of s ?rest] by simp
      ultimately show ?thesis using alike by (simp add: N verbatims_plain [OF pu])
    next
      case (Some a)
      obtain inside r where a: "a = (inside, r)" by (cases a)
      note w = word_plain [OF "1.prems" 3 Some [unfolded a]]
      have N: "normalize_from sql s = (?u @ new_argument ?w inside) @ normalize_from sql r"
        using 3 Some a by (simp add: normalize_from.simps [of sql s] Let_def)
      have "verbatims (normalize_from sql r) = verbatims r"
        using "1.IH"(3) [OF 3(1) _ 3(3) refl refl refl refl Some a [symmetric]] 3(2) w(3) by simp
      moreover have "list_all plain (?u @ new_argument ?w inside)" using pu new_argument_plain [OF w(2)] by simp
      ultimately show ?thesis using alike w(1) by (simp add: N verbatims_plain del: append_assoc) simp
    qed
  next
    case 4
    have N: "normalize_from sql (c # r) = c # normalize_from sql r" using 4 by (simp add: normalize_from.simps [of sql "c # r"])
    have "plain_arguments r" using 4 "1.prems" by (simp add: plain_arguments.simps [of "c # r"])
    then have IH: "verbatims (normalize_from sql r) = verbatims r" "begins_alike (normalize_from sql r) r"
      using "1.IH" 4 by auto
    have "opaque_len (c # normalize_from sql r) = 0" using opaque_none [OF _ IH(2)] 4 by simp
    with IH(1) 4 show ?thesis by (simp add: N verbatims.simps [of "c # _"] begins_alike_Cons)
  qed
qed

text \<open>
  C17.  The pass that replaces Oracle names leaves every string literal, quoted identifier and
  comment of the statement as it is and adds none, when the arguments of the types it rewrites
  hold none: read back from what it wrote, they are those of the statement, in their order.
\<close>

theorem names_replaced_outside_text:
  assumes "plain_arguments sql"
  shows "verbatims (normalize_oracle_tokens sql) = verbatims sql"
  using normalize_alike [OF assms] by (simp add: normalize_oracle_tokens_def)

definition words_sample :: string where
  "words_sample = ''SELECT '' @ DQUOTE # ''NVL'' @ DQUOTE # '', NVL(a, '' @ quote_mark # ''SYSDATE'' @ quote_mark # '') -- MINUS''"

lemma names_replaced_outside_text_witness:
  "verbatims (normalize_oracle_tokens words_sample)
   = [DQUOTE # ''NVL'' @ [DQUOTE], quote_mark # ''SYSDATE'' @ [quote_mark], ''-- MINUS'']"
proof -
  have "plain_arguments words_sample" by code_simp
  moreover have "verbatims words_sample = [DQUOTE # ''NVL'' @ [DQUOTE], quote_mark # ''SYSDATE'' @ [quote_mark], ''-- MINUS'']"
    by code_simp
  ultimately show ?thesis by (simp only: names_replaced_outside_text)
qed

end
