(* ===== verification/Sql_Ast.thy ===== *)
theory Sql_Ast
  imports Binds
begin

text \<open>
  The syntax tree the translation works on, as far as \<^verbatim>\<open>src/src/translate/mod.rs\<close> looks into it:
  one constructor for each variant of \<open>sqlparser\<close>'s \<open>Expr\<close> the source names, an opaque one for the
  others, and the nested queries as a parameter \<open>'q\<close>.  Fields the source only copies are carried
  as their text.  Then the helpers of the source on such trees.
\<close>

section \<open>Expressions\<close>

datatype binary_op = Plus | Minus | Multiply | Divide | Modulo | StringConcat | And
  | Lt | LtEq | Gt | GtEq | Eq | NotEq | OtherOp string

datatype sql_value = Number string | SingleQuotedString string | DoubleQuotedString string | Null
  | Placeholder string | OtherValue string

datatype unary_op = UMinus | OtherUnary string

datatype data_type = DText | DDate | DDatetime string | DTimestamp string | DNumeric string | DDecimal string
  | DInt string | DInteger string | DBigInt string | DDouble string | DFloat string | OtherType string

text \<open>A part of a name is a plain identifier or something else.\<close>

type_synonym object_name = "string option list"

datatype 'q expr =
    Value sql_value
  | Identifier string
  | CompoundIdentifier "string list"
  | TypedString data_type string
  | BinaryOp "'q expr" binary_op "'q expr"
  | UnaryOp unary_op "'q expr"
  | Nested "'q expr"
  | IsNull "'q expr"
  | IsNotNull "'q expr"
  | IsTrue "'q expr"
  | IsNotTrue "'q expr"
  | IsFalse "'q expr"
  | IsNotFalse "'q expr"
  | IsNotDistinctFrom "'q expr" "'q expr"
  | Cast "'q expr" data_type
  | Collate "'q expr" string
  | OuterJoin "'q expr"
  | Between "'q expr" bool "'q expr" "'q expr"
  | InList "'q expr" "'q expr list" bool
  | InSubquery "'q expr" 'q bool
  | Exists 'q bool
  | Subquery 'q
  | Case "'q expr option" "'q case_when list" "'q expr option"
  | Function object_name "'q fn_arg list option" "string option" string
  | OtherExpr string
and 'q case_when = CaseWhen "'q expr" "'q expr"
and 'q fn_arg = Unnamed "'q expr" | Named string "'q expr" | OtherArg string

definition lit :: "sql_value \<Rightarrow> 'q expr" where
  "lit v = Value v"

definition as_value :: "'q expr \<Rightarrow> sql_value option" where
  "as_value e = (case e of Value v \<Rightarrow> Some v | _ \<Rightarrow> None)"

definition name_last :: "object_name \<Rightarrow> string option" where
  "name_last name = (if name = [] then None else last name)"

definition obj_name :: "string \<Rightarrow> object_name" where
  "obj_name ident = [Some ident]"

definition num :: "nat \<Rightarrow> 'q expr" where
  "num value = lit (Number (show_nat value))"

text \<open>A call of a function with plain arguments.\<close>

definition plain_call :: "string \<Rightarrow> 'q expr list \<Rightarrow> 'q expr" where
  "plain_call name args = Function (obj_name name) (Some (map Unnamed args)) None []"

section \<open>Conjunctions\<close>

text \<open>Parentheses go with the conjunctions they hold.\<close>

fun flatten_and :: "'q expr \<Rightarrow> 'q expr list" where
  "flatten_and (BinaryOp left And right) = flatten_and left @ flatten_and right"
| "flatten_and (Nested inner) = flatten_and inner"
| "flatten_and e = [e]"

definition rebuild_and :: "'q expr list \<Rightarrow> 'q expr option" where
  "rebuild_and cs = (case cs of [] \<Rightarrow> None | c # r \<Rightarrow> Some (foldl (\<lambda>a b. BinaryOp a And b) c r))"

section \<open>Walks\<close>

text \<open>The expressions a walk visits, outermost first; the source does not look into every variant.\<close>

fun visit :: "'q expr \<Rightarrow> 'q expr list" and visit_arg :: "'q fn_arg \<Rightarrow> 'q expr list" where
  "visit (BinaryOp a op b) = BinaryOp a op b # visit a @ visit b"
| "visit (UnaryOp op a) = UnaryOp op a # visit a"
| "visit (Nested a) = Nested a # visit a"
| "visit (IsNull a) = IsNull a # visit a"
| "visit (IsNotNull a) = IsNotNull a # visit a"
| "visit (IsTrue a) = IsTrue a # visit a"
| "visit (IsNotTrue a) = IsNotTrue a # visit a"
| "visit (IsFalse a) = IsFalse a # visit a"
| "visit (IsNotFalse a) = IsNotFalse a # visit a"
| "visit (Cast a t) = Cast a t # visit a"
| "visit (Collate a c) = Collate a c # visit a"
| "visit (OuterJoin a) = OuterJoin a # visit a"
| "visit (Between a negated low high) = Between a negated low high # visit a @ visit low @ visit high"
| "visit (InList a xs negated) = InList a xs negated # visit a @ concat (map visit xs)"
| "visit (Function n args over rest) =
     Function n args over rest # (case args of None \<Rightarrow> [] | Some l \<Rightarrow> concat (map visit_arg l))"
| "visit e = [e]"
| "visit_arg (Unnamed a) = visit a"
| "visit_arg _ = []"

text \<open>\<open>map_expr f\<close> rewrites the parts before the whole.\<close>

fun map_expr :: "('q expr \<Rightarrow> 'q expr) \<Rightarrow> 'q expr \<Rightarrow> 'q expr"
  and map_arg :: "('q expr \<Rightarrow> 'q expr) \<Rightarrow> 'q fn_arg \<Rightarrow> 'q fn_arg" where
  "map_expr f (BinaryOp a op b) = f (BinaryOp (map_expr f a) op (map_expr f b))"
| "map_expr f (UnaryOp op a) = f (UnaryOp op (map_expr f a))"
| "map_expr f (Nested a) = f (Nested (map_expr f a))"
| "map_expr f (IsNull a) = f (IsNull (map_expr f a))"
| "map_expr f (IsNotNull a) = f (IsNotNull (map_expr f a))"
| "map_expr f (IsTrue a) = f (IsTrue (map_expr f a))"
| "map_expr f (IsNotTrue a) = f (IsNotTrue (map_expr f a))"
| "map_expr f (IsFalse a) = f (IsFalse (map_expr f a))"
| "map_expr f (IsNotFalse a) = f (IsNotFalse (map_expr f a))"
| "map_expr f (Cast a t) = f (Cast (map_expr f a) t)"
| "map_expr f (Collate a c) = f (Collate (map_expr f a) c)"
| "map_expr f (OuterJoin a) = f (OuterJoin (map_expr f a))"
| "map_expr f (Between a negated low high) = f (Between (map_expr f a) negated (map_expr f low) (map_expr f high))"
| "map_expr f (InList a xs negated) = f (InList (map_expr f a) (map (map_expr f) xs) negated)"
| "map_expr f (Function n args over rest) = f (Function n (map_option (map (map_arg f)) args) over rest)"
| "map_expr f e = f e"
| "map_arg f (Unnamed a) = Unnamed (map_expr f a)"
| "map_arg f b = b"

section \<open>Marked columns\<close>

definition is_outer_join :: "'q expr \<Rightarrow> bool" where
  "is_outer_join e \<longleftrightarrow> (case e of OuterJoin _ \<Rightarrow> True | _ \<Rightarrow> False)"

definition expr_has_outer_join :: "'q expr \<Rightarrow> bool" where
  "expr_has_outer_join e \<longleftrightarrow> list_ex is_outer_join (visit e)"

definition table_key_of :: "'q expr \<Rightarrow> string list \<Rightarrow> string list" where
  "table_key_of e keys = (case e of
       CompoundIdentifier (q # c # _) \<Rightarrow>
         if to_ascii_lowercase q \<in> set keys then keys else keys @ [to_ascii_lowercase q]
     | _ \<Rightarrow> keys)"

definition collect_table_keys :: "'q expr \<Rightarrow> string list \<Rightarrow> string list" where
  "collect_table_keys e keys = fold table_key_of (visit e) keys"

definition collect_outer_marked_keys :: "'q expr \<Rightarrow> string list \<Rightarrow> string list" where
  "collect_outer_marked_keys e keys =
     fold (\<lambda>x keys. case x of OuterJoin inner \<Rightarrow> collect_table_keys inner keys | _ \<Rightarrow> keys) (visit e) keys"

definition unmark :: "'q expr \<Rightarrow> 'q expr" where
  "unmark e = (case e of OuterJoin inner \<Rightarrow> inner | _ \<Rightarrow> e)"

definition strip_outer_join :: "'q expr \<Rightarrow> 'q expr" where
  "strip_outer_join e = map_expr unmark e"

text \<open>No mark is left.\<close>

lemma visit_unmarked:
  fixes e :: "'q expr" and a :: "'q fn_arg"
  shows "list_all (\<lambda>x. \<not> is_outer_join x) (visit (map_expr unmark e))"
    and "list_all (\<lambda>x. \<not> is_outer_join x) (visit_arg (map_arg unmark a))"
  by (induction e and a rule: visit_visit_arg.induct)
    (auto simp: unmark_def is_outer_join_def list_all_iff split: option.splits)

lemma strip_outer_join_unmarked: "\<not> expr_has_outer_join (strip_outer_join e)"
  using visit_unmarked(1) [of e] by (simp add: expr_has_outer_join_def strip_outer_join_def list_all_iff list_ex_iff)

section \<open>Constants\<close>

text \<open>A number token has no sign of its own; a bound with a minus sign counts as 0.\<close>

definition const_u64 :: "'q expr \<Rightarrow> nat option" where
  "const_u64 e = (case e of
       Value v \<Rightarrow> (case v of Number n \<Rightarrow> parse_usize n | _ \<Rightarrow> None)
     | UnaryOp op _ \<Rightarrow> (case op of UMinus \<Rightarrow> Some 0 | _ \<Rightarrow> None)
     | _ \<Rightarrow> None)"

end
