(* ===== verification/Sql_Rownum.thy ===== *)
theory Sql_Rownum
  imports Sql_Ast
begin

text \<open>
  Row limits (\<^verbatim>\<open>src/src/translate/mod.rs\<close>): Oracle's conditions on \<open>ROWNUM\<close> are taken out of the
  conjuncts of a WHERE clause and become a LIMIT.  Then what Oracle makes of such a clause, row
  by row, and that the two agree.
\<close>

section \<open>The source\<close>

datatype 'q effect = Limit "'q expr" | Empty | AllRows

definition is_rownum :: "'q expr \<Rightarrow> bool" where
  "is_rownum e \<longleftrightarrow> (case e of Identifier i \<Rightarrow> eq_ignore_ascii_case i ''rownum'' | _ \<Rightarrow> False)"

definition flip_comparison :: "binary_op \<Rightarrow> binary_op option" where
  "flip_comparison op = (case op of
       Lt \<Rightarrow> Some Gt | LtEq \<Rightarrow> Some GtEq | Gt \<Rightarrow> Some Lt | GtEq \<Rightarrow> Some LtEq | Eq \<Rightarrow> Some Eq | NotEq \<Rightarrow> Some NotEq
     | _ \<Rightarrow> None)"

text \<open>\<open>n <op> ROWNUM\<close> as \<open>ROWNUM <flipped> n\<close>: the operator, the side of ROWNUM and its bound.\<close>

definition orient :: "'q expr \<Rightarrow> binary_op \<Rightarrow> 'q expr \<Rightarrow> (binary_op \<times> 'q expr \<times> 'q expr) option" where
  "orient left op right =
     (if \<not> is_rownum left \<and> is_rownum right
      then map_option (\<lambda>op. (op, right, left)) (flip_comparison op)
      else Some (op, left, right))"

text \<open>
  \<open>ROWNUM + k <op> m\<close> as \<open>ROWNUM <op> m - k\<close>, with 64-bit subtraction that stops at 0 and addition
  that wraps, as in a release build.
\<close>

definition shifted_bound :: "'q expr \<Rightarrow> 'q expr \<Rightarrow> 'q expr option" where
  "shifted_bound side bound = (case side of
       BinaryOp inner arith k \<Rightarrow>
         if (arith = Plus \<or> arith = Minus) \<and> is_rownum inner
         then (case (const_u64 bound, const_u64 k) of
             (Some m, Some k) \<Rightarrow> Some (num (if arith = Plus then m - k else (m + k) mod 2 ^ 64))
           | _ \<Rightarrow> None)
         else None
     | _ \<Rightarrow> if is_rownum side then Some bound else None)"

definition constant_effect :: "binary_op \<Rightarrow> nat \<Rightarrow> 'q effect option" where
  "constant_effect op n = (case op of
       LtEq \<Rightarrow> Some (if n < 1 then Empty else Limit (num n))
     | Lt \<Rightarrow> Some (if n \<le> 1 then Empty else Limit (num (n - 1)))
     | Eq \<Rightarrow> Some (if n = 1 then Limit (num 1) else Empty)
     | NotEq \<Rightarrow> Some (if n = 1 then Empty else AllRows)
     | GtEq \<Rightarrow> Some (if n \<le> 1 then AllRows else Empty)
     | Gt \<Rightarrow> Some (if n < 1 then AllRows else Empty)
     | _ \<Rightarrow> None)"

definition bound_effect :: "binary_op \<Rightarrow> 'q expr \<Rightarrow> 'q effect option" where
  "bound_effect op bound = (case const_u64 bound of
       Some n \<Rightarrow> constant_effect op n
     | None \<Rightarrow>
         if op = LtEq then Some (Limit bound)
         else if op = Lt then Some (Limit (BinaryOp bound Minus (lit (Number ''1''))))
         else None)"

definition between_effect :: "'q expr \<Rightarrow> 'q expr \<Rightarrow> 'q effect option" where
  "between_effect low high = (case const_u64 low of
       None \<Rightarrow> None
     | Some lo \<Rightarrow>
         if 1 < lo then Some Empty
         else (case const_u64 high of
             Some h \<Rightarrow> Some (if h < 1 then Empty else Limit high)
           | None \<Rightarrow> Some (Limit high)))"

definition comparison_effect :: "'q expr \<Rightarrow> binary_op \<Rightarrow> 'q expr \<Rightarrow> 'q effect option" where
  "comparison_effect left op right =
     Option.bind (orient left op right) (\<lambda>(op, side, bound).
     Option.bind (shifted_bound side bound) (bound_effect op))"

definition rownum_effect :: "'q expr \<Rightarrow> 'q effect option" where
  "rownum_effect e = (case e of
       Between subject negated low high \<Rightarrow>
         if \<not> negated \<and> is_rownum subject then between_effect low high else None
     | BinaryOp left op right \<Rightarrow> comparison_effect left op right
     | _ \<Rightarrow> None)"

definition least_expr :: "'q expr \<Rightarrow> 'q expr \<Rightarrow> 'q expr" where
  "least_expr a b = (case (const_u64 a, const_u64 b) of
       (Some x, Some y) \<Rightarrow> if y < x then b else a
     | _ \<Rightarrow> plain_call ''LEAST'' [a, b])"

text \<open>The conjuncts kept, the limit so far, and whether nothing is left.\<close>

type_synonym 'q strip = "'q expr list \<times> 'q expr option \<times> bool"

definition strip_step :: "'q expr \<Rightarrow> 'q strip \<Rightarrow> 'q strip" where
  "strip_step conjunct = (\<lambda>(kept, limit, none_left).
     (case rownum_effect conjunct of
        Some (Limit e) \<Rightarrow> (kept, Some (case limit of None \<Rightarrow> e | Some existing \<Rightarrow> least_expr existing e), none_left)
      | Some Empty \<Rightarrow> (kept, limit, True)
      | Some AllRows \<Rightarrow> (kept, limit, none_left)
      | None \<Rightarrow> (kept @ [conjunct], limit, none_left)))"

definition strip_rownum_predicate :: "'q expr \<Rightarrow> 'q expr option \<times> 'q expr option" where
  "strip_rownum_predicate selection =
     (case fold strip_step (flatten_and selection) ([], None, False) of
        (kept, limit, none_left) \<Rightarrow> (rebuild_and kept, if none_left then Some (lit (Number ''0'')) else limit))"

section \<open>What Oracle does\<close>

text \<open>
  A candidate row carries the number it would get, one more than the rows accepted before it.
\<close>

fun oracle_rows :: "(nat \<Rightarrow> 'r \<Rightarrow> bool) \<Rightarrow> nat \<Rightarrow> 'r list \<Rightarrow> 'r list" where
  "oracle_rows p n [] = []"
| "oracle_rows p n (r # rs) = (if p n r then r # oracle_rows p (n + 1) rs else oracle_rows p n rs)"

text \<open>Where an expression speaks of the row number, nested queries apart.\<close>

fun mentions_rownum :: "'q expr \<Rightarrow> bool"
  and when_mentions :: "'q case_when \<Rightarrow> bool"
  and arg_mentions :: "'q fn_arg \<Rightarrow> bool" where
  "mentions_rownum (Identifier i) = eq_ignore_ascii_case i ''rownum''"
| "mentions_rownum (BinaryOp a op b) \<longleftrightarrow> mentions_rownum a \<or> mentions_rownum b"
| "mentions_rownum (UnaryOp op a) = mentions_rownum a"
| "mentions_rownum (Nested a) = mentions_rownum a"
| "mentions_rownum (IsNull a) = mentions_rownum a"
| "mentions_rownum (IsNotNull a) = mentions_rownum a"
| "mentions_rownum (IsTrue a) = mentions_rownum a"
| "mentions_rownum (IsNotTrue a) = mentions_rownum a"
| "mentions_rownum (IsFalse a) = mentions_rownum a"
| "mentions_rownum (IsNotFalse a) = mentions_rownum a"
| "mentions_rownum (IsNotDistinctFrom a b) \<longleftrightarrow> mentions_rownum a \<or> mentions_rownum b"
| "mentions_rownum (Cast a t) = mentions_rownum a"
| "mentions_rownum (Collate a c) = mentions_rownum a"
| "mentions_rownum (OuterJoin a) = mentions_rownum a"
| "mentions_rownum (Between a negated low high) \<longleftrightarrow> mentions_rownum a \<or> mentions_rownum low \<or> mentions_rownum high"
| "mentions_rownum (InList a xs negated) \<longleftrightarrow> mentions_rownum a \<or> list_ex mentions_rownum xs"
| "mentions_rownum (InSubquery a q negated) = mentions_rownum a"
| "mentions_rownum (Case operand whens other) \<longleftrightarrow>
     (case operand of None \<Rightarrow> False | Some a \<Rightarrow> mentions_rownum a) \<or> list_ex when_mentions whens
     \<or> (case other of None \<Rightarrow> False | Some a \<Rightarrow> mentions_rownum a)"
| "mentions_rownum (Function n args over rest) \<longleftrightarrow> (case args of None \<Rightarrow> False | Some l \<Rightarrow> list_ex arg_mentions l)"
| "mentions_rownum e = False"
| "when_mentions (CaseWhen a b) \<longleftrightarrow> mentions_rownum a \<or> mentions_rownum b"
| "arg_mentions (Unnamed a) = mentions_rownum a"
| "arg_mentions (Named n a) = mentions_rownum a"
| "arg_mentions (OtherArg t) = False"

text \<open>
  The number an expression stands for in the row with number \<open>n\<close>; \<open>ev\<close> evaluates what is neither
  the row number nor arithmetic on it, such as a bind.
\<close>

fun number_of :: "('q expr \<Rightarrow> int) \<Rightarrow> nat \<Rightarrow> 'q expr \<Rightarrow> int" where
  "number_of ev n (Identifier i) = (if eq_ignore_ascii_case i ''rownum'' then int n else ev (Identifier i))"
| "number_of ev n (Value v) = (case v of
       Number t \<Rightarrow> (case parse_usize t of Some k \<Rightarrow> int k | None \<Rightarrow> ev (Value v))
     | _ \<Rightarrow> ev (Value v))"
| "number_of ev n (UnaryOp op a) = (if op = UMinus then - number_of ev n a else ev (UnaryOp op a))"
| "number_of ev n (BinaryOp a op b) =
     (if op = Plus then number_of ev n a + number_of ev n b
      else if op = Minus then number_of ev n a - number_of ev n b
      else ev (BinaryOp a op b))"
| "number_of ev n (Nested a) = number_of ev n a"
| "number_of ev n (Function f args over rest) =
     (case args of
        Some [Unnamed a, Unnamed b] \<Rightarrow>
          if f = obj_name ''LEAST'' then min (number_of ev n a) (number_of ev n b) else ev (Function f args over rest)
      | _ \<Rightarrow> ev (Function f args over rest))"
| "number_of ev n e = ev e"

definition compares :: "binary_op \<Rightarrow> int \<Rightarrow> int \<Rightarrow> bool" where
  "compares op a b \<longleftrightarrow> (case op of
       Lt \<Rightarrow> a < b | LtEq \<Rightarrow> a \<le> b | Gt \<Rightarrow> b < a | GtEq \<Rightarrow> b \<le> a | Eq \<Rightarrow> a = b | NotEq \<Rightarrow> a \<noteq> b | _ \<Rightarrow> False)"

text \<open>\<open>tv r e\<close> is the truth of a condition in the row \<open>r\<close> that does not speak of its number.\<close>

fun holds :: "('q expr \<Rightarrow> int) \<Rightarrow> ('r \<Rightarrow> 'q expr \<Rightarrow> bool) \<Rightarrow> nat \<Rightarrow> 'r \<Rightarrow> 'q expr \<Rightarrow> bool" where
  "holds ev tv n r (Nested a) = holds ev tv n r a"
| "holds ev tv n r (BinaryOp a op b) =
     (if op = And then holds ev tv n r a \<and> holds ev tv n r b
      else if mentions_rownum (BinaryOp a op b) then compares op (number_of ev n a) (number_of ev n b)
      else tv r (BinaryOp a op b))"
| "holds ev tv n r (Between a negated low high) =
     (if mentions_rownum (Between a negated low high)
      then (number_of ev n low \<le> number_of ev n a \<and> number_of ev n a \<le> number_of ev n high) \<noteq> negated
      else tv r (Between a negated low high))"
| "holds ev tv n r e = tv r e"

definition limited :: "('q expr \<Rightarrow> int) \<Rightarrow> 'q expr option \<Rightarrow> 'r list \<Rightarrow> 'r list" where
  "limited ev limit rows = (case limit of None \<Rightarrow> rows | Some e \<Rightarrow> take (nat (number_of ev 0 e)) rows)"

definition selected :: "('q expr \<Rightarrow> int) \<Rightarrow> ('r \<Rightarrow> 'q expr \<Rightarrow> bool) \<Rightarrow> 'q expr option \<Rightarrow> 'r list \<Rightarrow> 'r list" where
  "selected ev tv condition rows = (case condition of None \<Rightarrow> rows | Some e \<Rightarrow> filter (\<lambda>r. holds ev tv 0 r e) rows)"

text \<open>
  The conditions on the row number that are lifted as Oracle means them: bounds are literals,
  also negative ones, or expressions free of it, arithmetic on it stays in 64 bits, and it is not
  compared by inequality with a number above 1.
\<close>

definition good_bound :: "'q expr \<Rightarrow> bool" where
  "good_bound e \<longleftrightarrow> \<not> mentions_rownum e
     \<and> (case as_value e of Some (Number t) \<Rightarrow> parse_usize t \<noteq> None | _ \<Rightarrow> True)
     \<and> (case e of UnaryOp op a \<Rightarrow> op = UMinus \<longrightarrow> (case a of Value v \<Rightarrow> const_u64 a \<noteq> None | _ \<Rightarrow> False) | _ \<Rightarrow> True)"

definition good_comparison :: "'q expr \<Rightarrow> binary_op \<Rightarrow> 'q expr \<Rightarrow> bool" where
  "good_comparison left op right \<longleftrightarrow> (case orient left op right of None \<Rightarrow> False
     | Some (op, side, bound) \<Rightarrow> good_bound bound
         \<and> (case side of
              BinaryOp inner arith k \<Rightarrow> (case (const_u64 bound, const_u64 k) of
                  (Some m, Some j) \<Rightarrow> as_value bound \<noteq> None \<and> as_value k \<noteq> None \<and> m + j < 2 ^ 64
                    \<and> (op = NotEq \<longrightarrow> m \<le> j + 1 \<and> arith = Plus)
                | _ \<Rightarrow> False)
            | _ \<Rightarrow> op = NotEq \<longrightarrow> (case const_u64 bound of Some m \<Rightarrow> m \<le> 1 | None \<Rightarrow> False)))"

definition liftable :: "'q expr \<Rightarrow> bool" where
  "liftable e \<longleftrightarrow> rownum_effect e \<noteq> None \<and> (case e of
       Between a negated low high \<Rightarrow> good_bound low \<and> good_bound high
     | BinaryOp left op right \<Rightarrow> good_comparison left op right
     | _ \<Rightarrow> False)"

definition clear_conjunct :: "'q expr \<Rightarrow> bool" where
  "clear_conjunct e \<longleftrightarrow> \<not> mentions_rownum e \<or> liftable e"

section \<open>The two agree\<close>

lemma number_free: "\<not> mentions_rownum e \<Longrightarrow> number_of ev n e = number_of ev m e"
  by (induction ev n e rule: number_of.induct)
    (auto split: sql_value.splits option.splits list.splits fn_arg.splits)

lemma holds_free: "\<not> mentions_rownum e \<Longrightarrow> holds ev tv n r e = holds ev tv m r e"
  by (induction e) auto

lemma holds_flatten: "holds ev tv n r e \<longleftrightarrow> (\<forall>c \<in> set (flatten_and e). holds ev tv n r c)"
  by (induction e rule: flatten_and.induct) auto

lemma holds_foldl_and:
  "holds ev tv n r (foldl (\<lambda>a b. BinaryOp a And b) e cs) \<longleftrightarrow> holds ev tv n r e \<and> (\<forall>c \<in> set cs. holds ev tv n r c)"
  by (induction cs arbitrary: e) auto

lemma selected_rebuild: "selected ev tv (rebuild_and cs) rows = filter (\<lambda>r. \<forall>c \<in> set cs. holds ev tv 0 r c) rows"
  by (cases cs) (simp_all add: selected_def rebuild_and_def holds_foldl_and)

text \<open>Numbers.\<close>

lemma const_num [simp]: "k < 2 ^ 64 \<Longrightarrow> const_u64 (num k) = Some k"
  by (simp add: const_u64_def num_def lit_def parse_usize_show)

lemma number_num [simp]: "k < 2 ^ 64 \<Longrightarrow> number_of ev n (num k) = int k"
  by (simp add: num_def lit_def parse_usize_show)

lemma mentions_num [simp]: "\<not> mentions_rownum (num k)"
  by (simp add: num_def lit_def)

lemma const_literal: "const_u64 e = Some k \<Longrightarrow> as_value e \<noteq> None \<Longrightarrow> number_of ev n e = int k"
  by (auto simp: const_u64_def as_value_def split: expr.splits sql_value.splits)

lemma const_bound: "const_u64 e = Some k \<Longrightarrow> k < 2 ^ 64"
  by (auto simp: const_u64_def parse_usize_def Let_def split: expr.splits sql_value.splits unary_op.splits if_splits)

text \<open>What an effect says of the condition \<open>P\<close> on the row number.\<close>

definition faithful :: "('q expr \<Rightarrow> int) \<Rightarrow> 'q expr \<Rightarrow> bool" where
  "faithful ev e \<longleftrightarrow> \<not> mentions_rownum e \<and> (\<forall>k. const_u64 e = Some k \<longrightarrow> number_of ev 0 e = int k)"

definition meaning :: "('q expr \<Rightarrow> int) \<Rightarrow> 'q effect \<Rightarrow> (nat \<Rightarrow> bool) \<Rightarrow> bool" where
  "meaning ev eff P \<longleftrightarrow> (case eff of
       Limit e \<Rightarrow> faithful ev e \<and> (\<forall>n \<ge> 1. P n \<longleftrightarrow> int n \<le> number_of ev 0 e)
     | Empty \<Rightarrow> \<not> P 1
     | AllRows \<Rightarrow> \<forall>n \<ge> 1. P n)"

lemma meaning_cong: "(\<And>n. 1 \<le> n \<Longrightarrow> P n = Q n) \<Longrightarrow> meaning ev eff P = meaning ev eff Q"
  by (auto simp: meaning_def split: effect.splits)

lemma constant_meaning:
  assumes "constant_effect op k = Some eff" "k < 2 ^ 64" "op = NotEq \<Longrightarrow> k \<le> 1"
  shows "meaning ev eff (\<lambda>n. compares op (int n) (int k))"
  using assms
  by (cases op) (auto simp: constant_effect_def meaning_def compares_def faithful_def split: if_splits)

lemma good_number:
  assumes "good_bound e" "const_u64 e = Some k"
  shows "number_of ev n e = int k \<or> k = 0 \<and> number_of ev n e \<le> 0"
  using assms
  by (auto simp: good_bound_def const_u64_def split: expr.splits sql_value.splits unary_op.splits option.splits)

lemma constant_meaning_negative:
  assumes "constant_effect op 0 = Some eff" "v \<le> 0"
  shows "meaning ev eff (\<lambda>n. compares op (int n) v)"
  using assms by (cases op) (auto simp: constant_effect_def meaning_def compares_def split: if_splits)

lemma bound_meaning:
  assumes "bound_effect op bound = Some eff" "good_bound bound" "op = NotEq \<Longrightarrow> (\<exists>m \<le> 1. const_u64 bound = Some m)"
  shows "meaning ev eff (\<lambda>n. compares op (int n) (number_of ev 0 bound))"
proof (cases "const_u64 bound")
  case None
  with assms(1,2) show ?thesis
    by (auto simp: bound_effect_def meaning_def compares_def faithful_def good_bound_def lit_def const_u64_def
        parse_usize_def parse_digits_def is_ascii_digit_def code_def digit_val_def split: if_splits)
next
  case (Some k)
  with assms(1) have c: "constant_effect op k = Some eff" by (simp add: bound_effect_def)
  from good_number [OF assms(2) Some, of ev 0] show ?thesis
  proof
    assume "number_of ev 0 bound = int k"
    with constant_meaning [OF c const_bound [OF Some]] assms(3) Some show ?thesis by auto
  qed (use c constant_meaning_negative in auto)
qed

lemma is_rownum_number: "is_rownum e \<Longrightarrow> number_of ev n e = int n \<and> mentions_rownum e"
  by (auto simp: is_rownum_def split: expr.splits)

lemma orient_compares:
  "orient left op right = Some (op', side, bound)
    \<Longrightarrow> compares op (f left) (f right) = compares op' (f side) (f bound)"
  by (auto simp: orient_def flip_comparison_def compares_def split: if_splits binary_op.splits)

lemma shift_compares:
  assumes "1 \<le> n" "m + j < 2 ^ 64" "op = NotEq \<Longrightarrow> m \<le> j + 1"
  shows "compares op (int n + int j) (int m) = compares op (int n) (int (m - j))"
  using assms by (cases op) (auto simp: compares_def)

lemma unshift_compares: "compares op (int n - int j) (int m) = compares op (int n) (int (m + j))"
  by (cases op) (auto simp: compares_def)

lemma comparison_meaning:
  assumes "comparison_effect left op right = Some eff" "good_comparison left op right"
  shows "meaning ev eff (\<lambda>n. compares op (number_of ev n left) (number_of ev n right))"
proof -
  obtain op' side bound where o: "orient left op right = Some (op', side, bound)"
    using assms(1) by (auto simp: comparison_effect_def split: Option.bind_splits)
  obtain b where b: "shifted_bound side bound = Some b" "bound_effect op' b = Some eff"
    using assms(1) o by (auto simp: comparison_effect_def split: Option.bind_splits)
  note g = assms(2) [unfolded good_comparison_def o option.case prod.case]
  have bound: "number_of ev n bound = number_of ev 0 bound" for n
    using g number_free by (auto simp: good_bound_def)
  have "meaning ev eff (\<lambda>n. compares op' (number_of ev n side) (number_of ev n bound))"
  proof (cases "\<exists>inner arith k. side = BinaryOp inner arith k")
    case True
    then obtain inner arith k where side: "side = BinaryOp inner arith k" by blast
    with g obtain m j where mj: "const_u64 bound = Some m" "const_u64 k = Some j" "as_value bound \<noteq> None"
        "as_value k \<noteq> None" "m + j < 2 ^ 64" "op' = NotEq \<Longrightarrow> m \<le> j + 1 \<and> arith = Plus"
      by (auto split: option.splits)
    have b': "b = num (if arith = Plus then m - j else m + j)" and r: "is_rownum inner" "arith = Plus \<or> arith = Minus"
      using b(1) mj(1,2,5) by (auto simp: side shifted_bound_def is_rownum_def split: if_splits)
    let ?x = "if arith = Plus then m - j else m + j"
    have "constant_effect op' ?x = Some eff" and x: "?x < 2 ^ 64"
      using b(2) mj(5) by (auto simp: b' bound_effect_def)
    then have mean: "meaning ev eff (\<lambda>n. compares op' (int n) (int ?x))"
      using mj(6) by (intro constant_meaning) auto
    have eq: "compares op' (number_of ev n side) (number_of ev n bound) = compares op' (int n) (int ?x)" if n: "1 \<le> n" for n
    proof -
      have v: "number_of ev n bound = int m" "number_of ev n k = int j" "number_of ev n inner = int n"
        using const_literal [OF mj(1,3)] const_literal [OF mj(2,4)] is_rownum_number [OF r(1)] by auto
      from r(2) show ?thesis
      proof
        assume plus: "arith = Plus"
        then have "compares op' (int n + int j) (int m) = compares op' (int n) (int (m - j))"
          using mj(6) by (intro shift_compares [OF n mj(5)]) simp
        with plus v show ?thesis by (simp only: side number_of.simps if_True refl)
      next
        assume minus: "arith = Minus"
        then have "arith \<noteq> Plus" by simp
        with minus v unshift_compares [of op' n j m] show ?thesis
          by (simp only: side number_of.simps if_True if_False refl)
      qed
    qed
    show ?thesis by (rule iffD2 [OF meaning_cong [OF eq] mean])
  next
    case False
    then have side: "is_rownum side" "b = bound"
      using b(1) by (auto simp: shifted_bound_def split: expr.splits if_splits)
    then have "op' = NotEq \<Longrightarrow> \<exists>m \<le> 1. const_u64 bound = Some m"
      using g by (auto simp: is_rownum_def split: expr.splits option.splits)
    then have "meaning ev eff (\<lambda>n. compares op' (int n) (number_of ev 0 bound))"
      using b(2) side(2) g by (intro bound_meaning) auto
    moreover have "compares op' (number_of ev n side) (number_of ev n bound) = compares op' (int n) (number_of ev 0 bound)" for n
      using is_rownum_number [OF side(1), of ev n] bound [of n] by simp
    ultimately show ?thesis by simp
  qed
  then show ?thesis by (simp add: orient_compares [OF o, of "number_of ev _"])
qed

lemma between_meaning:
  assumes "between_effect low high = Some eff" "good_bound low" "good_bound high"
  shows "meaning ev eff (\<lambda>n. number_of ev 0 low \<le> int n \<and> int n \<le> number_of ev 0 high)"
proof -
  obtain lo where lo: "const_u64 low = Some lo" using assms(1) by (auto simp: between_effect_def split: option.splits)
  note low = good_number [OF assms(2) lo, of ev 0]
  show ?thesis
  proof (cases "const_u64 high")
    case None
    then show ?thesis
      using assms lo low by (auto simp: between_effect_def meaning_def faithful_def good_bound_def split: if_splits)
  next
    case (Some h)
    with good_number [OF assms(3) Some, of ev 0] assms lo low show ?thesis
      by (auto simp: between_effect_def meaning_def faithful_def good_bound_def split: if_splits)
  qed
qed

lemma orient_sides:
  "orient left op right = Some (op', side, bound)
    \<Longrightarrow> (op = And \<longrightarrow> op' = And) \<and> (side = left \<or> side = right)"
  by (auto simp: orient_def flip_comparison_def split: if_splits)

lemma shifted_mentions: "shifted_bound side bound = Some b \<Longrightarrow> mentions_rownum side"
  by (auto simp: shifted_bound_def dest: is_rownum_number split: expr.splits if_splits)

lemma bound_effect_And: "bound_effect And b = None"
  by (simp add: bound_effect_def constant_effect_def split: option.split)

lemma comparison_mentions:
  assumes "comparison_effect left op right = Some eff"
  shows "op \<noteq> And \<and> mentions_rownum (BinaryOp left op right)"
proof -
  obtain op' side bound b where o: "orient left op right = Some (op', side, bound)"
      "shifted_bound side bound = Some b" "bound_effect op' b = Some eff"
    using assms by (auto simp: comparison_effect_def split: Option.bind_splits)
  have "op' \<noteq> And" using o(3) by (auto simp: bound_effect_And)
  with orient_sides [OF o(1)] shifted_mentions [OF o(2)] show ?thesis by auto
qed

lemma holds_liftable:
  assumes "liftable e" "rownum_effect e = Some eff"
  shows "meaning ev eff (\<lambda>n. holds ev tv n r e)"
proof (cases e)
  case (BinaryOp left op right)
  with assms have "comparison_effect left op right = Some eff" "good_comparison left op right"
    by (simp_all add: rownum_effect_def liftable_def)
  note c = this
  from comparison_mentions [OF c(1)]
  have "holds ev tv n r e = compares op (number_of ev n left) (number_of ev n right)" for n
    by (simp only: BinaryOp holds.simps if_True if_False)
  with comparison_meaning [OF c] show ?thesis by simp
next
  case (Between subject negated low high)
  with assms have b: "between_effect low high = Some eff" "good_bound low" "good_bound high" "\<not> negated" "is_rownum subject"
    by (simp_all add: rownum_effect_def liftable_def split: if_splits)
  have free: "number_of ev n low = number_of ev 0 low" "number_of ev n high = number_of ev 0 high" for n
    using b(2,3) number_free by (auto simp: good_bound_def)
  have "holds ev tv n r e \<longleftrightarrow> number_of ev 0 low \<le> int n \<and> int n \<le> number_of ev 0 high" for n
    using free [of n] b(4) is_rownum_number [OF b(5), of ev n] by (simp add: Between)
  with between_meaning [OF b(1-3)] show ?thesis by simp
qed (use assms in \<open>simp_all add: liftable_def\<close>)

text \<open>The least of two limits.\<close>

lemma least_faithful:
  assumes "faithful ev a" "faithful ev b"
  shows "faithful ev (least_expr a b) \<and> number_of ev 0 (least_expr a b) = min (number_of ev 0 a) (number_of ev 0 b)"
  using assms
  by (cases "const_u64 a"; cases "const_u64 b")
    (auto simp: faithful_def least_expr_def plain_call_def obj_name_def const_u64_def min_def)

text \<open>What is stripped so far, as a condition on the row and its number.\<close>

definition within :: "('q expr \<Rightarrow> int) \<Rightarrow> 'q expr option \<Rightarrow> nat \<Rightarrow> bool" where
  "within ev limit n \<longleftrightarrow> (case limit of None \<Rightarrow> True | Some e \<Rightarrow> int n \<le> number_of ev 0 e)"

definition limit_ok :: "('q expr \<Rightarrow> int) \<Rightarrow> 'q expr option \<Rightarrow> bool" where
  "limit_ok ev limit \<longleftrightarrow> (case limit of None \<Rightarrow> True | Some e \<Rightarrow> faithful ev e)"

lemma clear_kept: "clear_conjunct c \<Longrightarrow> rownum_effect c = None \<Longrightarrow> \<not> mentions_rownum c"
  by (simp add: clear_conjunct_def liftable_def)

lemma rownum_effect_mentions: "rownum_effect c = Some eff \<Longrightarrow> mentions_rownum c"
  by (auto simp: rownum_effect_def dest: comparison_mentions is_rownum_number split: expr.splits if_splits)

lemma clear_lifted: "clear_conjunct c \<Longrightarrow> rownum_effect c = Some eff \<Longrightarrow> meaning ev eff (\<lambda>n. holds ev tv n r c)"
  using rownum_effect_mentions holds_liftable by (auto simp: clear_conjunct_def)

lemma strip_step_simps:
  "rownum_effect c = None \<Longrightarrow> strip_step c (k, l, e) = (k @ [c], l, e)"
  "rownum_effect c = Some (Limit x)
    \<Longrightarrow> strip_step c (k, l, e) = (k, Some (case l of None \<Rightarrow> x | Some existing \<Rightarrow> least_expr existing x), e)"
  "rownum_effect c = Some Empty \<Longrightarrow> strip_step c (k, l, e) = (k, l, True)"
  "rownum_effect c = Some AllRows \<Longrightarrow> strip_step c (k, l, e) = (k, l, e)"
  by (simp_all add: strip_step_def)

lemma strip_limits:
  assumes "\<forall>c \<in> set cs. clear_conjunct c" "fold strip_step cs (kept0, limit0, e0) = (kept, limit, e)" "limit_ok ev limit0"
  shows "limit_ok ev limit \<and> (e \<longleftrightarrow> e0 \<or> (\<exists>c \<in> set cs. rownum_effect c = Some Empty))
    \<and> kept = kept0 @ filter (\<lambda>c. rownum_effect c = None) cs
    \<and> (\<forall>n \<ge> 1. \<forall>r. within ev limit n \<longleftrightarrow> within ev limit0 n
         \<and> (\<forall>c \<in> set cs. rownum_effect c \<noteq> None \<and> rownum_effect c \<noteq> Some Empty \<longrightarrow> holds ev tv n r c))"
  using assms
proof (induction cs arbitrary: kept0 limit0 e0)
  case (Cons c cs)
  have clear: "clear_conjunct c" using Cons.prems(1) by simp
  show ?case
  proof (cases "rownum_effect c")
    case None
    with Cons.prems Cons.IH [of "kept0 @ [c]" limit0 e0] show ?thesis by (auto simp: strip_step_simps)
  next
    case (Some eff)
    note m = clear_lifted [OF clear Some, of ev tv]
    show ?thesis
    proof (cases eff)
      case (Limit x)
      let ?l = "Some (case limit0 of None \<Rightarrow> x | Some existing \<Rightarrow> least_expr existing x)"
      have fx: "faithful ev x" using m by (simp add: meaning_def Limit)
      have x: "holds ev tv n r c \<longleftrightarrow> int n \<le> number_of ev 0 x" if "1 \<le> n" for n r
        using m [of r] that by (simp add: meaning_def Limit)
      have l: "limit_ok ev ?l" using fx Cons.prems(3) by (auto simp: limit_ok_def least_faithful split: option.splits)
      have w: "within ev ?l n \<longleftrightarrow> within ev limit0 n \<and> holds ev tv n r c" if "1 \<le> n" for n r
        
        using x [OF that, of r] fx Cons.prems(3) by (cases limit0) (auto simp: within_def limit_ok_def least_faithful)
      have "fold strip_step cs (kept0, ?l, e0) = (kept, limit, e)"
        using Cons.prems(2) by (simp add: strip_step_simps Some Limit)
      note IH = Cons.IH [OF _ this l]
      have "within ev limit n \<longleftrightarrow> within ev limit0 n \<and> (\<forall>c \<in> set (c # cs).
          rownum_effect c \<noteq> None \<and> rownum_effect c \<noteq> Some Empty \<longrightarrow> holds ev tv n r c)" if "1 \<le> n" for n r
      proof -
        have "within ev limit n \<longleftrightarrow> within ev ?l n \<and> (\<forall>c \<in> set cs.
            rownum_effect c \<noteq> None \<and> rownum_effect c \<noteq> Some Empty \<longrightarrow> holds ev tv n r c)"
          using IH Cons.prems(1) that by simp
        with w [OF that, of r] show ?thesis by (simp add: Some Limit)
      qed
      moreover have "limit_ok ev limit" "kept = kept0 @ filter (\<lambda>c. rownum_effect c = None) cs"
          "e \<longleftrightarrow> e0 \<or> (\<exists>c \<in> set cs. rownum_effect c = Some Empty)"
        using IH Cons.prems(1) by simp_all
      ultimately show ?thesis by (simp add: Some Limit)
    next
      case Empty
      with Cons.prems Cons.IH [of kept0 limit0 True] Some show ?thesis by (auto simp: strip_step_simps)
    next
      case AllRows
      with m have "holds ev tv n r c" if "1 \<le> n" for n r using that by (simp add: meaning_def)
      with AllRows Cons.prems Cons.IH [of kept0 limit0 e0] Some show ?thesis by (auto simp: strip_step_simps)
    qed
  qed
qed simp

text \<open>Accepting row by row.\<close>

lemma oracle_rows_none: "(\<forall>r. \<not> p n r) \<Longrightarrow> oracle_rows p n rows = []"
  by (induction rows) simp_all

lemma oracle_rows_cong: "(\<And>m r. n \<le> m \<Longrightarrow> p m r = q m r) \<Longrightarrow> oracle_rows p n rows = oracle_rows q n rows"
  by (induction rows arbitrary: n) simp_all

lemma oracle_rows_all: "oracle_rows (\<lambda>n r. K r) n rows = filter K rows"
  by (induction rows arbitrary: n) simp_all

lemma oracle_rows_limit:
  "oracle_rows (\<lambda>n r. K r \<and> int n \<le> v) n rows = take (nat (v - int n + 1)) (filter K rows)"
proof (induction rows arbitrary: n)
  case (Cons r rows)
  show ?case
  proof (cases "K r \<and> int n \<le> v")
    case True
    then have "nat (v - int n + 1) = Suc (nat (v - int (n + 1) + 1))"
      using nat_add_distrib [of "v - int n" 1] by simp
    with True Cons.IH [of "n + 1"] show ?thesis by simp
  qed (use Cons.IH [of n] in auto)
qed simp


definition limit_sample :: "unit expr" where
  "limit_sample = BinaryOp (Identifier ''ACTIVE'') And
     (Nested (BinaryOp (BinaryOp (Identifier ''rownum'') LtEq (num 2)) And (BinaryOp (num 9) Gt (Identifier ''ROWNUM''))))"


section \<open>Where they differ\<close>

lemma rownum_name: "eq_ignore_ascii_case ''ROWNUM'' ''rownum''"
  by code_simp

lemma rownum_identifier: "is_rownum (Identifier ''ROWNUM'')"
  by (simp add: is_rownum_def rownum_name)

lemma num_no_rownum: "\<not> is_rownum (num k)"
  by (simp add: is_rownum_def num_def lit_def)

text \<open>
  C21.  The row number compared by inequality with a number above 1 is dropped from the clause,
  and every row is returned; Oracle stops short of that number, because the row that would get
  it is refused and the number stays free.
\<close>

theorem row_number_inequality_dropped:
  fixes ev :: "'q expr \<Rightarrow> int"
  assumes "2 \<le> k" "k < 2 ^ 64"
  shows "strip_rownum_predicate (BinaryOp (Identifier ''ROWNUM'') NotEq (num k) :: 'q expr) = (None, None)
    \<and> oracle_rows (\<lambda>n r. holds ev tv n r (BinaryOp (Identifier ''ROWNUM'') NotEq (num k))) 1 rows = take (k - 1) rows"
proof -
  note r = rownum_name
  let ?c = "BinaryOp (Identifier ''ROWNUM'') NotEq (num k) :: 'q expr"
  have "rownum_effect ?c = Some AllRows"
    using assms
    by (simp add: rownum_identifier rownum_effect_def comparison_effect_def orient_def shifted_bound_def bound_effect_def constant_effect_def)
  then have "strip_rownum_predicate ?c = (None, None)"
    by (simp add: strip_rownum_predicate_def strip_step_simps rebuild_and_def)
  moreover have "oracle_rows (\<lambda>n r. holds ev tv n r ?c) n rows = take (k - n) rows" if "n \<le> k" for n
    using that
  proof (induction rows arbitrary: n)
    case (Cons x rows)
    show ?case
    proof (cases "n = k")
      case True
      then have "oracle_rows (\<lambda>n r. holds ev tv n r ?c) n rows = []" using Cons.IH [of n] by simp
      with True r assms(2) show ?thesis by (simp add: compares_def)
    next
      case False
      with Cons.prems have "k - n = Suc (k - (n + 1))" by simp
      with Cons.IH [of "n + 1"] Cons.prems False r assms(2) show ?thesis by (simp add: compares_def)
    qed
  qed simp
  ultimately show ?thesis using assms(1) by simp
qed

lemma row_number_inequality_dropped_witness:
  "strip_rownum_predicate (BinaryOp (Identifier ''ROWNUM'') NotEq (num 3)) = (None, None :: unit expr option)
   \<and> oracle_rows (\<lambda>n r. holds (\<lambda>_. 0) (\<lambda>_ _. True) n r (BinaryOp (Identifier ''ROWNUM'') NotEq (num 3 :: unit expr))) 1
       [10, 20, 30, 40 :: nat] = [10, 20]"
  using row_number_inequality_dropped [of 3 "\<lambda>_. 0" "\<lambda>_ _. True" "[10, 20, 30, 40 :: nat]"] by simp

text \<open>A printer of trees that shows the parentheses of \<open>Nested\<close> and no others.\<close>

definition prints_plainly :: "('q expr \<Rightarrow> string) \<Rightarrow> bool" where
  "prints_plainly render \<longleftrightarrow>
     (\<forall>a b. render (BinaryOp a And b) = render a @ '' AND '' @ render b) \<and>
     (\<forall>a t b. render (BinaryOp a (OtherOp t) b) = render a @ '' '' @ t @ '' '' @ render b) \<and>
     (\<forall>a. render (Nested a) = ''('' @ render a @ '')'')"

text \<open>
  C22.  A disjunction in parentheses next to another condition comes back without its
  parentheses.  As a tree it means the same; as the text sent to the database, where AND binds
  tighter, it means something else.
\<close>

theorem parentheses_lost:
  assumes "prints_plainly render" "flatten_and p = [p]" "rownum_effect p = None"
    "rownum_effect (BinaryOp q (OtherOp ''OR'') r) = None"
  shows "render (BinaryOp p And (Nested (BinaryOp q (OtherOp ''OR'') r)))
      = render p @ '' AND ('' @ render q @ '' OR '' @ render r @ '')''
    \<and> map_option render (fst (strip_rownum_predicate (BinaryOp p And (Nested (BinaryOp q (OtherOp ''OR'') r)))))
      = Some (render p @ '' AND '' @ render q @ '' OR '' @ render r)"
proof -
  have "strip_rownum_predicate (BinaryOp p And (Nested (BinaryOp q (OtherOp ''OR'') r)))
      = (Some (BinaryOp p And (BinaryOp q (OtherOp ''OR'') r)), None)"
    using assms by (simp add: strip_rownum_predicate_def strip_step_simps rebuild_and_def)
  with assms(1) show ?thesis by (simp add: prints_plainly_def)
qed

fun print_sample :: "unit expr \<Rightarrow> string" where
  "print_sample (Identifier i) = i"
| "print_sample (Nested a) = ''('' @ print_sample a @ '')''"
| "print_sample (BinaryOp a op b) =
     print_sample a @ (case op of And \<Rightarrow> '' AND '' | OtherOp t \<Rightarrow> '' '' @ t @ '' '' | _ \<Rightarrow> '' ? '') @ print_sample b"
| "print_sample e = ''?''"

lemma parentheses_lost_witness:
  "map_option print_sample (fst (strip_rownum_predicate (BinaryOp (Identifier ''A'') And
       (Nested (BinaryOp (Identifier ''B'') (OtherOp ''OR'') (Identifier ''C''))))))
     = Some ''A AND B OR C''"
proof -
  have p: "prints_plainly print_sample" by (simp add: prints_plainly_def)
  have n: "rownum_effect (Identifier ''A'' :: unit expr) = None" by (simp add: rownum_effect_def)
  have "\<not> eq_ignore_ascii_case ''B'' ''rownum''" "\<not> eq_ignore_ascii_case ''C'' ''rownum''" by code_simp+
  then have o: "rownum_effect (BinaryOp (Identifier ''B'') (OtherOp ''OR'') (Identifier ''C'') :: unit expr) = None"
    by (simp add: rownum_effect_def comparison_effect_def orient_def shifted_bound_def is_rownum_def)
  have "flatten_and (Identifier ''A'' :: unit expr) = [Identifier ''A'']" by simp
  from conjunct2 [OF parentheses_lost [OF p this n o]] show ?thesis by simp
qed

end
