(* ===== verification/Sql_Joins.thy ===== *)
theory Sql_Joins
  imports Sql_Text "HOL-Library.Multiset"
begin

text \<open>
  Oracle's outer joins marked with \<open>(+)\<close> (\<open>rewrite_legacy_outer_join_text\<close> of
  \<^verbatim>\<open>src/src/translate/mod.rs\<close>): the clauses of the statement, the conditions that carry marks, the
  joins they go to, and the statement put together again.
\<close>

section \<open>Marks and qualifiers\<close>

definition mark :: string where "mark = ''(+)''"

text \<open>\<^verbatim>\<open>str::replace\<close>, for a pattern that is not empty.\<close>

function replace_all :: "string \<Rightarrow> string \<Rightarrow> string \<Rightarrow> string" where
  "replace_all p r s =
     (if s = [] then []
      else if p \<noteq> [] \<and> starts_with s p then r @ replace_all p r (drop (length p) s)
      else hd s # replace_all p r (tl s))"
  by pat_completeness auto
termination
  by (relation "measure (\<lambda>(p, r, s). length s)") auto

declare replace_all.simps [simp del]

text \<open>The word before a position, given the text before it in reverse.\<close>

definition word_before :: "string \<Rightarrow> string" where
  "word_before gone = to_ascii_lowercase (rev (takeWhile ident_char gone))"

definition add_new :: "string \<Rightarrow> string list \<Rightarrow> string list" where
  "add_new q found = (if q = [] \<or> q \<in> set found then found else found @ [q])"

text \<open>The qualifier of the column a mark follows.\<close>

definition marked_qualifier :: "string \<Rightarrow> string" where
  "marked_qualifier gone =
     (case dropWhile ident_char (dropWhile (\<lambda>c. c = CHR '' '') gone) of
        c # before \<Rightarrow> if c = CHR ''.'' then word_before before else []
      | [] \<Rightarrow> [])"

function marked_from :: "string \<Rightarrow> string list \<Rightarrow> string \<Rightarrow> string list" where
  "marked_from gone found s =
     (if s = [] then found
      else if starts_with s mark
      then marked_from (rev mark @ gone) (add_new (marked_qualifier gone) found) (drop 3 s)
      else marked_from (hd s # gone) found (tl s))"
  by pat_completeness auto
termination
  by (relation "measure (\<lambda>(gone, found, s). length s)") auto

declare marked_from.simps [simp del]

definition marked_qualifiers :: "string \<Rightarrow> string list" where
  "marked_qualifiers pred = marked_from [] [] pred"

fun qualifiers_from :: "string \<Rightarrow> string list \<Rightarrow> string \<Rightarrow> string list" where
  "qualifiers_from gone found [] = found"
| "qualifiers_from gone found (c # s) =
     (let q = word_before gone in
      qualifiers_from (c # gone)
        (if c = CHR ''.'' \<and> \<not> (q \<noteq> [] \<and> is_ascii_digit (hd q)) then add_new q found else found) s)"

definition qualifiers :: "string \<Rightarrow> string list" where
  "qualifiers frag = qualifiers_from [] [] frag"

definition last_word :: "string \<Rightarrow> string" where
  "last_word table_ref = (let ws = split_whitespace table_ref in if ws = [] then table_ref else last ws)"

section \<open>The joins\<close>

record join_pred =
  refs :: "string list"
  marked :: "string list"
  cond :: string

definition strip_marks :: "string \<Rightarrow> string" where
  "strip_marks c = replace_all ''  '' '' '' (replace_all mark [] c)"

definition join_pred_of :: "string list \<Rightarrow> string \<Rightarrow> join_pred" where
  "join_pred_of keys c =
     \<lparr>refs = remdups_adj (filter (\<lambda>q. q \<in> set keys) (qualifiers (strip_marks c))),
      marked = marked_qualifiers c, cond = trim (strip_marks c)\<rparr>"

definition has_mark :: "string \<Rightarrow> bool" where
  "has_mark c \<longleftrightarrow> contains c mark"

definition join_preds_of :: "string list \<Rightarrow> string list \<Rightarrow> join_pred list" where
  "join_preds_of keys conjuncts = map (join_pred_of keys) (filter has_mark (map trim conjuncts))"

definition filters_of :: "string list \<Rightarrow> string list" where
  "filters_of conjuncts = filter (\<lambda>c. \<not> has_mark c) (map trim conjuncts)"

datatype join_kind = LeftJoin | CrossJoin | RightJoin | InnerJoin

record planned_join =
  how :: join_kind
  joined :: string
  on_conditions :: "string list"

text \<open>A predicate goes to the first table that it names together with one already placed, or alone.\<close>

definition connects :: "string list \<Rightarrow> string \<Rightarrow> join_pred \<Rightarrow> bool" where
  "connects placed key p \<longleftrightarrow> key \<in> set (refs p)
     \<and> (length (refs p) = 1 \<or> list_ex (\<lambda>r. r \<noteq> key \<and> r \<in> set placed) (refs p))"

definition kind_of :: "string list \<Rightarrow> string \<Rightarrow> string \<Rightarrow> string list \<Rightarrow> join_kind" where
  "kind_of outer base key on =
     (if key \<in> set outer then LeftJoin else if on = [] then CrossJoin
      else if base \<in> set outer then RightJoin else InnerJoin)"

text \<open>\<open>open_preds\<close> are the predicates not yet used.\<close>

fun place :: "string list \<Rightarrow> string \<Rightarrow> string list \<Rightarrow> join_pred list \<Rightarrow> (string \<times> string) list
    \<Rightarrow> planned_join list \<times> join_pred list" where
  "place outer base placed open_preds [] = ([], open_preds)"
| "place outer base placed open_preds ((table_ref, key) # rest) =
     (let on = map cond (filter (connects placed key) open_preds) in
      case place outer base (placed @ [key]) (filter (\<lambda>p. \<not> connects placed key p) open_preds) rest of
        (joins, unused) \<Rightarrow>
          (\<lparr>how = kind_of outer base key on, joined = trim table_ref, on_conditions = on\<rparr> # joins, unused))"

definition table_key :: "string \<Rightarrow> string" where
  "table_key table_ref = to_ascii_lowercase (last_word table_ref)"

definition plan_joins :: "string list \<Rightarrow> string list \<Rightarrow> planned_join list \<times> string list" where
  "plan_joins tables conjuncts =
     (let keys = map table_key tables;
          preds = join_preds_of keys conjuncts;
          outer = concat (map marked preds)
      in case place outer (hd keys) [hd keys] preds (zip (tl tables) (tl keys)) of
           (joins, unused) \<Rightarrow> (joins, filters_of conjuncts @ map cond unused))"

section \<open>The statement\<close>

record clauses =
  head_text :: string
  from_list :: string
  where_body :: string
  suffix :: string

definition suffix_words :: "string list" where
  "suffix_words = [''GROUP BY'', ''ORDER BY'', ''HAVING'', ''CONNECT BY'', ''START WITH'', ''FETCH'']"

definition suffix_at :: "string \<Rightarrow> nat option" where
  "suffix_at s = (case List.map_filter (find_top_level_kw s) suffix_words of
       [] \<Rightarrow> None | p # ps \<Rightarrow> Some (foldl min p ps))"

definition clauses_of :: "string \<Rightarrow> clauses option" where
  "clauses_of sql = (case (find_top_level_kw sql ''FROM'', find_top_level_kw sql ''WHERE'') of
       (Some from_at, Some where_at) \<Rightarrow>
         if where_at < from_at then None
         else
           let after_where = drop (where_at + 5) sql;
               (body, rest) = (case suffix_at after_where of
                   Some p \<Rightarrow> (take p after_where, drop p after_where) | None \<Rightarrow> (after_where, []))
           in Some \<lparr>head_text = take from_at sql, from_list = trim (drop (from_at + 4) (take where_at sql)),
                where_body = trim body, suffix = rest\<rparr>
     | _ \<Rightarrow> None)"

definition kind_text :: "join_kind \<Rightarrow> string" where
  "kind_text k = (case k of LeftJoin \<Rightarrow> ''LEFT JOIN'' | CrossJoin \<Rightarrow> ''CROSS JOIN''
     | RightJoin \<Rightarrow> ''RIGHT JOIN'' | InnerJoin \<Rightarrow> ''JOIN'')"

fun join_and :: "string list \<Rightarrow> string" where
  "join_and [] = []"
| "join_and [c] = c"
| "join_and (c # cs) = c @ '' AND '' @ join_and cs"

definition join_text :: "planned_join \<Rightarrow> string" where
  "join_text j = '' '' @ kind_text (how j) @ '' '' @ joined j
     @ (if on_conditions j = [] then [] else '' ON '' @ join_and (on_conditions j))"

definition statement_text :: "clauses \<Rightarrow> string \<Rightarrow> planned_join list \<Rightarrow> string list \<Rightarrow> string" where
  "statement_text cl base joins filters =
     head_text cl @ '' FROM '' @ trim base @ concat (map join_text joins)
     @ (if filters = [] then [] else '' WHERE '' @ join_and filters)
     @ (if suffix cl = [] then [] else '' '' @ trim (suffix cl))"

definition rewrite_legacy_outer_join_text :: "string \<Rightarrow> string option" where
  "rewrite_legacy_outer_join_text sql = Option.bind (clauses_of sql) (\<lambda>cl.
     let tables = split_top_level_commas (from_list cl);
         conjuncts = split_top_level_kw (where_body cl) ''AND''
     in if length tables < 2 \<or> join_preds_of (map table_key tables) conjuncts = [] then None
        else (case plan_joins tables conjuncts of
          (joins, filters) \<Rightarrow> Some (statement_text cl (hd tables) joins filters)))"

definition normalize_legacy_outer_join :: "string \<Rightarrow> string" where
  "normalize_legacy_outer_join sql =
     (if has_mark sql then unwrap_or sql (rewrite_legacy_outer_join_text sql) else sql)"

section \<open>No condition is lost\<close>

lemma place_keeps:
  "place outer base placed preds ts = (joins, unused)
    \<Longrightarrow> mset (concat (map on_conditions joins)) + mset (map cond unused) = mset (map cond preds)
      \<and> map joined joins = map (trim \<circ> fst) ts"
proof (induction outer base placed preds ts arbitrary: joins rule: place.induct)
  case (2 outer base placed preds table_ref key rest)
  let ?on = "filter (connects placed key) preds" and ?off = "filter (\<lambda>p. \<not> connects placed key p) preds"
  obtain js where js: "place outer base (placed @ [key]) ?off rest = (js, unused)"
      "joins = \<lparr>how = kind_of outer base key (map cond ?on), joined = trim table_ref, on_conditions = map cond ?on\<rparr> # js"
    using "2.prems" by (auto simp: Let_def split: prod.splits)
  have "mset (map cond ?on) + mset (map cond ?off) = mset (map cond preds)"
    by (induction preds) simp_all
  with "2.IH" [OF refl js(1)] show ?case by (simp add: js(2) add.assoc)
qed simp

text \<open>
  A text with some of its blanks taken out, one after the other; a blank is one white-space
  character.
\<close>

inductive thinned :: "string \<Rightarrow> string \<Rightarrow> bool" where
  thinned_refl: "thinned a a"
| thinned_step: "thinned a (x @ w @ y) \<Longrightarrow> ws_len w = length w \<Longrightarrow> thinned a (x @ y)"

text \<open>
  The second text is the first without its marks, up to blanks: blanks may go before and after
  the marks are taken out.
\<close>

definition same_condition :: "string \<Rightarrow> string \<Rightarrow> bool" where
  "same_condition marked_text c \<longleftrightarrow> (\<exists>x. thinned marked_text x \<and> thinned (replace_all mark [] x) c)"

text \<open>The pieces, with the keyword between them in upper or lower case, are the text.\<close>

fun spliced :: "string \<Rightarrow> string list \<Rightarrow> string \<Rightarrow> bool" where
  "spliced kw [] s = False"
| "spliced kw [p] s \<longleftrightarrow> s = p"
| "spliced kw (p # q # ps) s \<longleftrightarrow> take (length p) s = p \<and> to_ascii_uppercase (take (length kw) (drop (length p) s)) = kw
     \<and> spliced kw (q # ps) (drop (length p + length kw) s)"

lemma thinned_trans: "thinned b c \<Longrightarrow> thinned a b \<Longrightarrow> thinned a c"
  by (induction rule: thinned.induct) (auto intro: thinned.intros)

lemma thinned_front: "thinned a b \<Longrightarrow> thinned (p @ a) (p @ b)"
proof (induction rule: thinned.induct)
  case (thinned_step a x w y)
  from thinned.thinned_step [of "p @ a" "p @ x" w y] thinned_step show ?case by simp
qed (rule thinned_refl)

lemma ws_len_take: "ws_len (take (ws_len s) s) = length (take (ws_len s) s)"
proof (cases "take 3 s")
  case (Cons a r)
  note ac = Cons
  show ?thesis
  proof (cases r)
    case Nil
    with ac have "s = [a]" by (cases s; cases "tl s") auto
    then show ?thesis by (simp add: ws_len_def ws_codes_def)
  next
    case (Cons b r')
    with ac obtain t where s: "s = a # b # t" by (cases s; cases "tl s") auto
    show ?thesis by (cases t) (auto simp: s ws_len_def ws_codes_def)
  qed
qed (auto simp: ws_len_def ws_codes_def)

lemma thinned_start: "thinned s (trim_start s)"
proof (induction s rule: trim_start.induct)
  case (1 s)
  show ?case
  proof (cases "0 < ws_len s")
    case True
    from thinned_step [of s "[]" "take (ws_len s) s" "drop (ws_len s) s"] ws_len_take [of s]
    have "thinned s (drop (ws_len s) s)" by (simp add: thinned_refl)
    with 1 [OF True] True show ?thesis by (subst trim_start.simps) (auto intro: thinned_trans)
  next
    case False
    then show ?thesis by (subst trim_start.simps) (simp add: thinned_refl)
  qed
qed

lemma ws_end_blank: "ws_len (drop (length s - ws_len_end s) s) = ws_len_end s"
  by (cases s) (auto simp: ws_len_end_def Let_def ws_len_def ws_codes_def)

lemma ws_len_end_le: "ws_len_end s \<le> length s"
  by (cases s) (auto simp: ws_len_end_def Let_def)

lemma thinned_end: "thinned s (trim_end s)"
proof (induction s rule: trim_end.induct)
  case (1 s)
  let ?k = "length s - ws_len_end s"
  show ?case
  proof (cases "0 < ws_len_end s")
    case True
    from thinned_step [of s "take ?k s" "drop ?k s" "[]"] ws_end_blank [of s] ws_len_end_le [of s]
    have "thinned s (take ?k s)" by (simp add: thinned_refl)
    with 1 [OF True] True show ?thesis by (subst trim_end.simps) (auto intro: thinned_trans)
  next
    case False
    then show ?thesis by (subst trim_end.simps) (simp add: thinned_refl)
  qed
qed

lemma thinned_trim: "thinned s (trim s)"
  unfolding trim_def by (rule thinned_trans [OF thinned_end thinned_start])

lemma thinned_spaces: "thinned s (replace_all ''  '' '' '' s)"
proof (induction "''  ''" "'' ''" s rule: replace_all.induct)
  case (1 s)
  show ?case
  proof (cases "starts_with s ''  ''")
    case True
    then obtain t where s: "s = '' '' @ '' '' @ t" by (auto simp: starts_with_iff)
    have "ws_len '' '' = length '' ''" by (simp add: ws_len_def ws_codes_def code_def)
    then have "thinned s ('' '' @ t)" using thinned_step [of s "'' ''" "'' ''" t] by (simp add: s thinned_refl)
    moreover have "thinned ('' '' @ t) ('' '' @ replace_all ''  '' '' '' t)"
      using 1(1) True by (intro thinned_front) (simp add: s)
    ultimately have "thinned s ('' '' @ replace_all ''  '' '' '' t)" by (rule thinned_trans [rotated])
    with True show ?thesis by (subst replace_all.simps) (simp add: s)
  next
    case False
    show ?thesis
    proof (cases s)
      case (Cons c t)
      with False have "replace_all ''  '' '' '' s = c # replace_all ''  '' '' '' t" by (subst replace_all.simps) auto
      with 1(2) False Cons thinned_front [of t _ "[c]"] show ?thesis by auto
    qed (simp add: replace_all.simps thinned_refl)
  qed
qed

lemma replace_all_free: "\<not> contains s p \<Longrightarrow> replace_all p r s = s"
proof (induction s)
  case (Cons c s)
  then have "\<not> starts_with (c # s) p" "\<not> contains s p" by auto
  with Cons.IH show ?case by (subst replace_all.simps) simp
qed (simp add: replace_all.simps)

text \<open>What becomes of a condition.\<close>

definition unmarked :: "string \<Rightarrow> string" where
  "unmarked c = (if has_mark (trim c) then trim (strip_marks (trim c)) else trim c)"

lemma unmarked_same: "same_condition c (unmarked c)"
  unfolding same_condition_def
proof (intro exI conjI)
  show "thinned c (trim c)" by (rule thinned_trim)
  show "thinned (replace_all mark [] (trim c)) (unmarked c)"
  proof (cases "has_mark (trim c)")
    case True
    then show ?thesis
      unfolding unmarked_def strip_marks_def by (simp add: thinned_trans [OF thinned_trim thinned_spaces])
  next
    case False
    then show ?thesis by (simp add: unmarked_def has_mark_def replace_all_free thinned_refl)
  qed
qed

lemma find_kw_there: "find_kw_from kw st b i s = Some j \<Longrightarrow> to_ascii_uppercase (take (length kw) (drop (j - i) s)) = kw"
proof (induction kw st b i s rule: find_kw_from.induct)
  case (2 kw st before i c s)
  show ?case
  proof (cases "j = i")
    case True
    with 2(2) find_kw_bound [of kw "scan_char c st" "Some c" "i + 1" s j]
    have "starts_with (to_ascii_uppercase (c # s)) kw" by (auto split: if_splits)
    then have "take (length kw) (to_ascii_uppercase (c # s)) = kw" by (auto simp: starts_with_iff)
    then have "to_ascii_uppercase (take (length kw) (c # s)) = kw" unfolding to_ascii_uppercase_def take_map .
    with True show ?thesis by simp
  next
    case False
    with 2(2) have r: "find_kw_from kw (scan_char c st) (Some c) (i + 1) s = Some j" by (auto split: if_splits)
    with find_kw_bound [OF r] 2(1) 2(2) False show ?thesis by (auto split: if_splits simp: drop_Cons')
  qed
qed simp

lemma find_top_level_there: "find_top_level_kw s kw = Some at \<Longrightarrow> to_ascii_uppercase (take (length kw) (drop at s)) = kw"
  using find_kw_there [of kw scan_start None 0 s at] by (simp add: find_top_level_kw_def)

lemma split_kw_nonempty: "split_top_level_kw s kw \<noteq> []"
  by (subst split_top_level_kw.simps) (simp split: option.split)

lemma split_kw_spliced: "spliced kw (split_top_level_kw s kw) s"
proof (induction s kw rule: split_top_level_kw.induct)
  case (1 s kw)
  show ?case
  proof (cases "find_top_level_kw s kw")
    case None
    then show ?thesis by (subst split_top_level_kw.simps) simp
  next
    case (Some at)
    let ?rest = "drop (at + length kw) s"
    obtain q ps where q: "split_top_level_kw ?rest kw = q # ps"
      using split_kw_nonempty by (meson neq_Nil_conv)
    from find_top_level_bound [OF Some] have len: "length (take at s) = at" by simp
    from 1 [OF Some] q have "spliced kw (q # ps) ?rest" by simp
    then have "spliced kw (take at s # q # ps) s"
      using find_top_level_there [OF Some] by (simp add: len del: length_take)
    with Some q show ?thesis by (subst split_top_level_kw.simps) simp
  qed
qed

text \<open>The clauses, with the two keywords, are the statement, up to blanks at their ends.\<close>

definition clauses_cover :: "clauses \<Rightarrow> string \<Rightarrow> bool" where
  "clauses_cover cl sql \<longleftrightarrow> (\<exists>from_kw from_text where_kw body.
     sql = head_text cl @ from_kw @ from_text @ where_kw @ body @ suffix cl
     \<and> to_ascii_uppercase from_kw = ''FROM'' \<and> to_ascii_uppercase where_kw = ''WHERE''
     \<and> trim from_text = from_list cl \<and> trim body = where_body cl)"

lemma keyword_lengths: "length ''FROM'' = 4" "length ''WHERE'' = 5"
  by simp_all

lemma upper_nth: "to_ascii_uppercase (take n (drop f s)) = kw \<Longrightarrow> i < length kw \<Longrightarrow> to_ascii_upper (s ! (f + i)) = kw ! i"
  by (auto simp: to_ascii_uppercase_def)

lemma split_twice:
  assumes "f + 4 \<le> w"
  shows "s = take f s @ take 4 (drop f s) @ drop (f + 4) (take w s) @ take 5 (drop w s) @ drop (w + 5) s"
proof -
  have "take w s = take f (take w s) @ take 4 (drop f (take w s)) @ drop 4 (drop f (take w s))"
    by (simp only: append_take_drop_id)
  moreover have "take f (take w s) = take f s" "take 4 (drop f (take w s)) = take 4 (drop f s)"
    using assms by (simp_all add: take_drop)
  moreover have "drop 4 (drop f (take w s)) = drop (f + 4) (take w s)" by (simp only: drop_drop add.commute)
  ultimately have "take w s = take f s @ take 4 (drop f s) @ drop (f + 4) (take w s)" by metis
  moreover have "drop w s = take 5 (drop w s) @ drop (w + 5) s"
    using append_take_drop_id [of 5 "drop w s"] by (simp add: add.commute)
  ultimately show ?thesis using append_take_drop_id [of w s] by (metis append_assoc)
qed

lemma clauses_of_cover:
  assumes "clauses_of sql = Some cl"
  shows "clauses_cover cl sql"
proof -
  obtain f w where fw: "find_top_level_kw sql ''FROM'' = Some f" "find_top_level_kw sql ''WHERE'' = Some w" "f \<le> w"
    using assms by (auto simp: clauses_of_def split: option.splits if_splits)
  let ?body = "\<lambda>t. case suffix_at t of None \<Rightarrow> t | Some p \<Rightarrow> take p t"
  let ?rest = "\<lambda>t. case suffix_at t of None \<Rightarrow> [] | Some p \<Rightarrow> drop p t"
  let ?after = "drop (w + 5) sql"
  have cl: "cl = \<lparr>head_text = take f sql, from_list = trim (drop (f + 4) (take w sql)),
      where_body = trim (?body ?after), suffix = ?rest ?after\<rparr>"
    using assms fw by (auto simp: clauses_of_def Let_def split: option.splits)
  have kw: "to_ascii_uppercase (take 4 (drop f sql)) = ''FROM''" "to_ascii_uppercase (take 5 (drop w sql)) = ''WHERE''"
    using find_top_level_there [OF fw(1)] find_top_level_there [OF fw(2)] by (simp_all only: keyword_lengths)
  have "f + 4 \<le> w"
  proof (rule ccontr)
    assume "\<not> f + 4 \<le> w"
    with fw(3) have "w = f \<or> w = f + 1 \<or> w = f + 2 \<or> w = f + 3" by arith
    with upper_nth [OF kw(1), of 0] upper_nth [OF kw(1), of 1] upper_nth [OF kw(1), of 2] upper_nth [OF kw(1), of 3]
      upper_nth [OF kw(2), of 0] show False
      by auto
  qed
  then have "sql = take f sql @ take 4 (drop f sql) @ drop (f + 4) (take w sql) @ take 5 (drop w sql) @ ?after"
    by (rule split_twice)
  moreover have "?after = ?body ?after @ ?rest ?after"
    by (cases "suffix_at ?after") (simp_all only: option.case append_take_drop_id append_Nil2)
  ultimately show ?thesis
    unfolding clauses_cover_def cl using kw
    by (intro exI [of _ "take 4 (drop f sql)"] exI [of _ "drop (f + 4) (take w sql)"] exI [of _ "take 5 (drop w sql)"]
      exI [of _ "?body ?after"]) auto
qed

lemma conjuncts_split:
  "mset (map cond (join_preds_of keys conjuncts)) + mset (filters_of conjuncts) = mset (map unmarked conjuncts)"
  by (induction conjuncts) (simp_all add: join_preds_of_def filters_of_def unmarked_def join_pred_of_def)

lemma plan_joins_keeps:
  assumes "plan_joins tables conjuncts = (joins, filters)" "tables \<noteq> []"
  shows "mset (concat (map on_conditions joins)) + mset filters = mset (map unmarked conjuncts)
    \<and> map joined joins = map trim (tl tables)"
proof -
  let ?keys = "map table_key tables"
  let ?preds = "join_preds_of ?keys conjuncts"
  obtain unused where p: "place (concat (map marked ?preds)) (hd ?keys) [hd ?keys] ?preds (zip (tl tables) (tl ?keys))
      = (joins, unused)" "filters = filters_of conjuncts @ map cond unused"
    using assms(1) by (auto simp: plan_joins_def Let_def split: prod.splits)
  have "map fst (zip (tl tables) (tl ?keys)) = tl tables" by simp
  with place_keeps [OF p(1)] conjuncts_split [of ?keys conjuncts] show ?thesis
    by (simp add: p(2) map_map [symmetric] ac_simps del: map_map)
qed


definition join_sample :: string where
  "join_sample = ''SELECT * FROM a, b WHERE a.id = b.id (+) AND a.x = 1''"

definition join_sample_clauses :: clauses where
  "join_sample_clauses = \<lparr>head_text = ''SELECT * '', from_list = ''a, b'',
     where_body = ''a.id = b.id (+) AND a.x = 1'', suffix = []\<rparr>"

lemma sample_clauses: "clauses_of join_sample = Some join_sample_clauses"
  by code_simp

lemma sample_joins: "rewrite_legacy_outer_join_text join_sample
    = Some ''SELECT *  FROM a LEFT JOIN b ON a.id = b.id WHERE a.x = 1''"
  by code_simp


text \<open>Two spaces in a literal of a marked condition become one.\<close>

lemma literal_spaces_lost:
  "strip_marks (''b.n(+) = '' @ quote_mark # ''x  y'' @ [quote_mark]) = ''b.n = '' @ quote_mark # ''x y'' @ [quote_mark]"
  by code_simp

text \<open>The AND of a BETWEEN is taken for one that separates conditions.\<close>

lemma between_split: "split_top_level_kw ''b.d(+) BETWEEN 1 AND 2'' ''AND'' = [''b.d(+) BETWEEN 1 '', '' 2'']"
  by code_simp

end
