(* ===== verification/Sql_Rewrite.thy ===== *)
theory Sql_Rewrite
  imports Sql_Ast
begin

text \<open>
  The rewriting of expressions (\<open>rewrite_expr\<close> of \<^verbatim>\<open>src/src/translate/mod.rs\<close>): Oracle's empty
  strings, dates, concatenation, division and functions in terms PostgreSQL has.  The printer
  and the parser of the syntax tree and the translation of nested queries are parameters.
\<close>

section \<open>What the rewriting looks at\<close>

text \<open>
  \<open>parse\<close> is \<open>try_parse_expr\<close> on text put together from printed trees, \<open>static\<close> is \<open>parse_expr\<close>
  on constant text, \<open>nested\<close> is \<open>translate_query\<close>.
\<close>

record 'q ast_tools =
  shown :: "'q expr \<Rightarrow> string"
  parse :: "string \<Rightarrow> error + 'q expr"
  static :: "string \<Rightarrow> 'q expr"
  nested :: "'q \<Rightarrow> error + 'q"

fun is_plain_date :: "'q expr \<Rightarrow> bool" where
  "is_plain_date (TypedString t s) \<longleftrightarrow> t = DDate"
| "is_plain_date (Nested a) = is_plain_date a"
| "is_plain_date e = False"

definition arithmetic :: "binary_op \<Rightarrow> bool" where
  "arithmetic op \<longleftrightarrow> op = Plus \<or> op = Minus \<or> op = Multiply \<or> op = Divide \<or> op = Modulo"

definition number_type :: "data_type \<Rightarrow> bool" where
  "number_type t \<longleftrightarrow> (case t of DNumeric _ \<Rightarrow> True | DDecimal _ \<Rightarrow> True | DInt _ \<Rightarrow> True | DInteger _ \<Rightarrow> True
     | DBigInt _ \<Rightarrow> True | DDouble _ \<Rightarrow> True | DFloat _ \<Rightarrow> True | _ \<Rightarrow> False)"

fun is_numberish :: "'q expr \<Rightarrow> bool" where
  "is_numberish (Value v) = (case v of Number _ \<Rightarrow> True | Placeholder _ \<Rightarrow> True | _ \<Rightarrow> False)"
| "is_numberish (UnaryOp op a) = is_numberish a"
| "is_numberish (Nested a) = is_numberish a"
| "is_numberish (BinaryOp a op b) \<longleftrightarrow> arithmetic op \<and> is_numberish a \<and> is_numberish b"
| "is_numberish (Cast a t) = number_type t"
| "is_numberish e = False"

definition date_type :: "data_type \<Rightarrow> bool" where
  "date_type t \<longleftrightarrow> (case t of DDate \<Rightarrow> True | DDatetime _ \<Rightarrow> True | DTimestamp _ \<Rightarrow> True | _ \<Rightarrow> False)"

definition date_functions :: "string list" where
  "date_functions = [''CURRENT_TIMESTAMP'', ''CURRENT_DATE'', ''LOCALTIMESTAMP'', ''LOCALTIME'', ''NOW'', ''SYSDATE'',
     ''SYSTIMESTAMP'', ''TO_DATE'', ''TO_TIMESTAMP'', ''ADD_MONTHS'', ''LAST_DAY'', ''NEXT_DAY'']"

definition called :: "object_name \<Rightarrow> string" where
  "called name = unwrap_or [] (name_last name)"

fun is_date_expr :: "'q expr \<Rightarrow> bool" where
  "is_date_expr (Cast a t) = date_type t"
| "is_date_expr (TypedString t s) = date_type t"
| "is_date_expr (Nested a) = is_date_expr a"
| "is_date_expr (BinaryOp a op b) \<longleftrightarrow> (op = Plus \<or> op = Minus) \<and> (is_date_expr a \<or> is_date_expr b)"
| "is_date_expr (Function name args over rest) \<longleftrightarrow>
     list_ex (eq_ignore_ascii_case (called name)) date_functions
     \<or> (eq_ignore_ascii_case (called name) ''TRUNC'' \<or> eq_ignore_ascii_case (called name) ''ROUND'')
       \<and> (case args of Some (Unnamed a # _) \<Rightarrow> is_date_expr a | _ \<Rightarrow> False)"
| "is_date_expr (Identifier i) \<longleftrightarrow> to_ascii_uppercase i = ''SYSDATE'' \<or> to_ascii_uppercase i = ''SYSTIMESTAMP''"
| "is_date_expr e = False"

definition contains_cast_to_numeric :: "'q expr \<Rightarrow> bool" where
  "contains_cast_to_numeric e \<longleftrightarrow> (case e of
       Cast _ t \<Rightarrow> (case t of DNumeric _ \<Rightarrow> True | DDecimal _ \<Rightarrow> True | DDouble _ \<Rightarrow> True | DFloat _ \<Rightarrow> True | _ \<Rightarrow> False)
     | _ \<Rightarrow> False)"

section \<open>Operators\<close>

definition wrap_coalesce_empty :: "'q expr \<Rightarrow> 'q expr" where
  "wrap_coalesce_empty e = (case as_value e of
       Some (SingleQuotedString _) \<Rightarrow> e
     | _ \<Rightarrow> plain_call ''COALESCE'' [Cast e DText, lit (SingleQuotedString [])])"

definition mul_by_one_day :: "'q ast_tools \<Rightarrow> 'q expr \<Rightarrow> 'q expr" where
  "mul_by_one_day E e = BinaryOp (Nested e) Multiply (static E (''INTERVAL '' @ quote_mark # ''1 day'' @ [quote_mark]))"

definition days_between :: "binary_op \<Rightarrow> 'q expr \<Rightarrow> 'q expr \<Rightarrow> bool" where
  "days_between op left right \<longleftrightarrow> op = Minus \<and> is_date_expr left \<and> is_date_expr right
     \<and> \<not> (is_plain_date left \<and> is_plain_date right)"

text \<open>Date arithmetic in days, \<open>||\<close> without NULL, real division; the operands are rewritten.\<close>

definition rewrite_operator :: "'q ast_tools \<Rightarrow> 'q expr \<Rightarrow> binary_op \<Rightarrow> 'q expr \<Rightarrow> error + 'q expr" where
  "rewrite_operator E left op right =
     (if days_between op left right
      then parse E (''EXTRACT(EPOCH FROM ('' @ shown E (BinaryOp left op right) @ '')) / 86400'')
      else
        let dated = (op = Plus \<or> op = Minus);
            right1 = (if dated \<and> is_date_expr left \<and> is_numberish right then mul_by_one_day E right else right);
            left1 = (if dated \<and> \<not> (is_date_expr left \<and> is_numberish right) \<and> is_date_expr right \<and> is_numberish left
                     then mul_by_one_day E left else left)
        in if op = StringConcat then Inr (BinaryOp (wrap_coalesce_empty left1) op (wrap_coalesce_empty right1))
           else if op = Divide \<and> \<not> contains_cast_to_numeric left1
           then Inr (BinaryOp (Cast left1 (DNumeric [])) op right1)
           else Inr (BinaryOp left1 op right1))"

section \<open>Functions\<close>

definition plain_argument :: "'q fn_arg \<Rightarrow> error + 'q expr" where
  "plain_argument a = (case a of Unnamed e \<Rightarrow> Inr e
     | _ \<Rightarrow> Inl (SqlParse ''named or wildcard Oracle function arguments are unsupported''))"

fun collect_args :: "'q fn_arg list \<Rightarrow> error + 'q expr list" where
  "collect_args [] = Inr []"
| "collect_args (a # as) = and_then (plain_argument a) (\<lambda>e. and_then (collect_args as) (\<lambda>es. Inr (e # es)))"

definition function_args :: "'q fn_arg list option \<Rightarrow> error + 'q expr list" where
  "function_args args = (case args of
       None \<Rightarrow> Inl (SqlParse ''Oracle function requires ordinary arguments'')
     | Some l \<Rightarrow> collect_args l)"

fun pairs_of :: "'a list \<Rightarrow> ('a \<times> 'a) list" where
  "pairs_of (a # b # xs) = (a, b) # pairs_of xs"
| "pairs_of _ = []"

definition decode_arm :: "'q expr \<Rightarrow> 'q expr \<times> 'q expr \<Rightarrow> 'q case_when" where
  "decode_arm input = (\<lambda>(search, result). CaseWhen (IsNotDistinctFrom (Cast input DText) (Cast search DText)) result)"

definition rewrite_decode :: "'q expr list \<Rightarrow> error + 'q expr" where
  "rewrite_decode args =
     (if length args < 3 then Inl (SqlParse ''DECODE requires at least three arguments'')
      else
        let pair_end = (if even (length args) then length args - 1 else length args)
        in Inr (Case None (map (decode_arm (args ! 0)) (pairs_of (drop 1 (take pair_end args))))
             (if pair_end < length args then Some (args ! pair_end) else None)))"

definition rewrite_nvl2 :: "'q expr list \<Rightarrow> error + 'q expr" where
  "rewrite_nvl2 args = (case args of
       [a, b, c] \<Rightarrow> Inr (Case None [CaseWhen (IsNotNull a) b] (Some c))
     | _ \<Rightarrow> Inl (SqlParse ''NVL2 requires exactly three arguments''))"

definition rewrite_lnnvl :: "'q expr list \<Rightarrow> error + 'q expr" where
  "rewrite_lnnvl args = (case args of
       [a] \<Rightarrow> Inr (IsNotTrue a)
     | _ \<Rightarrow> Inl (SqlParse ''LNNVL requires exactly one argument''))"

text \<open>A replacement that is NULL becomes the empty string; \<open>REGEXP_REPLACE\<close> replaces every match.\<close>

definition null_replacement :: "'q fn_arg list \<Rightarrow> 'q fn_arg list" where
  "null_replacement l = (case l of
       a # b # Unnamed c # r \<Rightarrow> a # b # Unnamed (if as_value c = Some Null then lit (SingleQuotedString []) else c) # r
     | _ \<Rightarrow> l)"

definition replace_arguments :: "string \<Rightarrow> 'q fn_arg list \<Rightarrow> 'q fn_arg list" where
  "replace_arguments name l =
     (let l' = null_replacement l in
      if eq_ignore_ascii_case name ''REGEXP_REPLACE'' \<and> length l' = 3
      then l' @ [Unnamed (lit (SingleQuotedString ''g''))] else l')"

text \<open>A call with its arguments rewritten.\<close>

definition rewrite_call :: "'q ast_tools \<Rightarrow> object_name \<Rightarrow> 'q fn_arg list option \<Rightarrow> string option \<Rightarrow> string \<Rightarrow> error + 'q expr" where
  "rewrite_call E fname fargs over rest =
     (let name = called fname; same = Inr (Function fname fargs over rest); args = function_args fargs in
      if eq_ignore_ascii_case name ''DECODE''
      then and_then args (\<lambda>as. if 3 \<le> length as then rewrite_decode as else same)
      else if eq_ignore_ascii_case name ''NVL2'' then and_then args rewrite_nvl2
      else if eq_ignore_ascii_case name ''LNNVL'' then and_then args rewrite_lnnvl
      else if eq_ignore_ascii_case name ''TO_DATE''
      then and_then args (\<lambda>as. case as of
          [a, b] \<Rightarrow> parse E (''CAST(to_timestamp('' @ shown E a @ '', '' @ shown E b @ '') AS timestamp)'')
        | _ \<Rightarrow> same)
      else if eq_ignore_ascii_case name ''REGEXP_REPLACE'' \<or> eq_ignore_ascii_case name ''REPLACE''
      then Inr (Function fname (map_option (replace_arguments name) fargs) over rest)
      else if eq_ignore_ascii_case name ''RATIO_TO_REPORT''
      then and_then args (\<lambda>as. case (as, over) of
          ([a], Some w) \<Rightarrow> parse E (''('' @ shown E a @ '')::numeric / NULLIF(SUM('' @ shown E a @ '') OVER '' @ w @ '', 0)'')
        | _ \<Rightarrow> same)
      else if eq_ignore_ascii_case name ''REGEXP_SUBSTR''
      then and_then args (\<lambda>as. case as of
          [a, b, c, d, _, g] \<Rightarrow>
            if const_u64 c = Some 1 \<and> const_u64 d = Some 1
            then parse E (''(regexp_match('' @ shown E a @ '', '' @ shown E b @ ''))['' @ shown E g @ '']'')
            else same
        | _ \<Rightarrow> same)
      else same)"

section \<open>The walk\<close>

text \<open>Empty strings and row numbers are replaced before anything else is looked at.\<close>

definition empty_literal :: "sql_value \<Rightarrow> bool" where
  "empty_literal v \<longleftrightarrow> v = SingleQuotedString [] \<or> v = DoubleQuotedString []"

definition cast_target :: "data_type \<Rightarrow> data_type" where
  "cast_target t = (if t = DDate then DTimestamp [] else t)"

definition mapped :: "('a \<Rightarrow> 'b) \<Rightarrow> error + 'a \<Rightarrow> error + 'b" where
  "mapped f r = and_then r (\<lambda>a. Inr (f a))"

lemma mapped_simps [simp]: "mapped f (Inl e) = Inl e" "mapped f (Inr a) = Inr (f a)"
  by (simp_all add: mapped_def)

fun rewrite_expr :: "'q ast_tools \<Rightarrow> 'q expr \<Rightarrow> error + 'q expr"
  and rewrite_exprs :: "'q ast_tools \<Rightarrow> 'q expr list \<Rightarrow> error + 'q expr list"
  and rewrite_whens :: "'q ast_tools \<Rightarrow> 'q case_when list \<Rightarrow> error + 'q case_when list"
  and rewrite_when :: "'q ast_tools \<Rightarrow> 'q case_when \<Rightarrow> error + 'q case_when"
  and rewrite_args :: "'q ast_tools \<Rightarrow> 'q fn_arg list \<Rightarrow> error + 'q fn_arg list"
  and rewrite_arg :: "'q ast_tools \<Rightarrow> 'q fn_arg \<Rightarrow> error + 'q fn_arg" where
  "rewrite_expr E (Value v) = Inr (if empty_literal v then lit Null else Value v)"
| "rewrite_expr E (Identifier i) =
     Inr (if eq_ignore_ascii_case i ''rownum'' then static E ''ROW_NUMBER() OVER ()'' else Identifier i)"
| "rewrite_expr E (BinaryOp a op b) =
     and_then (rewrite_expr E a) (\<lambda>a. and_then (rewrite_expr E b) (\<lambda>b. rewrite_operator E a op b))"
| "rewrite_expr E (UnaryOp op a) = mapped (UnaryOp op) (rewrite_expr E a)"
| "rewrite_expr E (Nested a) = mapped Nested (rewrite_expr E a)"
| "rewrite_expr E (IsNull a) = mapped IsNull (rewrite_expr E a)"
| "rewrite_expr E (IsNotNull a) = mapped IsNotNull (rewrite_expr E a)"
| "rewrite_expr E (IsTrue a) = mapped IsTrue (rewrite_expr E a)"
| "rewrite_expr E (IsNotTrue a) = mapped IsNotTrue (rewrite_expr E a)"
| "rewrite_expr E (Cast a t) = mapped (\<lambda>a. Cast a (cast_target t)) (rewrite_expr E a)"
| "rewrite_expr E (Collate a c) = mapped (\<lambda>a. Collate a c) (rewrite_expr E a)"
| "rewrite_expr E (Between a negated low high) =
     and_then (rewrite_expr E a) (\<lambda>a. and_then (rewrite_expr E low) (\<lambda>low.
       mapped (Between a negated low) (rewrite_expr E high)))"
| "rewrite_expr E (InList a xs negated) =
     and_then (rewrite_expr E a) (\<lambda>a. mapped (\<lambda>xs. InList a xs negated) (rewrite_exprs E xs))"
| "rewrite_expr E (InSubquery a q negated) = mapped (\<lambda>q. InSubquery a q negated) (nested E q)"
| "rewrite_expr E (Exists q negated) = mapped (\<lambda>q. Exists q negated) (nested E q)"
| "rewrite_expr E (Subquery q) = mapped Subquery (nested E q)"
| "rewrite_expr E (Case operand whens other) =
     and_then (case operand of None \<Rightarrow> Inr None | Some a \<Rightarrow> mapped Some (rewrite_expr E a)) (\<lambda>operand.
     and_then (rewrite_whens E whens) (\<lambda>whens.
     mapped (Case operand whens) (case other of None \<Rightarrow> Inr None | Some a \<Rightarrow> mapped Some (rewrite_expr E a))))"
| "rewrite_expr E (Function name args over rest) =
     and_then (case args of None \<Rightarrow> Inr None | Some l \<Rightarrow> mapped Some (rewrite_args E l)) (\<lambda>args.
     rewrite_call E name args over rest)"
| "rewrite_expr E e = Inr e"
| "rewrite_exprs E [] = Inr []"
| "rewrite_exprs E (e # es) = and_then (rewrite_expr E e) (\<lambda>e. mapped ((#) e) (rewrite_exprs E es))"
| "rewrite_whens E [] = Inr []"
| "rewrite_whens E (w # ws) = and_then (rewrite_when E w) (\<lambda>w. mapped ((#) w) (rewrite_whens E ws))"
| "rewrite_when E (CaseWhen a b) = and_then (rewrite_expr E a) (\<lambda>a. mapped (CaseWhen a) (rewrite_expr E b))"
| "rewrite_args E [] = Inr []"
| "rewrite_args E (a # as) = and_then (rewrite_arg E a) (\<lambda>a. mapped ((#) a) (rewrite_args E as))"
| "rewrite_arg E (Unnamed a) = mapped Unnamed (rewrite_expr E a)"
| "rewrite_arg E a = Inr a"

section \<open>DECODE\<close>

text \<open>
  The values of the expressions in a DECODE: NULL, a character string that is not empty, or a
  whole number.  \<open>written\<close> is the decimal text of a number and \<open>read\<close> the number a string stands
  for, if any.
\<close>

datatype decode_value = VNull | VText string | VNumber int

record conversions =
  written :: "int \<Rightarrow> string"
  as_number :: "string \<Rightarrow> int option"

definition as_text :: "conversions \<Rightarrow> decode_value \<Rightarrow> string option" where
  "as_text K v = (case v of VNull \<Rightarrow> None | VText s \<Rightarrow> Some s | VNumber i \<Rightarrow> Some (written K i))"

text \<open>
  What PostgreSQL makes of the CASE: \<open>val\<close> gives the values of the expressions of the DECODE, a
  cast to text writes a number, and \<open>other\<close> is what a cast to another type does.  The result is
  that of the first arm whose condition is true, NULL when there is neither such an arm nor ELSE.
\<close>

definition cast_value ::
    "conversions \<Rightarrow> (data_type \<Rightarrow> decode_value \<Rightarrow> decode_value) \<Rightarrow> ('q expr \<Rightarrow> decode_value) \<Rightarrow> 'q expr \<Rightarrow> decode_value" where
  "cast_value K other val e = (case e of
       Cast a t \<Rightarrow>
         if t = DText then (case as_text K (val a) of None \<Rightarrow> VNull | Some s \<Rightarrow> VText s)
         else other t (val a)
     | _ \<Rightarrow> val e)"

definition arm_true :: "('q expr \<Rightarrow> decode_value) \<Rightarrow> 'q case_when \<Rightarrow> bool" where
  "arm_true cv w \<longleftrightarrow> (case w of CaseWhen (IsNotDistinctFrom a b) _ \<Rightarrow> cv a = cv b | _ \<Rightarrow> False)"

definition chosen :: "('q expr \<Rightarrow> decode_value) \<Rightarrow> 'q expr \<Rightarrow> 'q expr" where
  "chosen cv e = (case e of
       Case None whens other \<Rightarrow>
         (case find (arm_true cv) whens of
            Some (CaseWhen _ r) \<Rightarrow> r
          | None \<Rightarrow> unwrap_or (lit Null) other)
     | _ \<Rightarrow> e)"

text \<open>
  Oracle's DECODE: the result behind the first search value equal to the input, where NULL
  equals NULL.  The input and every search value are first converted to the type of the first
  search value, to a number if that is one and to text otherwise.
\<close>

definition equal_as :: "conversions \<Rightarrow> decode_value \<Rightarrow> decode_value \<Rightarrow> decode_value \<Rightarrow> bool" where
  "equal_as K first a b \<longleftrightarrow>
     (if a = VNull \<or> b = VNull then a = b
      else (case first of
          VNumber _ \<Rightarrow> (let n = (\<lambda>v. case v of VNumber i \<Rightarrow> Some i | VText s \<Rightarrow> as_number K s | VNull \<Rightarrow> None) in n a = n b)
        | _ \<Rightarrow> as_text K a = as_text K b))"

fun decoded :: "('q expr \<Rightarrow> 'q expr \<Rightarrow> bool) \<Rightarrow> 'q expr \<Rightarrow> 'q expr list \<Rightarrow> 'q expr" where
  "decoded same input (search # result # rest) = (if same input search then result else decoded same input rest)"
| "decoded same input [other] = other"
| "decoded same input [] = lit Null"

text \<open>A text compared as a number is the text of that number, as for \<open>0\<close> and not for \<open>00\<close>.\<close>

definition plain_value :: "conversions \<Rightarrow> decode_value \<Rightarrow> decode_value \<Rightarrow> bool" where
  "plain_value K first v \<longleftrightarrow> (case (first, v) of
       (VNumber _, VText s) \<Rightarrow> (case as_number K s of Some i \<Rightarrow> s = written K i | None \<Rightarrow> False)
     | _ \<Rightarrow> True)"

lemma equal_as_text:
  assumes "\<And>i. as_number K (written K i) = Some i" "plain_value K first a" "plain_value K first b"
  shows "equal_as K first a b \<longleftrightarrow> as_text K a = as_text K b"
proof (cases "a = VNull \<or> b = VNull")
  case True
  then show ?thesis by (cases a; cases b) (simp_all add: equal_as_def as_text_def)
next
  case False
  have inj: "written K i = written K j \<longleftrightarrow> i = j" for i j by (metis assms(1) option.inject)
  from False assms show ?thesis
    by (cases first; cases a; cases b)
      (auto simp: equal_as_def as_text_def plain_value_def Let_def inj split: option.splits)
qed

lemma decode_arm_true:
  "arm_true (cast_value K other val) (decode_arm a (b, r)) \<longleftrightarrow> as_text K (val a) = as_text K (val b)"
  by (auto simp: arm_true_def decode_arm_def cast_value_def split: option.splits)

lemma decoded_pairs:
  assumes "\<And>b r. (b, r) \<in> set (pairs_of xs) \<Longrightarrow> same a b \<longleftrightarrow> arm_true cv (decode_arm a (b, r))"
  shows "decoded same a xs = (case find (arm_true cv) (map (decode_arm a) (pairs_of xs)) of
       Some (CaseWhen _ r) \<Rightarrow> r
     | None \<Rightarrow> if even (length xs) then lit Null else last xs)"
  using assms
proof (induction xs rule: pairs_of.induct)
  case (1 s r xs)
  have "odd (length xs) \<Longrightarrow> xs \<noteq> []" by auto
  moreover have "(case decode_arm a (s, r) of CaseWhen c x \<Rightarrow> x) = r" by (simp add: decode_arm_def)
  moreover have "same a s \<longleftrightarrow> arm_true cv (decode_arm a (s, r))" using "1.prems" [of s r] by simp
  ultimately show ?case
    using "1.IH" "1.prems" by (cases "same a s"; cases "even (length xs)") (simp_all cong: option.case_cong)
qed simp_all

lemma pairs_of_butlast: "odd (length xs) \<Longrightarrow> pairs_of (butlast xs) = pairs_of xs"
  by (induction xs rule: pairs_of.induct) auto


text \<open>A sample of conversions: a number is written in unary, with its sign.\<close>

definition unary :: conversions where
  "unary = \<lparr>written = \<lambda>i. (if i < 0 then CHR ''-'' else CHR ''+'') # replicate (nat \<bar>i\<bar>) (CHR ''1''),
     as_number = \<lambda>s. Some (if take 1 s = ''-'' then - int (length s - 1) else int (length s - 1))\<rparr>"

definition sample_value :: "unit expr \<Rightarrow> decode_value" where
  "sample_value e = (case e of
       Value (SingleQuotedString s) \<Rightarrow> VText s
     | Value (Number s) \<Rightarrow> (case parse_usize s of Some n \<Rightarrow> VNumber (int n) | None \<Rightarrow> VNull)
     | _ \<Rightarrow> VNull)"


text \<open>
  Where the text is not the one PostgreSQL writes, the CASE and DECODE part: a zero in two digits
  against the number 0.
\<close>

lemma decode_loses_conversion:
  assumes "as_number K ''00'' = Some 0" "written K 0 = ''0''" "val input = VText ''00''" "val search = VNumber 0"
  shows "decoded (\<lambda>a b. equal_as K (VNumber 0) (val a) (val b)) input [search, result, other] = result
    \<and> mapped (chosen (cast_value K oc val)) (rewrite_decode [input, search, result, other]) = Inr other"
proof -
  have "rewrite_decode [input, search, result, other] = Inr (Case None [decode_arm input (search, result)] (Some other))"
    by (simp add: rewrite_decode_def)
  with assms show ?thesis
    by (simp add: equal_as_def chosen_def decode_arm_true as_text_def unwrap_or_def)
qed

end
