(* ===== verification/Spec2Isabelle.thy ===== *)
theory Spec2Isabelle
  imports Tns Ttc Ops Credentials Profile Execute_Request Result_Stream Session_Replies Honest_Login Pg_Numeric Pg_Statements Registry Sql_Words Sql_Rownum Sql_Joins Sql_Rewrite
begin

text \<open>
  A model of dbsaci, a proxy that speaks the Oracle client protocol (TNS packets carrying
  TTC messages) to its clients and PostgreSQL or MariaDB to its backend.

  \<^bold>\<open>The program.\<close>  A connection is accepted (\<open>Registry\<close>), its packets are framed (\<open>Tns\<close>), the
  client negotiates a dialect (\<open>Negotiation\<close>, \<open>Handshake_Wire\<close>, \<open>Profile\<close>) and proves its password
  (\<open>Auth_Wire\<close>, \<open>Auth\<close>, \<open>Login\<close>), and the command loop serves requests (\<open>Session\<close>): each is parsed
  (\<open>Execute_Request\<close>, \<open>Binds\<close>), its SQL is translated (the \<open>Sql\<close> theories), run on the backend
  (\<open>Backend_Api\<close>, \<open>Pg_Backend\<close>), and answered in the layout of the client (\<open>Response\<close>,
  \<open>Response_Oci\<close>, \<open>End_Of_Call\<close>) or with an Oracle error (\<open>Error_Map\<close>).

  \<^bold>\<open>Theories, over the Rust files of the same part.\<close>
    \<^item> \<open>Prelude\<close>, \<open>Rust_Std\<close>: machine integers as words, byte strings, the \<open>?\<close> operator, the pieces
      of the Rust standard library the source calls on text.  A string is the list of its UTF-8
      bytes.  \<open>Interfaces\<close>: tables looked up by a key, a contract several components provide.
    \<^item> \<open>Errors\<close> (\<^verbatim>\<open>src/src/error.rs\<close>): the error enum and its text.
    \<^item> \<open>Codec\<close>, \<open>Buffer\<close> (\<^verbatim>\<open>src/src/buffer.rs\<close>): the cursor and all readers and writers.  The locale
      of a field of the wire format is interpreted on every pair of a writer and its reader; each
      field reads back as written, and no reader leaves the buffer.
    \<^item> \<open>Tns\<close> (\<^verbatim>\<open>src/src/tns.rs\<close>), \<open>Ttc\<close> (\<^verbatim>\<open>src/src/ttc.rs\<close>), \<open>Ops\<close> (\<^verbatim>\<open>src/src/ops.rs\<close>),
      \<open>Credentials\<close> (\<^verbatim>\<open>src/src/credentials.rs\<close>), \<open>Profile\<close> (\<^verbatim>\<open>src/src/profile.rs\<close>): packets on a byte
      stream, function codes, who may read the session list, the user list, client dialects.
    \<^item> \<open>Message_Fields\<close>, \<open>Oracle_Number\<close>, \<open>Temporal\<close>, \<open>Binds\<close>, \<open>Execute_Request\<close>, \<open>End_Of_Call\<close>,
      \<open>Response\<close>, \<open>Response_Oci\<close>, \<open>Handshake_Wire\<close>, \<open>Auth_Wire\<close> (\<^verbatim>\<open>src/src/wire.rs\<close>): every parser
      and builder of messages.  \<open>Result_Stream\<close> is the client's side: what a client that follows
      the layout takes out of each response is what the server put in.
    \<^item> \<open>Auth\<close> (\<^verbatim>\<open>src/src/auth.rs\<close>): the password exchange over primitives that are parameters.
    \<^item> \<open>Backend_Api\<close> (the traits of \<^verbatim>\<open>src/src/backend.rs\<close> as a record of operations, with the locale
      of a source of rows), \<open>Error_Map\<close>, \<open>Session\<close>, \<open>Negotiation\<close>, \<open>Login\<close>, \<open>Registry\<close>
      (\<^verbatim>\<open>src/src/server.rs\<close>): one session as a state machine over its variables and its two byte
      streams, from the first packet to logoff; the process around it as interleaved steps.
      \<open>Session_Frame\<close> holds the locale of what handlers leave alone, \<open>Session_Loop\<close>,
      \<open>Session_Replies\<close>, \<open>Streaming\<close> and \<open>Honest_Login\<close> the theorems on whole sessions: the loop ends,
      statement ids stay distinct, a call gets one reply, the rows of a cursor arrive complete
      and in order, an honest client logs in, no backend connection without a proof.
    \<^item> \<open>Pg_Values\<close>, \<open>Pg_Numeric\<close>, \<open>Pg_Backend\<close>, \<open>Pg_Statements\<close> (\<^verbatim>\<open>src/src/backend.rs\<close>): values from
      PostgreSQL's binary forms to Oracle's, prepared statements, savepoints, cursors.  The cache
      interprets a contract of removable tables; the cursor provides the source of rows.
    \<^item> \<open>Sql_Text\<close>, \<open>Sql_Words\<close>, \<open>Sql_Joins\<close>, \<open>Sql_Ast\<close>, \<open>Sql_Rownum\<close>, \<open>Sql_Rewrite\<close>
      (\<^verbatim>\<open>src/src/translate/mod.rs\<close>): scanners and text passes, marked outer joins, and the syntax
      tree, for which one constructor stands for each variant the source names and an opaque one
      for the others.  Literals and comments come through the text passes unchanged, the
      conditions of outer joins all find a place, lifting \<open>ROWNUM\<close> into a limit keeps the rows
      Oracle would accept one by one, and the CASE put for a DECODE chooses the same result.
      Two theorems show where the lifting goes wrong: at \<open>ROWNUM <> n\<close>, and in the text of
      conditions whose parentheses are taken away.

  \<^bold>\<open>State and errors.\<close>  Fallible functions return a sum, with the error type of the source on the
  left; operations on a state return the result and the state, which an error leaves as the code
  leaves it.  A panic is \<open>None\<close> (\<open>Panics\<close> in \<open>Login\<close>).  Sockets are the bytes still to be read and
  those written; a read past the end is an end of file.  What happens while a statement runs
  (breaks, packets) is a list of arrivals of the session.

  \<^bold>\<open>Recursion.\<close>  The loops of the readers, of negotiation and of the command loop recurse on the
  unread input, which every packet shortens by eight bytes at least.  Loops over counters the
  client sends recurse on the counter.  The loop that drains a PostgreSQL cursor may not end
  and is a partial function; that it returns, with which rows, is a theorem for sources that
  deliver.  Text passes recurse on the text that is left, tree passes on the tree.  There is no
  fuel.

  \<^bold>\<open>Parameters and their hypotheses.\<close>  Hashes, ciphers and random bytes (\<open>crypto_ok\<close>: lengths, and
  decryption inverts encryption), the calendar of chrono (\<open>chrono_ok\<close>), the database driver
  (\<open>counts_savepoints\<close>: SAVEPOINT and RELEASE count; \<open>delivers\<close>: a row stream gives its rows), the
  translator and backend of a session, the printer and parser of the syntax tree
  (\<open>prints_plainly\<close>: no parentheses but those of \<open>Nested\<close>), the numbers and truth values of the
  parts of a condition that do not speak of the row number.  Each property that uses one has a witness with a
  concrete instance.

  \<^bold>\<open>Not modelled.\<close>  Most of \<^verbatim>\<open>src/src/translate/mod.rs\<close>: the passes that lower PL/SQL, DDL, MERGE,
  PIVOT and CONNECT BY and all MariaDB passes are long heuristics on text; \<open>translate_query\<close> and
  its like put the rewritten parts back into queries of the sqlparser crate.  \<^verbatim>\<open>src/src/mariadb.rs\<close> beyond its interface to
  the session runs SQL through the driver.  Opening connections and the text of the SQL facade
  (\<^verbatim>\<open>src/src/backend.rs\<close>), sockets, TLS, signals and logging (\<^verbatim>\<open>src/src/server.rs\<close>,
  \<^verbatim>\<open>src/src/tls.rs\<close>), the command line (\<^verbatim>\<open>src/src/bin/dbsaci.rs\<close>).
\<close>

end
